(* ===== verification/Smf_Prelude.thy ===== *)
theory Smf_Prelude
  imports Main "HOL-Library.Word"
begin

unbundle bit_operations_syntax

text \<open>
  Shared vocabulary of the development: machine integers and byte strings, little-endian
  integers, the exceptions the code throws, completed futures and their chaining.

  A \<^verbatim>\<open>seastar::future<T>\<close> that has completed is a value of type \<open>'a fut\<close>: \<open>Inl\<close> is the
  exception it carries, \<open>Inr\<close> its value. A future that has not completed yet is a position of
  a fiber in a state machine (the server and client theories). \<open>fut_then\<close> is
  \<^verbatim>\<open>.then(continuation)\<close>: an exception skips the continuation.
\<close>

section \<open>Machine integers and bytes\<close>

type_synonym u8 = "8 word"
type_synonym u16 = "16 word"
type_synonym u32 = "32 word"
type_synonym u64 = "64 word"
type_synonym byte = u8
type_synonym bytes = "byte list"

named_theorems le_simps \<open>little-endian integers\<close>
named_theorems fut_simps \<open>completed futures\<close>

text \<open>
  An \<open>n\<close>-byte little-endian integer in memory (the layout of the wire header's fields, and of
  \<^verbatim>\<open>seastar::write_le\<close> and \<^verbatim>\<open>seastar::read_le\<close>).
\<close>

fun nat_to_le :: "nat \<Rightarrow> nat \<Rightarrow> bytes" where
  "nat_to_le 0 v = []"
| "nat_to_le (Suc n) v = of_nat (v mod 256) # nat_to_le n (v div 256)"

fun le_to_nat :: "bytes \<Rightarrow> nat" where
  "le_to_nat [] = 0"
| "le_to_nat (b # bs) = unat b + 256 * le_to_nat bs"

definition word_to_le :: "nat \<Rightarrow> 'a::len word \<Rightarrow> bytes" where
  "word_to_le n w = nat_to_le n (unat w)"

definition le_to_word :: "bytes \<Rightarrow> 'a::len word" where
  "le_to_word bs = of_nat (le_to_nat bs)"

lemma length_nat_to_le [simp]: "length (nat_to_le n v) = n"
  by (induction n arbitrary: v) auto

lemma length_word_to_le [simp]: "length (word_to_le n w) = n"
  by (simp add: word_to_le_def)

lemma unat_of_nat_byte [simp]: "unat (of_nat (v mod 256) :: u8) = v mod 256"
  by (simp add: unat_of_nat)

lemma le_to_nat_nat_to_le: "le_to_nat (nat_to_le n v) = v mod 256 ^ n"
proof (induction n arbitrary: v)
  case 0
  then show ?case by simp
next
  case (Suc n)
  have "v mod 256 + 256 * (v div 256 mod 256 ^ n) = v mod (256 * 256 ^ n)"
    by (simp add: mod_mult2_eq)
  with Suc show ?case by simp
qed

lemma le_to_nat_bound: "le_to_nat bs < 256 ^ length bs"
proof (induction bs)
  case Nil
  then show ?case by simp
next
  case (Cons b bs)
  have "unat b < 256" using unsigned_less [of b] by simp
  then have "unat b + 256 * le_to_nat bs < 256 * (le_to_nat bs + 1)" by simp
  also have "\<dots> \<le> 256 * 256 ^ length bs"
    using Cons.IH by (intro mult_le_mono2) simp
  finally show ?case by simp
qed

lemma nat_to_le_le_to_nat: "nat_to_le (length bs) (le_to_nat bs) = bs"
proof (induction bs)
  case Nil
  then show ?case by simp
next
  case (Cons b bs)
  have b: "unat b < 256" using unsigned_less [of b] by simp
  then have "(unat b + 256 * le_to_nat bs) mod 256 = unat b"
    and "(unat b + 256 * le_to_nat bs) div 256 = le_to_nat bs" by simp_all
  with Cons.IH show ?case by simp
qed

lemma le_to_word_to_le [le_simps]:
  assumes "LENGTH('a::len) = 8 * n"
  shows "le_to_word (word_to_le n (w :: 'a word)) = w"
proof -
  have "unat w < 2 ^ (8 * n)" using unsigned_less [of w] assms by simp
  then have "unat w < 256 ^ n" by (simp add: power_mult)
  then show ?thesis
    by (simp add: le_to_word_def word_to_le_def le_to_nat_nat_to_le)
qed

lemma word_to_le_to_word [le_simps]:
  assumes "LENGTH('a::len) = 8 * n" and "length bs = n"
  shows "word_to_le n (le_to_word bs :: 'a word) = bs"
proof -
  have "le_to_nat bs < 2 ^ LENGTH('a)"
    using le_to_nat_bound [of bs] assms by (simp add: power_mult)
  then have "unat (of_nat (le_to_nat bs) :: 'a word) = le_to_nat bs"
    by (simp add: unat_of_nat take_bit_nat_eq_self)
  then show ?thesis
    using nat_to_le_le_to_nat [of bs] assms by (simp add: le_to_word_def word_to_le_def)
qed

section \<open>Exceptions and completed futures\<close>

text \<open>
  The exceptions the modelled code can raise. \<open>Runtime_error\<close> is the
  \<^verbatim>\<open>std::runtime_error\<close> of \<^verbatim>\<open>LOG_THROW_IF\<close> and \<^verbatim>\<open>DLOG_THROW_IF\<close>, named by the source's
  message literal; \<open>Invalid_connection_state\<close> and \<open>Remote_connection_error\<close> are the classes of
  \<^verbatim>\<open>rpc_client.cc\<close>; \<open>Timed_out\<close> and \<open>Gate_closed\<close> are raised by \<^verbatim>\<open>seastar::with_timeout\<close>
  and \<^verbatim>\<open>seastar::with_gate\<close>; \<open>Foreign\<close> is any exception of a socket, a filter or a handler;
  \<open>Undefined_behaviour\<close> marks what C++ leaves undefined (a null dereference, a read past the end
  of a buffer).
\<close>

datatype exn =
    Runtime_error string
  | Invalid_connection_state
  | Remote_connection_error
  | Timed_out
  | Gate_closed
  | Foreign string
  | Undefined_behaviour string

type_synonym 'a fut = "exn + 'a"

definition fut_then :: "'a fut \<Rightarrow> ('a \<Rightarrow> 'b fut) \<Rightarrow> 'b fut" where
  "fut_then x k = (case x of Inl e \<Rightarrow> Inl e | Inr a \<Rightarrow> k a)"

definition log_throw_if :: "bool \<Rightarrow> string \<Rightarrow> 'a fut \<Rightarrow> 'a fut" where
  "log_throw_if c msg k = (if c then Inl (Runtime_error msg) else k)"

text \<open>
  The debug variants are compiled in when \<^verbatim>\<open>NDEBUG\<close> is not defined; \<open>dbg\<close> says which build it is.
\<close>

definition dlog_throw_if :: "bool \<Rightarrow> bool \<Rightarrow> string \<Rightarrow> 'a fut \<Rightarrow> 'a fut" where
  "dlog_throw_if dbg c msg k = (if dbg \<and> c then Inl (Runtime_error msg) else k)"

lemma fut_then_Inl [simp, fut_simps]: "fut_then (Inl e) k = Inl e"
  by (simp add: fut_then_def)

lemma fut_then_Inr [simp, fut_simps]: "fut_then (Inr a) k = k a"
  by (simp add: fut_then_def)

lemma fut_then_assoc [fut_simps]:
  "fut_then (fut_then x k) l = fut_then x (\<lambda>a. fut_then (k a) l)"
  by (cases x) simp_all

lemma fut_then_ready [fut_simps]: "fut_then x Inr = x"
  by (cases x) simp_all

lemma fut_then_eq_Inr:
  "fut_then x k = Inr b \<longleftrightarrow> (\<exists>a. x = Inr a \<and> k a = Inr b)"
  by (cases x) simp_all

lemma fut_then_eq_Inl:
  "fut_then x k = Inl e \<longleftrightarrow> x = Inl e \<or> (\<exists>a. x = Inr a \<and> k a = Inl e)"
  by (cases x) simp_all

lemma log_throw_if_eq_Inr [simp]: "log_throw_if c m k = Inr a \<longleftrightarrow> \<not> c \<and> k = Inr a"
  by (simp add: log_throw_if_def)

lemma dlog_throw_if_eq_Inr [simp]:
  "dlog_throw_if dbg c m k = Inr a \<longleftrightarrow> \<not> (dbg \<and> c) \<and> k = Inr a"
  by (simp add: dlog_throw_if_def)

section \<open>Lists\<close>

lemma take_append_exact [simp]: "length xs = n \<Longrightarrow> take n (xs @ ys) = xs"
  by simp

lemma drop_append_exact [simp]: "length xs = n \<Longrightarrow> drop n (xs @ ys) = ys"
  by simp

text \<open>The list without its \<open>k\<close>-th element: a fiber that has ended.\<close>

definition remove_nth :: "nat \<Rightarrow> 'a list \<Rightarrow> 'a list" where
  "remove_nth k xs = take k xs @ drop (Suc k) xs"

lemma split_at: "k < length xs \<Longrightarrow> xs = take k xs @ xs ! k # drop (Suc k) xs"
  by (rule id_take_nth_drop)

lemma length_remove_nth [simp]: "k < length xs \<Longrightarrow> length (remove_nth k xs) = length xs - 1"
  by (simp add: remove_nth_def)

lemma set_remove_nth: "x \<in> set (remove_nth k xs) \<Longrightarrow> x \<in> set xs"
  by (auto simp: remove_nth_def dest: in_set_takeD in_set_dropD)

lemma map_remove_nth: "map f (remove_nth k xs) = remove_nth k (map f xs)"
  by (simp add: remove_nth_def take_map drop_map)

lemma distinct_remove_nth: "distinct xs \<Longrightarrow> distinct (remove_nth k xs)"
  by (cases "k < length xs")
    (auto simp: remove_nth_def dest: split_at set_take_disj_set_drop_if_distinct [of xs k "Suc k"])

lemma not_in_remove_nth: "distinct xs \<Longrightarrow> k < length xs \<Longrightarrow> xs ! k \<notin> set (remove_nth k xs)"
  using split_at [of k xs] by (auto simp: remove_nth_def) (metis distinct_append distinct.simps(2)
    disjoint_iff list.set_intros(1) list.set_intros(2))+

lemma sum_list_remove_nth:
  "k < length xs \<Longrightarrow> sum_list (remove_nth k xs) = sum_list xs - (xs ! k :: 'a::ab_group_add)"
  by (subst (2) split_at [of k xs]) (simp_all add: remove_nth_def algebra_simps)

lemma sum_list_list_update:
  "k < length xs \<Longrightarrow> sum_list (xs[k := y]) = sum_list xs - xs ! k + (y :: 'a::ab_group_add)"
  by (subst (2) split_at [of k xs]) (simp_all add: upd_conv_take_nth_drop algebra_simps)

lemma map_list_update_same: "g y = g (xs ! i) \<Longrightarrow> map g (xs[i := y]) = map g xs"
  by (cases "i < length xs") (simp_all add: map_update list_update_same_conv list_update_beyond not_less)

lemma sum_list_member_le:
  "(\<And>x. x \<in> set xs \<Longrightarrow> 0 \<le> f x) \<Longrightarrow> x \<in> set xs \<Longrightarrow> f x \<le> (\<Sum>y\<leftarrow>xs. f y :: int)"
proof (induction xs)
  case (Cons a xs)
  then have "0 \<le> (\<Sum>y\<leftarrow>xs. f y)" by (intro sum_list_nonneg) auto
  with Cons show ?case by force
qed simp

section \<open>Decimal notation\<close>

function dec_nat :: "nat \<Rightarrow> string" where
  "dec_nat n = (if n < 10 then [char_of (n + 48)] else dec_nat (n div 10) @ [char_of (n mod 10 + 48)])"
  by pat_completeness auto
termination
  by (relation "measure id") auto

declare dec_nat.simps [simp del]

definition dec_int :: "int \<Rightarrow> string" where
  "dec_int i = (if i < 0 then ''-'' @ dec_nat (nat (- i)) else dec_nat (nat i))"

section \<open>Word arithmetic\<close>

lemma word_less_succ: "w \<noteq> - 1 \<Longrightarrow> w < w + (1 :: 'a::len word)"
  using unatSuc [of w] by (simp add: word_less_nat_alt add_eq_0_iff add.commute)

lemma unat_of_nat_u32: "n < 2 ^ 32 \<Longrightarrow> unat (of_nat n :: u32) = n"
  by (simp add: unat_of_nat take_bit_nat_eq_self)

lemma unat_of_nat_u64: "n < 2 ^ 64 \<Longrightarrow> unat (of_nat n :: u64) = n"
  by (simp add: unat_of_nat take_bit_nat_eq_self)

lemma sint_u32_small:
  assumes "unat (w :: u32) < 2147483648"
  shows "sint w = int (unat w)"
proof -
  have "int (unat w) < int 2147483648"
    using assms by (simp only: of_nat_less_iff)
  then have "uint w < 2147483648" by (simp only: of_nat_unat of_nat_numeral)
  moreover have "- 2147483648 \<le> uint w"
    by (rule order_trans [OF _ uint_ge_0]) simp
  ultimately have "signed_take_bit 31 (uint w) = uint w"
    by (intro signed_take_bit_int_eq_self) simp_all
  then show ?thesis by (simp add: sint_uint)
qed

lemma sint_u32_large:
  assumes "2147483648 \<le> unat (w :: u32)"
  shows "sint w = int (unat w) - 4294967296"
proof -
  have lt: "uint w < 4294967296" using uint_bounded [of w] by simp
  have "int 2147483648 \<le> int (unat w)"
    using assms by (simp only: of_nat_le_iff)
  then have ge: "2147483648 \<le> uint w" by (simp only: of_nat_unat of_nat_numeral)
  have "take_bit 32 (uint w - 4294967296) = take_bit 32 (uint w)"
    by (simp add: take_bit_eq_mod)
  then have "signed_take_bit 31 (uint w) = signed_take_bit 31 (uint w - 4294967296)"
    by (simp add: signed_take_bit_eq_iff_take_bit_eq)
  also have "\<dots> = uint w - 4294967296"
    using lt ge by (intro signed_take_bit_int_eq_self) simp_all
  finally show ?thesis by (simp add: sint_uint)
qed

end
