(* ===== verification/Rpc_Header.thy ===== *)
theory Rpc_Header
  imports Smf_Prelude
begin

text \<open>
  The 16-byte wire header (\<^verbatim>\<open>src/src/core/rpc.fbs\<close>, struct \<^verbatim>\<open>header\<close>), its image in memory,
  and the checksum helpers of \<^verbatim>\<open>rpc_header_utils.h\<close>. \<^verbatim>\<open>XXH64\<close> is a function of a third-party
  library and a parameter (\<open>xxh\<close>: the bytes hashed and the seed).

  \<^verbatim>\<open>compression_flags\<close> has the underlying type \<^verbatim>\<open>byte\<close>, a signed 8-bit integer: an enum
  read from the wire holds any of its 256 values, so the field is a \<open>u8\<close> read by \<open>sint\<close>.
\<close>

type_synonym xxh64 = "bytes \<Rightarrow> u64 \<Rightarrow> u64"

record header =
  hdr_compression :: u8
  hdr_bitflags :: u8
  hdr_session :: u16
  hdr_size :: u32
  hdr_checksum :: u32
  hdr_meta :: u32

definition compression_flags_none :: u8 where
  "compression_flags_none = 0"

definition compression_flags_disabled :: u8 where
  "compression_flags_disabled = 1"

definition compression_flags_zstd :: u8 where
  "compression_flags_zstd = 2"

definition compression_flags_lz4 :: u8 where
  "compression_flags_lz4 = 3"

text \<open>\<^verbatim>\<open>compression_flags_MAX\<close> is the enum's last value.\<close>

definition compression_flags_MAX :: u8 where
  "compression_flags_MAX = compression_flags_lz4"

text \<open>\<^verbatim>\<open>header_bit_flags\<close> is declared \<^verbatim>\<open>(bit_flags)\<close>: its first name is bit 0.\<close>

definition header_bit_flags_has_payload_headers :: u8 where
  "header_bit_flags_has_payload_headers = 1"

lemmas compression_flags_defs =
  compression_flags_none_def compression_flags_disabled_def compression_flags_zstd_def
  compression_flags_lz4_def compression_flags_MAX_def

text \<open>A default-constructed header is zeroed.\<close>

definition header_zero :: header where
  "header_zero = \<lparr>hdr_compression = 0, hdr_bitflags = 0, hdr_session = 0, hdr_size = 0,
     hdr_checksum = 0, hdr_meta = 0\<rparr>"

definition kHeaderSize :: nat where
  "kHeaderSize = 16"

definition header_to_bytes :: "header \<Rightarrow> bytes" where
  "header_to_bytes h =
     [hdr_compression h, hdr_bitflags h] @ word_to_le 2 (hdr_session h) @
     word_to_le 4 (hdr_size h) @ word_to_le 4 (hdr_checksum h) @ word_to_le 4 (hdr_meta h)"

definition bytes_to_header :: "bytes \<Rightarrow> header" where
  "bytes_to_header bs =
     \<lparr>hdr_compression = bs ! 0, hdr_bitflags = bs ! 1,
      hdr_session = le_to_word (take 2 (drop 2 bs)),
      hdr_size = le_to_word (take 4 (drop 4 bs)),
      hdr_checksum = le_to_word (take 4 (drop 8 bs)),
      hdr_meta = le_to_word (take 4 (drop 12 bs))\<rparr>"

text \<open>
  \<^verbatim>\<open>rpc_checksum_payload\<close> takes the size as \<^verbatim>\<open>uint32_t\<close>: of a buffer of 4 GB or more only
  the first \<open>size mod 2^32\<close> bytes are hashed.
\<close>

definition rpc_checksum_payload :: "xxh64 \<Rightarrow> bytes \<Rightarrow> u32 \<Rightarrow> u32" where
  "rpc_checksum_payload xxh payload sz = ucast (xxh (take (unat sz) payload) 0)"

definition checksum_rpc :: "xxh64 \<Rightarrow> header \<Rightarrow> bytes \<Rightarrow> u32 \<Rightarrow> header" where
  "checksum_rpc xxh hdr payload sz =
     hdr\<lparr>hdr_checksum := rpc_checksum_payload xxh payload sz, hdr_size := sz\<rparr>"

text \<open>The header describes the body that follows it.\<close>

definition header_describes :: "xxh64 \<Rightarrow> header \<Rightarrow> bytes \<Rightarrow> bool" where
  "header_describes xxh h body \<longleftrightarrow>
     unat (hdr_size h) = length body \<and>
     hdr_checksum h = rpc_checksum_payload xxh body (hdr_size h)"

lemma length_header_to_bytes [simp]: "length (header_to_bytes h) = kHeaderSize"
  by (simp add: header_to_bytes_def kHeaderSize_def)

lemma header_round_trip: "bytes_to_header (header_to_bytes h) = h"
  by (simp add: header_to_bytes_def bytes_to_header_def le_to_word_to_le)

lemma list_of_16:
  assumes "length bs = 16"
  obtains c f r s k m where "bs = [c, f] @ r @ s @ k @ m" "length r = 2" "length s = 4"
    "length k = 4" "length m = 4"
proof -
  have "bs = [bs ! 0, bs ! 1] @ take 2 (drop 2 bs) @ take 4 (drop 4 bs) @
      take 4 (drop 8 bs) @ take 4 (drop 12 bs)"
  proof (rule nth_equalityI)
    fix i
    assume "i < length bs"
    then have "i < 16" using assms by simp
    then have "i \<in> {0,1,2,3,4,5,6,7,8,9,10,11,12,13,14,15}"
      by (simp only: insert_iff empty_iff) presburger
    then show "bs ! i = ([bs ! 0, bs ! 1] @ take 2 (drop 2 bs) @ take 4 (drop 4 bs) @
        take 4 (drop 8 bs) @ take 4 (drop 12 bs)) ! i"
      using assms by (auto simp: nth_append)
  qed (use assms in simp)
  then show ?thesis using assms by (intro that) auto
qed

text \<open>Every 16-byte buffer is the image of the header read from it.\<close>

lemma header_round_trip_bytes:
  assumes "length bs = kHeaderSize"
  shows "header_to_bytes (bytes_to_header bs) = bs"
proof -
  from assms obtain c f r s k m where "bs = [c, f] @ r @ s @ k @ m" "length r = 2" "length s = 4"
    "length k = 4" "length m = 4"
    unfolding kHeaderSize_def by (rule list_of_16)
  then show ?thesis
    by (simp add: header_to_bytes_def bytes_to_header_def word_to_le_to_word)
qed

lemma header_to_bytes_inject: "header_to_bytes h = header_to_bytes h' \<longleftrightarrow> h = h'"
  by (metis header_round_trip)

text \<open>\<^verbatim>\<open>checksum_rpc\<close> makes the header describe the body, for every body a header can describe.\<close>

lemma checksum_rpc_describes:
  assumes "length body < 2 ^ 32"
  shows "header_describes xxh (checksum_rpc xxh h body (of_nat (length body))) body"
  using assms by (simp add: header_describes_def checksum_rpc_def unat_of_nat_u32)

lemma checksum_rpc_sel [simp]:
  "hdr_compression (checksum_rpc xxh h body sz) = hdr_compression h"
  "hdr_bitflags (checksum_rpc xxh h body sz) = hdr_bitflags h"
  "hdr_session (checksum_rpc xxh h body sz) = hdr_session h"
  "hdr_meta (checksum_rpc xxh h body sz) = hdr_meta h"
  "hdr_size (checksum_rpc xxh h body sz) = sz"
  by (simp_all add: checksum_rpc_def)

lemma header_describes_update [simp]:
  "header_describes xxh (h\<lparr>hdr_compression := c\<rparr>) b = header_describes xxh h b"
  "header_describes xxh (h\<lparr>hdr_session := s\<rparr>) b = header_describes xxh h b"
  "header_describes xxh (h\<lparr>hdr_meta := m\<rparr>) b = header_describes xxh h b"
  by (simp_all add: header_describes_def)

end
