(* ===== verification/Rpc_Letter.thy ===== *)
theory Rpc_Letter
  imports Rpc_Header
begin

text \<open>
  Letters and envelopes (\<^verbatim>\<open>rpc_letter.cc\<close>, \<^verbatim>\<open>rpc_envelope.cc\<close>, \<^verbatim>\<open>rpc_typed_envelope.h\<close>): the
  outgoing message, its construction and the bytes it puts on the output stream. Packing a
  flatbuffers table (\<^verbatim>\<open>RootType::Pack\<close>) is a parameter.
\<close>

record rpc_letter =
  header :: header
  dynamic_headers :: "string \<rightharpoonup> string"
  body :: bytes

record rpc_envelope =
  letter :: rpc_letter

definition rpc_letter_new :: rpc_letter where
  "rpc_letter_new = \<lparr>header = header_zero, dynamic_headers = Map.empty, body = []\<rparr>"

definition rpc_letter_make :: "header \<Rightarrow> (string \<rightharpoonup> string) \<Rightarrow> bytes \<Rightarrow> rpc_letter" where
  "rpc_letter_make h hdrs buf = \<lparr>header = h, dynamic_headers = hdrs, body = buf\<rparr>"

definition rpc_letter_share :: "rpc_letter \<Rightarrow> rpc_letter" where
  "rpc_letter_share l = rpc_letter_make (header l) (dynamic_headers l) (body l)"

definition rpc_letter_size :: "rpc_letter \<Rightarrow> nat" where
  "rpc_letter_size l = kHeaderSize + length (body l)"

definition rpc_letter_empty :: "rpc_letter \<Rightarrow> bool" where
  "rpc_letter_empty l \<longleftrightarrow> length (body l) = 0"

definition rpc_envelope_new :: rpc_envelope where
  "rpc_envelope_new = \<lparr>letter = rpc_letter_new\<rparr>"

definition env_header :: "rpc_envelope \<Rightarrow> header" where
  "env_header e = header (letter e)"

definition env_body :: "rpc_envelope \<Rightarrow> bytes" where
  "env_body e = body (letter e)"

definition env_with :: "(header \<Rightarrow> header) \<Rightarrow> rpc_envelope \<Rightarrow> rpc_envelope" where
  "env_with f e = e\<lparr>letter := (letter e)\<lparr>header := f (header (letter e))\<rparr>\<rparr>"

definition set_request_id :: "u32 \<Rightarrow> rpc_envelope \<Rightarrow> rpc_envelope" where
  "set_request_id request_id = env_with (hdr_meta_update (\<lambda>_. request_id))"

definition set_status :: "u32 \<Rightarrow> rpc_envelope \<Rightarrow> rpc_envelope" where
  "set_status status = env_with (hdr_meta_update (\<lambda>_. status))"

definition mutate_session :: "u16 \<Rightarrow> rpc_envelope \<Rightarrow> rpc_envelope" where
  "mutate_session s = env_with (hdr_session_update (\<lambda>_. s))"

definition envelope_size :: "rpc_envelope \<Rightarrow> nat" where
  "envelope_size e = rpc_letter_size (letter e)"

definition envelope_share :: "rpc_envelope \<Rightarrow> rpc_envelope" where
  "envelope_share e = \<lparr>letter = rpc_letter_share (letter e)\<rparr>"

text \<open>
  \<^verbatim>\<open>add_dynamic_header(header, value)\<close>: the arguments are C strings that may be null, the map's
  \<^verbatim>\<open>emplace\<close> keeps an entry that is already there. The guards are those of the source: they
  throw when the pointers are \<^emph>\<open>not\<close> null.
\<close>

definition add_dynamic_header ::
  "bool \<Rightarrow> string option \<Rightarrow> string option \<Rightarrow> rpc_envelope \<Rightarrow> rpc_envelope fut" where
  "add_dynamic_header dbg hdr val e =
     dlog_throw_if dbg (hdr \<noteq> None) ''Cannot add header with empty key''
      (dlog_throw_if dbg (val \<noteq> None) ''Cannot add header with empty value''
        (case (hdr, val) of
           (Some k, Some v) \<Rightarrow>
             Inr (e\<lparr>letter := (letter e)\<lparr>dynamic_headers :=
               (if dynamic_headers (letter e) k = None
                then (dynamic_headers (letter e))(k \<mapsto> v)
                else dynamic_headers (letter e))\<rparr>\<rparr>)
         | _ \<Rightarrow> Inl (Undefined_behaviour ''string from a null pointer'')))"

text \<open>
  \<^verbatim>\<open>rpc_envelope::send\<close>: header, body, flush. \<open>werr i\<close> is the exception the \<open>i\<close>-th of the
  three stream operations fails with, if it fails. The result is what has been put on the stream
  and the completed future.
\<close>

definition envelope_send ::
  "bool \<Rightarrow> (nat \<Rightarrow> exn option) \<Rightarrow> rpc_envelope \<Rightarrow> bytes \<times> unit fut" where
  "envelope_send dbg werr e =
     (let h = env_header e; header_buf = header_to_bytes h in
      if dbg \<and> hdr_size h = 0 then ([], Inl (Runtime_error ''Invalid header size''))
      else if dbg \<and> hdr_checksum h = 0 then ([], Inl (Runtime_error ''Invalid header checksum''))
      else (case werr 0 of Some x \<Rightarrow> ([], Inl x)
        | None \<Rightarrow> (case werr 1 of Some x \<Rightarrow> (header_buf, Inl x)
        | None \<Rightarrow> (header_buf @ env_body e,
            (case werr 2 of Some x \<Rightarrow> Inl x | None \<Rightarrow> Inr ())))))"

text \<open>\<open>typed_envelope\<close>: the native table that \<^verbatim>\<open>serialize_data\<close> packs into the body.\<close>

record 'native rpc_typed_envelope =
  envelope :: rpc_envelope
  data :: "'native option"

definition rpc_typed_envelope_new :: "'native \<Rightarrow> 'native rpc_typed_envelope" where
  "rpc_typed_envelope_new d = \<lparr>envelope = rpc_envelope_new, data = Some d\<rparr>"

definition serialize_data ::
  "xxh64 \<Rightarrow> ('native \<Rightarrow> bytes) \<Rightarrow> 'native rpc_typed_envelope \<Rightarrow> rpc_envelope fut" where
  "serialize_data xxh pack te =
     (case data te of
        None \<Rightarrow> Inl (Undefined_behaviour ''serialize_data without data'')
      | Some d \<Rightarrow>
         (let buf = pack d; e = envelope te in
          Inr (e\<lparr>letter := (letter e)\<lparr>body := buf,
            header := checksum_rpc xxh (header (letter e)) buf (of_nat (length buf))\<rparr>\<rparr>)))"

definition futurize_status_for_type :: "u32 \<Rightarrow> 'native \<Rightarrow> 'native rpc_typed_envelope" where
  "futurize_status_for_type status d =
     (let t = rpc_typed_envelope_new d in t\<lparr>envelope := set_status status (envelope t)\<rparr>)"

text \<open>An envelope whose header describes its body.\<close>

definition envelope_wf :: "xxh64 \<Rightarrow> rpc_envelope \<Rightarrow> bool" where
  "envelope_wf xxh e \<longleftrightarrow> header_describes xxh (env_header e) (env_body e)"

named_theorems env_simps \<open>selectors of updated envelopes\<close>

lemma env_with_sel [simp, env_simps]:
  "env_header (env_with f e) = f (env_header e)" "env_body (env_with f e) = env_body e"
  by (simp_all add: env_with_def env_header_def env_body_def)

lemma envelope_setters_sel [simp, env_simps]:
  "env_header (set_request_id r e) = (env_header e)\<lparr>hdr_meta := r\<rparr>"
  "env_header (set_status r e) = (env_header e)\<lparr>hdr_meta := r\<rparr>"
  "env_header (mutate_session s e) = (env_header e)\<lparr>hdr_session := s\<rparr>"
  "env_body (set_request_id r e) = env_body e"
  "env_body (set_status r e) = env_body e"
  "env_body (mutate_session s e) = env_body e"
  by (simp_all add: set_request_id_def set_status_def mutate_session_def)

lemma envelope_wf_setters [simp]:
  "envelope_wf xxh (set_request_id r e) = envelope_wf xxh e"
  "envelope_wf xxh (set_status r e) = envelope_wf xxh e"
  "envelope_wf xxh (mutate_session s e) = envelope_wf xxh e"
  by (simp_all add: envelope_wf_def)

lemma envelope_size_env: "envelope_size e = kHeaderSize + length (env_body e)"
  by (simp add: envelope_size_def rpc_letter_size_def env_body_def)

lemma envelope_share_id: "envelope_share e = e"
  by (simp add: envelope_share_def rpc_letter_share_def rpc_letter_make_def)

definition envelope_wire :: "rpc_envelope \<Rightarrow> bytes" where
  "envelope_wire e = header_to_bytes (env_header e) @ env_body e"

text \<open>What a successful send puts on the stream, and that it puts \<^verbatim>\<open>e.size()\<close> bytes there.\<close>

lemma envelope_send_ok:
  "snd (envelope_send dbg werr e) = Inr () \<Longrightarrow>
     fst (envelope_send dbg werr e) = envelope_wire e"
  by (auto simp: envelope_send_def envelope_wire_def Let_def split: if_splits option.splits)

lemma envelope_send_length:
  "snd (envelope_send dbg werr e) = Inr () \<Longrightarrow>
     length (fst (envelope_send dbg werr e)) = envelope_size e"
  by (simp add: envelope_send_ok envelope_wire_def envelope_size_env)

lemma serialize_data_wf:
  assumes "serialize_data xxh pack te = Inr e" and "data te = Some d" and "length (pack d) < 2 ^ 32"
  shows "envelope_wf xxh e" and "env_body e = pack d"
    and "hdr_meta (env_header e) = hdr_meta (env_header (envelope te))"
  using assms checksum_rpc_describes [of "pack d"]
  by (auto simp: serialize_data_def envelope_wf_def env_header_def env_body_def Let_def)

end
