(* ===== verification/Rpc_Connection.thy ===== *)
theory Rpc_Connection
  imports Smf_Prelude
begin

text \<open>
  A connection (\<^verbatim>\<open>rpc_connection.h\<close>) and the limits it shares with the other connections of its
  server or client (\<^verbatim>\<open>rpc_connection_limits.h\<close>). Of the socket and its streams the record keeps
  what the code asks or does: whether the input stream has seen the end of the stream
  (\<open>in_eof\<close>) and whether a direction was shut down.
\<close>

record rpc_connection =
  remote_address :: string
  istream_active_parser :: u32
  conn_error :: "string option"
  conn_enabled :: bool
  in_eof :: bool
  input_shut :: bool
  output_shut :: bool

definition rpc_connection_new :: "string \<Rightarrow> rpc_connection" where
  "rpc_connection_new address =
     \<lparr>remote_address = address, istream_active_parser = 0, conn_error = None, conn_enabled = True,
      in_eof = False, input_shut = False, output_shut = False\<rparr>"

definition disable :: "rpc_connection \<Rightarrow> rpc_connection" where
  "disable c = c\<lparr>conn_enabled := False\<rparr>"

definition is_enabled :: "rpc_connection \<Rightarrow> bool" where
  "is_enabled c = conn_enabled c"

definition has_error :: "rpc_connection \<Rightarrow> bool" where
  "has_error c \<longleftrightarrow> conn_error c \<noteq> None"

definition is_valid :: "rpc_connection \<Rightarrow> bool" where
  "is_valid c \<longleftrightarrow> conn_enabled c \<and> \<not> has_error c \<and> \<not> in_eof c"

definition set_error :: "string \<Rightarrow> rpc_connection \<Rightarrow> rpc_connection" where
  "set_error e c =
     (case conn_error c of
        None \<Rightarrow> c\<lparr>conn_error := Some e\<rparr>
      | Some old \<Rightarrow> c\<lparr>conn_error := Some (old @ '' :: '' @ e)\<rparr>)"

definition get_error :: "rpc_connection \<Rightarrow> string" where
  "get_error c = (case conn_error c of None \<Rightarrow> '''' | Some e \<Rightarrow> e)"

definition shutdown_input :: "rpc_connection \<Rightarrow> rpc_connection" where
  "shutdown_input c = c\<lparr>input_shut := True\<rparr>"

definition shutdown_output :: "rpc_connection \<Rightarrow> rpc_connection" where
  "shutdown_output c = c\<lparr>output_shut := True\<rparr>"

text \<open>
  The limits. \<open>resources_available\<close> is the count of the semaphore, a signed integer that starts at
  \<open>max_memory\<close>; \<^verbatim>\<open>wait(n)\<close> completes when the count is at least \<open>n\<close> and takes \<open>n\<close> from it,
  \<^verbatim>\<open>signal(n)\<close> adds \<open>n\<close>. Durations are milliseconds.
\<close>

record rpc_connection_limits =
  max_memory :: u64
  max_body_parsing_duration :: int
  resources_available :: int

definition rpc_connection_limits_new :: "u64 \<Rightarrow> int \<Rightarrow> rpc_connection_limits" where
  "rpc_connection_limits_new max_mem_per_core body_timeout_duration =
     \<lparr>max_memory = max_mem_per_core, max_body_parsing_duration = body_timeout_duration,
      resources_available = uint max_mem_per_core\<rparr>"

section \<open>Lemmas\<close>

lemma has_error_set_error [simp]: "has_error (set_error e c)"
  by (simp add: has_error_def set_error_def split: option.splits)

lemma not_valid_set_error [simp]: "\<not> is_valid (set_error e c)"
  by (simp add: is_valid_def)

lemma set_error_frame [simp]:
  "conn_enabled (set_error e c) = conn_enabled c"
  "in_eof (set_error e c) = in_eof c"
  "istream_active_parser (set_error e c) = istream_active_parser c"
  "remote_address (set_error e c) = remote_address c"
  "input_shut (set_error e c) = input_shut c"
  "output_shut (set_error e c) = output_shut c"
  by (simp_all add: set_error_def split: option.splits)

lemma connection_shutdown_frame [simp]:
  "has_error (shutdown_input c) = has_error c" "has_error (shutdown_output c) = has_error c"
  "has_error (disable c) = has_error c"
  "istream_active_parser (shutdown_input c) = istream_active_parser c"
  "istream_active_parser (shutdown_output c) = istream_active_parser c"
  "istream_active_parser (disable c) = istream_active_parser c"
  "in_eof (shutdown_input c) = in_eof c" "in_eof (shutdown_output c) = in_eof c"
  "in_eof (disable c) = in_eof c"
  by (simp_all add: has_error_def shutdown_input_def shutdown_output_def disable_def)

lemma not_valid_disable [simp]: "\<not> is_valid (disable c)"
  by (simp add: is_valid_def disable_def)

lemma has_error_field_update [simp]:
  "has_error (c\<lparr>in_eof := b\<rparr>) = has_error c"
  "has_error (c\<lparr>istream_active_parser := n\<rparr>) = has_error c"
  by (simp_all add: has_error_def)

text \<open>
  Errors are never overwritten: after a sequence of \<^verbatim>\<open>set_error\<close> calls the first error is
  still the front of the text, and every later one is in it, in order.
\<close>

fun joined :: "string list \<Rightarrow> string" where
  "joined [] = ''''"
| "joined [e] = e"
| "joined (e # es) = e @ '' :: '' @ joined es"

lemma joined_snoc: "es \<noteq> [] \<Longrightarrow> joined (es @ [e]) = joined es @ '' :: '' @ e"
  by (induction es rule: joined.induct) simp_all

lemma error_history_fold:
  "conn_error c = None \<Longrightarrow>
     conn_error (fold set_error es c) = (if es = [] then None else Some (joined es))"
  by (induction es rule: rev_induct) (auto simp: set_error_def joined_snoc split: option.splits)

end
