(* ===== verification/Rpc_Recv.thy ===== *)
theory Rpc_Recv
  imports Rpc_Letter Rpc_Connection
begin

text \<open>
  Parsing of incoming messages (\<^verbatim>\<open>rpc_recv_context.cc\<close>) and the typed view of a received
  payload (\<^verbatim>\<open>rpc_recv_typed_context.h\<close>).

  \<^verbatim>\<open>istream.read_exactly(n)\<close> completes with \<open>n\<close> bytes, with fewer when the stream ends, or with
  an exception of the socket. \<^verbatim>\<open>parse_header\<close> is split where it waits for that read:
  \<open>parse_header_start\<close> runs before it, \<open>parse_header_done\<close> after it; \<open>parse_header\<close> puts the two
  around a read from a stream of bytes whose end is the end of the list.
\<close>

record rpc_recv_context =
  ctx_remote_address :: string
  ctx_header :: header
  ctx_payload :: bytes

definition request_id :: "rpc_recv_context \<Rightarrow> u32" where
  "request_id c = hdr_meta (ctx_header c)"

definition status :: "rpc_recv_context \<Rightarrow> u32" where
  "status c = hdr_meta (ctx_header c)"

definition recv_session :: "rpc_recv_context \<Rightarrow> u16" where
  "recv_session c = hdr_session (ctx_header c)"

definition max_flatbuffers_size :: u32 where
  "max_flatbuffers_size = 2147483647"

definition read_exactly :: "nat \<Rightarrow> bytes \<Rightarrow> bytes \<times> bytes" where
  "read_exactly n s = (take n s, drop n s)"

text \<open>A completed read leaves the stream at its end exactly when it came back short.\<close>

definition note_read :: "nat \<Rightarrow> bytes fut \<Rightarrow> rpc_connection \<Rightarrow> rpc_connection" where
  "note_read n rd c =
     (case rd of Inl _ \<Rightarrow> c | Inr bs \<Rightarrow> c\<lparr>in_eof := in_eof c \<or> length bs < n\<rparr>)"

definition parse_header_start :: "bool \<Rightarrow> rpc_connection \<Rightarrow> rpc_connection fut" where
  "parse_header_start dbg c =
     dlog_throw_if dbg (istream_active_parser c \<noteq> 0)
       ''without this line you can have interleaved reads on the buffer''
       (Inr (c\<lparr>istream_active_parser := istream_active_parser c + 1\<rparr>))"

definition check_header :: "bytes \<Rightarrow> header option" where
  "check_header buf =
     (if kHeaderSize \<noteq> length buf then None
      else let hdr = bytes_to_header buf in
        if hdr_size hdr = 0 then None
        else if sint (hdr_compression hdr) > sint compression_flags_MAX then None
        else if hdr_checksum hdr \<le> 0 then None
        else if hdr_meta hdr \<le> 0 then None
        else if hdr_compression hdr = compression_flags_disabled
          then Some (hdr\<lparr>hdr_compression := compression_flags_none\<rparr>)
        else Some hdr)"

definition parse_header_done ::
  "bytes fut \<Rightarrow> rpc_connection \<Rightarrow> rpc_connection \<times> header option fut" where
  "parse_header_done rd c =
     (let c' = note_read kHeaderSize rd c in
      (c'\<lparr>istream_active_parser := istream_active_parser c' - 1\<rparr>,
       fut_then rd (\<lambda>buf. Inr (check_header buf))))"

definition parse_header ::
  "bool \<Rightarrow> rpc_connection \<Rightarrow> bytes \<Rightarrow> rpc_connection \<times> bytes \<times> header option fut" where
  "parse_header dbg c s =
     (case parse_header_start dbg c of
        Inl e \<Rightarrow> (c, s, Inl e)
      | Inr c1 \<Rightarrow>
         (let (buf, rest) = read_exactly kHeaderSize s;
              (c2, r) = parse_header_done (Inr buf) c1
          in (c2, rest, r)))"

definition check_payload ::
  "xxh64 \<Rightarrow> string \<Rightarrow> header \<Rightarrow> bytes \<Rightarrow> rpc_recv_context option" where
  "check_payload xxh address hdr buf =
     (if unat (hdr_size hdr) \<noteq> length buf then None
      else if hdr_size hdr > max_flatbuffers_size then None
      else if (hdr_bitflags hdr AND header_bit_flags_has_payload_headers) \<noteq> 0 then None
      else let xx = rpc_checksum_payload xxh buf (of_nat (length buf)) in
        if xx \<noteq> hdr_checksum hdr then None
        else Some \<lparr>ctx_remote_address = address, ctx_header = hdr, ctx_payload = buf\<rparr>)"

definition parse_payload_done ::
  "xxh64 \<Rightarrow> header \<Rightarrow> bytes fut \<Rightarrow> rpc_connection \<Rightarrow>
     rpc_connection \<times> rpc_recv_context option fut" where
  "parse_payload_done xxh hdr rd c =
     (note_read (unat (hdr_size hdr)) rd c,
      fut_then rd (\<lambda>buf. Inr (check_payload xxh (remote_address c) hdr buf)))"

definition parse_payload ::
  "xxh64 \<Rightarrow> rpc_connection \<Rightarrow> header \<Rightarrow> bytes \<Rightarrow>
     rpc_connection \<times> bytes \<times> rpc_recv_context option fut" where
  "parse_payload xxh c hdr s =
     (let (buf, rest) = read_exactly (unat (hdr_size hdr)) s;
          (c', r) = parse_payload_done xxh hdr (Inr buf) c
      in (c', rest, r))"

text \<open>
  One message, the way \<^verbatim>\<open>handle_one_client_session\<close> and \<^verbatim>\<open>process_one_request\<close> read it: the
  header, and the payload right after it. Then a whole stream, until a message does not parse.
\<close>

definition parse_message ::
  "xxh64 \<Rightarrow> string \<Rightarrow> bytes \<Rightarrow> (rpc_recv_context \<times> bytes) option" where
  "parse_message xxh address s =
     (case check_header (take kHeaderSize s) of
        None \<Rightarrow> None
      | Some hdr \<Rightarrow>
         (let n = unat (hdr_size hdr); s' = drop kHeaderSize s in
          map_option (\<lambda>c. (c, drop n s')) (check_payload xxh address hdr (take n s'))))"

function parse_messages :: "xxh64 \<Rightarrow> string \<Rightarrow> bytes \<Rightarrow> rpc_recv_context list \<times> bytes" where
  "parse_messages xxh address s =
     (case parse_message xxh address s of
        None \<Rightarrow> ([], s)
      | Some (c, rest) \<Rightarrow>
         (let (cs, left) = parse_messages xxh address rest in (c # cs, left)))"
  by pat_completeness auto
termination
proof (relation "measure (\<lambda>(xxh, address, s). length s)")
  fix xxh :: xxh64 and address :: string and s :: bytes and p c rest
  assume *: "parse_message xxh address s = Some p" "(c, rest) = p"
  then have "length (take kHeaderSize s) = kHeaderSize"
    by (auto simp: parse_message_def check_header_def split: option.splits if_splits)
  then have "kHeaderSize \<le> length s" by simp
  then show "((xxh, address, rest), (xxh, address, s)) \<in> measure (\<lambda>(xxh, address, s). length s)"
    using * by (auto simp: parse_message_def kHeaderSize_def Let_def split: option.splits)
qed simp

declare parse_messages.simps [simp del]

section \<open>The typed view of a received payload\<close>

text \<open>
  \<^verbatim>\<open>flatbuffers::GetMutableRoot\<close> (\<open>root\<close>) and the generated verifier (\<open>verify\<close>) are parameters.
\<close>

record 'a rpc_recv_typed_context =
  typed_ctx :: "rpc_recv_context option"
  typed_cache :: "'a option"

definition rpc_recv_typed_context_new ::
  "(bytes \<Rightarrow> 'a) \<Rightarrow> rpc_recv_context option \<Rightarrow> 'a rpc_recv_typed_context" where
  "rpc_recv_typed_context_new root t =
     \<lparr>typed_ctx = t, typed_cache = map_option (\<lambda>c. root (ctx_payload c)) t\<rparr>"

definition typed_bool :: "'a rpc_recv_typed_context \<Rightarrow> bool" where
  "typed_bool t \<longleftrightarrow> typed_ctx t \<noteq> None"

text \<open>\<^verbatim>\<open>get\<close> and \<^verbatim>\<open>operator->\<close>; \<^verbatim>\<open>ctx.value()\<close> of an empty context throws.\<close>

definition typed_get :: "'a rpc_recv_typed_context \<Rightarrow> 'a option" where
  "typed_get t = typed_cache t"

definition move_to_lw_shared ::
  "(bytes \<Rightarrow> 'a) \<Rightarrow> 'a rpc_recv_typed_context \<Rightarrow> 'a rpc_recv_typed_context fut" where
  "move_to_lw_shared root t =
     (case typed_ctx t of
        None \<Rightarrow> Inl (Foreign ''bad_optional_access'')
      | Some c \<Rightarrow> Inr (rpc_recv_typed_context_new root (Some c)))"

definition verify_fbs :: "('a option \<Rightarrow> bytes \<Rightarrow> bool) \<Rightarrow> 'a rpc_recv_typed_context \<Rightarrow> bool" where
  "verify_fbs verify t =
     (case typed_ctx t of None \<Rightarrow> False | Some c \<Rightarrow> verify (typed_cache t) (ctx_payload c))"

section \<open>Lemmas\<close>

text \<open>What a peer must send: a header that describes its body and passes the receiver's guards.\<close>

definition acceptable :: "xxh64 \<Rightarrow> header \<Rightarrow> bytes \<Rightarrow> bool" where
  "acceptable xxh h b \<longleftrightarrow>
     header_describes xxh h b \<and> b \<noteq> [] \<and> length b \<le> 2147483647 \<and>
     sint (hdr_compression h) \<le> 3 \<and> hdr_checksum h \<noteq> 0 \<and> hdr_meta h \<noteq> 0 \<and>
     (hdr_bitflags h AND header_bit_flags_has_payload_headers) = 0"

text \<open>The header as the receiver hands it on.\<close>

definition received_header :: "header \<Rightarrow> header" where
  "received_header h =
     (if hdr_compression h = compression_flags_disabled
      then h\<lparr>hdr_compression := compression_flags_none\<rparr> else h)"

definition received_ctx :: "string \<Rightarrow> header \<Rightarrow> bytes \<Rightarrow> rpc_recv_context" where
  "received_ctx address h b =
     \<lparr>ctx_remote_address = address, ctx_header = received_header h, ctx_payload = b\<rparr>"

lemma received_header_sel [simp]:
  "hdr_bitflags (received_header h) = hdr_bitflags h"
  "hdr_session (received_header h) = hdr_session h"
  "hdr_size (received_header h) = hdr_size h"
  "hdr_checksum (received_header h) = hdr_checksum h"
  "hdr_meta (received_header h) = hdr_meta h"
  by (simp_all add: received_header_def)

lemma sint_flags_MAX [simp]: "sint compression_flags_MAX = 3"
  by (simp add: compression_flags_defs)

lemma check_header_Some:
  "check_header buf = Some h' \<longleftrightarrow>
     (\<exists>h. buf = header_to_bytes h \<and> h' = received_header h \<and> hdr_size h \<noteq> 0 \<and>
        sint (hdr_compression h) \<le> 3 \<and> hdr_checksum h \<noteq> 0 \<and> hdr_meta h \<noteq> 0)"
proof (cases "length buf = kHeaderSize")
  case True
  then obtain h where h: "buf = header_to_bytes h"
    by (metis header_round_trip_bytes)
  show ?thesis
    by (auto simp: h check_header_def Let_def received_header_def header_round_trip
        header_to_bytes_inject word_le_nat_alt unat_0_iff split: if_splits)
next
  case False
  then show ?thesis by (auto simp: check_header_def)
qed

lemma check_payload_Some:
  "check_payload xxh a h b = Some c \<longleftrightarrow>
     c = \<lparr>ctx_remote_address = a, ctx_header = h, ctx_payload = b\<rparr> \<and>
     header_describes xxh h b \<and> length b \<le> 2147483647 \<and>
     (hdr_bitflags h AND header_bit_flags_has_payload_headers) = 0"
proof (cases "unat (hdr_size h) = length b")
  case True
  then have sz: "hdr_size h = of_nat (length b)"
    by (simp flip: True)
  have "hdr_size h > max_flatbuffers_size \<longleftrightarrow> length b > 2147483647"
    using True by (simp add: word_less_nat_alt max_flatbuffers_size_def)
  with True show ?thesis
    by (auto simp: check_payload_def header_describes_def Let_def sz split: if_splits)
next
  case False
  then show ?thesis by (simp add: check_payload_def header_describes_def)
qed

lemma header_describes_received [simp]:
  "header_describes xxh (received_header h) b = header_describes xxh h b"
  by (simp add: header_describes_def)

lemma header_describes_size: "header_describes xxh h b \<Longrightarrow> hdr_size h = 0 \<longleftrightarrow> b = []"
  by (auto simp: header_describes_def simp flip: unat_0_iff)

text \<open>
  Exactly the messages that parse: an acceptable header and its body, with what follows left on
  the stream.
\<close>

lemma parse_message_Some:
  "parse_message xxh a s = Some (c, rest) \<longleftrightarrow>
     (\<exists>h b. s = header_to_bytes h @ b @ rest \<and> acceptable xxh h b \<and> c = received_ctx a h b)"
  (is "?L \<longleftrightarrow> ?R")
proof
  assume ?L
  then obtain h' where ch: "check_header (take kHeaderSize s) = Some h'"
    and cp: "check_payload xxh a h' (take (unat (hdr_size h')) (drop kHeaderSize s)) = Some c"
    and rest: "rest = drop (unat (hdr_size h')) (drop kHeaderSize s)"
    by (auto simp: parse_message_def Let_def split: option.splits)
  from ch obtain h where h: "take kHeaderSize s = header_to_bytes h" "h' = received_header h"
    "hdr_size h \<noteq> 0" "sint (hdr_compression h) \<le> 3" "hdr_checksum h \<noteq> 0" "hdr_meta h \<noteq> 0"
    by (auto simp: check_header_Some)
  let ?b = "take (unat (hdr_size h')) (drop kHeaderSize s)"
  have "s = header_to_bytes h @ ?b @ rest"
    using h(1) rest by (metis append_take_drop_id)
  moreover have "acceptable xxh h ?b" and "c = received_ctx a h ?b"
    using cp h header_describes_size [of xxh h ?b]
    by (auto simp: check_payload_Some acceptable_def received_ctx_def)
  ultimately show ?R by blast
next
  assume ?R
  then obtain h b where s: "s = header_to_bytes h @ b @ rest"
    and acc: "acceptable xxh h b" and c: "c = received_ctx a h b" by blast
  have "check_header (header_to_bytes h) = Some (received_header h)"
    using acc header_describes_size [of xxh h b]
    by (auto simp: check_header_Some acceptable_def)
  moreover have "check_payload xxh a (received_header h) b = Some c"
    using acc c by (simp add: check_payload_Some acceptable_def received_ctx_def)
  moreover have "unat (hdr_size h) = length b"
    using acc by (simp add: acceptable_def header_describes_def)
  ultimately show ?L by (simp add: parse_message_def s)
qed

lemma parse_message_wire:
  "acceptable xxh h b \<Longrightarrow>
     parse_message xxh a (header_to_bytes h @ b @ rest) = Some (received_ctx a h b, rest)"
  by (auto simp: parse_message_Some)

text \<open>The two operations of the source read one message the way \<open>parse_message\<close> does.\<close>

lemma parse_header_payload_message:
  assumes "istream_active_parser c = 0"
  shows "parse_message xxh (remote_address c) s =
    (case parse_header dbg c s of
       (c1, s1, Inr (Some hdr)) \<Rightarrow>
         (case parse_payload xxh c1 hdr s1 of
            (_, s2, Inr (Some x)) \<Rightarrow> Some (x, s2) | _ \<Rightarrow> None)
     | _ \<Rightarrow> None)"
proof (cases "check_header (take kHeaderSize s)")
  case None
  then show ?thesis
    using assms by (simp add: parse_message_def parse_header_def parse_header_start_def
        dlog_throw_if_def parse_header_done_def read_exactly_def Let_def)
next
  case (Some hdr)
  let ?buf = "take (unat (hdr_size hdr)) (drop kHeaderSize s)"
  show ?thesis
    using assms Some
    by (cases "check_payload xxh (remote_address c) hdr ?buf")
      (simp_all add: parse_message_def parse_header_def parse_header_start_def
        dlog_throw_if_def parse_header_done_def parse_payload_def parse_payload_done_def
        read_exactly_def note_read_def Let_def)
qed

lemma note_read_frame [simp]:
  "has_error (note_read n rd c) = has_error c"
  "conn_enabled (note_read n rd c) = conn_enabled c"
  "istream_active_parser (note_read n rd c) = istream_active_parser c"
  "remote_address (note_read n rd c) = remote_address c"
  by (simp_all add: note_read_def has_error_def split: sum.splits)

lemma parse_header_done_frame [simp]:
  "has_error (fst (parse_header_done rd c)) = has_error c"
  "conn_enabled (fst (parse_header_done rd c)) = conn_enabled c"
  "istream_active_parser (fst (parse_header_done rd c)) = istream_active_parser c - 1"
  "remote_address (fst (parse_header_done rd c)) = remote_address c"
  by (simp_all add: parse_header_done_def Let_def)

text \<open>
  \<^verbatim>\<open>istream_active_parser\<close> is balanced: after \<^verbatim>\<open>parse_header\<close> it has the value it had before,
  whatever the read returned.
\<close>

lemma parser_count_balanced:
  "parse_header_start dbg c = Inr c1 \<Longrightarrow>
     istream_active_parser (fst (parse_header_done rd c1)) = istream_active_parser c"
  by (auto simp: parse_header_start_def)

text \<open>A header \<^verbatim>\<open>parse_header\<close> let through, and a context \<^verbatim>\<open>parse_payload\<close> built under one.\<close>

definition header_checked :: "header \<Rightarrow> bool" where
  "header_checked h' \<longleftrightarrow>
     (\<exists>h. h' = received_header h \<and> hdr_size h \<noteq> 0 \<and> sint (hdr_compression h) \<le> 3 \<and>
        hdr_checksum h \<noteq> 0 \<and> hdr_meta h \<noteq> 0)"

lemma check_header_checked: "check_header bs = Some hdr \<Longrightarrow> header_checked hdr"
  by (auto simp: check_header_Some header_checked_def)

definition received_ok :: "xxh64 \<Rightarrow> rpc_recv_context \<Rightarrow> bool" where
  "received_ok xxh ctx \<longleftrightarrow> (\<exists>a h b. acceptable xxh h b \<and> ctx = received_ctx a h b)"

lemma checked_received_ok:
  assumes "header_checked hdr" and "check_payload xxh a hdr bs = Some ctx"
  shows "received_ok xxh ctx"
proof -
  obtain h where h: "hdr = received_header h" "hdr_size h \<noteq> 0" "sint (hdr_compression h) \<le> 3"
    "hdr_checksum h \<noteq> 0" "hdr_meta h \<noteq> 0"
    using assms(1) by (auto simp: header_checked_def)
  have p: "ctx = \<lparr>ctx_remote_address = a, ctx_header = hdr, ctx_payload = bs\<rparr>"
    "header_describes xxh h bs" "length bs \<le> 2147483647"
    "(hdr_bitflags h AND header_bit_flags_has_payload_headers) = 0"
    using assms(2) h(1) by (simp_all add: check_payload_Some)
  then have "acceptable xxh h bs"
    using h header_describes_size [of xxh h bs] by (simp add: acceptable_def)
  with p h(1) show ?thesis by (auto simp: received_ok_def received_ctx_def)
qed

section \<open>Properties\<close>

abbreviation acceptable_envelope :: "xxh64 \<Rightarrow> rpc_envelope \<Rightarrow> bool" where
  "acceptable_envelope xxh e \<equiv> acceptable xxh (env_header e) (env_body e)"

definition arrives :: "string \<Rightarrow> rpc_envelope \<Rightarrow> rpc_recv_context" where
  "arrives address e = received_ctx address (env_header e) (env_body e)"

lemma parse_message_envelope:
  "acceptable_envelope xxh e \<Longrightarrow>
     parse_message xxh a (envelope_wire e @ rest) = Some (arrives a e, rest)"
  using parse_message_wire [of xxh "env_header e" "env_body e" a rest]
  by (simp add: envelope_wire_def arrives_def)

lemma length_acceptable: "acceptable xxh h b \<Longrightarrow> unat (hdr_size h) = length b"
  by (simp add: acceptable_def header_describes_def)

lemma parse_message_prefix:
  assumes acc: "acceptable xxh h b" and n: "n < kHeaderSize + length b"
  shows "parse_message xxh a (take n (header_to_bytes h @ b)) = None"
proof (rule ccontr)
  let ?p = "take n (header_to_bytes h @ b)"
  assume "parse_message xxh a ?p \<noteq> None"
  then obtain h' b' rest where p: "?p = header_to_bytes h' @ b' @ rest" and acc': "acceptable xxh h' b'"
    using parse_message_Some by (metis not_Some_eq surj_pair)
  have "kHeaderSize \<le> length ?p" by (subst p) simp
  then have "kHeaderSize \<le> n" by simp
  then have "header_to_bytes h = header_to_bytes h'"
    using arg_cong [OF p, of "take kHeaderSize"] by (simp add: min_def)
  then have "h = h'" by (simp add: header_to_bytes_inject)
  then have "length b' = length b" using length_acceptable acc acc' by metis
  moreover have "length ?p < kHeaderSize + length b" using n by simp
  moreover have "length ?p = kHeaderSize + length b' + length rest" by (subst p) simp
  ultimately show False by linarith
qed

text \<open>
  C13. A message survives the wire. Whatever \<^verbatim>\<open>rpc_envelope::send\<close> puts on the stream when it
  succeeds, \<^verbatim>\<open>parse_header\<close> followed by \<^verbatim>\<open>parse_payload\<close> turns into the context of that envelope,
  leaves exactly the bytes that follow on the stream, and leaves the connection's parser count and
  error as they were, provided the envelope is one a receiver accepts.
\<close>

theorem send_receive:
  assumes "acceptable_envelope xxh e" and "snd (envelope_send dbg werr e) = Inr ()"
    and "istream_active_parser c = 0"
  shows "\<exists>c1 s1 hdr c2. parse_header dbg' c (fst (envelope_send dbg werr e) @ rest) = (c1, s1, Inr (Some hdr)) \<and>
    parse_payload xxh c1 hdr s1 = (c2, rest, Inr (Some (arrives (remote_address c) e))) \<and>
    istream_active_parser c2 = 0 \<and> has_error c2 = has_error c"
proof -
  let ?s = "fst (envelope_send dbg werr e) @ rest"
  have *: "parse_message xxh (remote_address c) ?s = Some (arrives (remote_address c) e, rest)"
    using parse_message_envelope [OF assms(1)] envelope_send_ok [OF assms(2)] by simp
  obtain c1 s1 r where h: "parse_header dbg' c ?s = (c1, s1, r)" by (metis prod_cases3)
  with * obtain hdr where r: "r = Inr (Some hdr)"
    by (auto simp: parse_header_payload_message [OF assms(3), of xxh ?s dbg']
        split: sum.splits option.splits)
  obtain c2 s2 q where p: "parse_payload xxh c1 hdr s1 = (c2, s2, q)" by (metis prod_cases3)
  with * h r have "q = Inr (Some (arrives (remote_address c) e))" "s2 = rest"
    by (auto simp: parse_header_payload_message [OF assms(3), of xxh ?s dbg']
        split: sum.splits option.splits)
  moreover have "istream_active_parser c1 = 0 \<and> has_error c1 = has_error c"
    using h assms(3) by (auto simp: parse_header_def parse_header_start_def parse_header_done_def
        dlog_throw_if_def read_exactly_def Let_def)
  then have "istream_active_parser c2 = 0 \<and> has_error c2 = has_error c"
    using p by (auto simp: parse_payload_def parse_payload_done_def read_exactly_def)
  ultimately show ?thesis using h r p by auto
qed

text \<open>A request of three bytes, with a hash that the computation below can follow.\<close>

definition sample_xxh :: xxh64 where
  "sample_xxh bs seed = of_nat (length bs) + 1 + seed"

definition sample_envelope :: "u16 \<Rightarrow> u32 \<Rightarrow> bytes \<Rightarrow> rpc_envelope" where
  "sample_envelope sess idx buf =
     \<lparr>letter = \<lparr>header = checksum_rpc sample_xxh (header_zero\<lparr>hdr_session := sess, hdr_meta := idx\<rparr>)
        buf (of_nat (length buf)), dynamic_headers = Map.empty, body = buf\<rparr>\<rparr>"

lemmas sample_defs = sample_xxh_def sample_envelope_def env_header_def env_body_def
  checksum_rpc_def rpc_checksum_payload_def header_zero_def

lemma sample_acceptable: "acceptable_envelope sample_xxh (sample_envelope 7 42 [1, 2, 3])"
  by (simp add: sample_defs acceptable_def header_describes_def)

theorem send_receive_witness:
  "\<exists>c1 s1 hdr c2.
     parse_header True (rpc_connection_new ''peer'')
       (fst (envelope_send True (\<lambda>_. None) (sample_envelope 7 42 [1, 2, 3])) @ [9]) =
       (c1, s1, Inr (Some hdr)) \<and>
     parse_payload sample_xxh c1 hdr s1 =
       (c2, [9], Inr (Some (arrives (remote_address (rpc_connection_new ''peer''))
         (sample_envelope 7 42 [1, 2, 3])))) \<and>
     istream_active_parser c2 = 0 \<and> has_error c2 = has_error (rpc_connection_new ''peer'')"
  by (rule send_receive [OF sample_acceptable])
    (simp_all add: envelope_send_def sample_defs rpc_connection_new_def)

text \<open>
  C14. The receiver accepts exactly the well-formed messages: on a connection no other parser is
  using, \<^verbatim>\<open>parse_header\<close> and \<^verbatim>\<open>parse_payload\<close> produce the context \<open>x\<close> and leave \<open>rest\<close> if and only if
  the stream is a 16-byte header, a body of the size and checksum that header states, non-empty and
  of at most \<open>2^31 - 1\<close> bytes, with a known compression, a checksum and a meta field other than zero
  and no payload headers, followed by \<open>rest\<close>.
\<close>

theorem receive_exact:
  assumes "istream_active_parser c = 0"
  shows "(\<exists>c1 s1 hdr c2. parse_header dbg c s = (c1, s1, Inr (Some hdr)) \<and>
      parse_payload xxh c1 hdr s1 = (c2, rest, Inr (Some x))) \<longleftrightarrow>
    (\<exists>h b. s = header_to_bytes h @ b @ rest \<and> acceptable xxh h b \<and>
      x = received_ctx (remote_address c) h b)"
proof -
  have "(\<exists>c1 s1 hdr c2. parse_header dbg c s = (c1, s1, Inr (Some hdr)) \<and>
      parse_payload xxh c1 hdr s1 = (c2, rest, Inr (Some x))) \<longleftrightarrow>
    parse_message xxh (remote_address c) s = Some (x, rest)"
    unfolding parse_header_payload_message [OF assms, of xxh s dbg]
    by (auto split: prod.splits sum.splits option.splits)
  then show ?thesis by (simp add: parse_message_Some)
qed

theorem receive_exact_witness:
  "\<exists>c1 s1 hdr c2.
     parse_header True (rpc_connection_new ''peer'')
       (header_to_bytes (env_header (sample_envelope 7 42 [1, 2, 3])) @ [1, 2, 3] @ [8]) =
       (c1, s1, Inr (Some hdr)) \<and>
     parse_payload sample_xxh c1 hdr s1 =
       (c2, [8], Inr (Some (received_ctx ''peer'' (env_header (sample_envelope 7 42 [1, 2, 3])) [1, 2, 3])))"
  by (rule receive_exact [THEN iffD2])
    (use sample_acceptable in \<open>auto simp: rpc_connection_new_def sample_envelope_def env_body_def\<close>)

text \<open>
  C15. A pipelined stream is delivered message by message, in order and without loss, and a message
  that the stream cuts short is not delivered: after any number of whole messages and a strict prefix
  of one more, parsing returns the contexts of the whole messages and leaves the prefix.
\<close>

theorem stream_in_order:
  assumes "\<forall>e \<in> set es. acceptable_envelope xxh e" and "acceptable_envelope xxh d"
    and "n < envelope_size d"
  shows "parse_messages xxh a (concat (map envelope_wire es) @ take n (envelope_wire d)) =
    (map (arrives a) es, take n (envelope_wire d))"
  using assms(1)
proof (induction es)
  case Nil
  have "parse_message xxh a (take n (envelope_wire d)) = None"
    using parse_message_prefix [OF assms(2), of n a] assms(3)
    by (simp add: envelope_wire_def envelope_size_env)
  then show ?case by (simp add: parse_messages.simps)
next
  case (Cons e es)
  then show ?case
    by (simp add: parse_messages.simps [of _ _ "envelope_wire e @ _"] parse_message_envelope)
qed

theorem stream_in_order_witness:
  "parse_messages sample_xxh ''peer''
     (concat (map envelope_wire [sample_envelope 7 42 [1, 2, 3], sample_envelope 7 42 [1, 2, 3]]) @
      take 17 (envelope_wire (sample_envelope 7 42 [1, 2, 3]))) =
    (map (arrives ''peer'') [sample_envelope 7 42 [1, 2, 3], sample_envelope 7 42 [1, 2, 3]],
     take 17 (envelope_wire (sample_envelope 7 42 [1, 2, 3])))"
  by (rule stream_in_order)
    (use sample_acceptable in \<open>simp_all add: envelope_size_env kHeaderSize_def env_body_def
      sample_envelope_def\<close>)

end
