(* ===== verification/Rpc_Router.thy ===== *)
theory Rpc_Router
  imports Rpc_Recv
begin

text \<open>
  Services and the router (\<^verbatim>\<open>rpc_service.h\<close>, \<^verbatim>\<open>rpc_handle_router.cc\<close>). A method handle is the
  function \<^verbatim>\<open>apply\<close> of \<^verbatim>\<open>rpc_service_method_handle\<close>; a null handle is \<open>None\<close>.
\<close>

type_synonym method_handle = "rpc_recv_context \<Rightarrow> rpc_envelope fut"

record rpc_service =
  service_name :: string
  service_id :: u32
  method_for_request_id :: "u32 \<Rightarrow> method_handle option"

record rpc_handle_router =
  services :: "rpc_service list"

definition rpc_handle_router_new :: rpc_handle_router where
  "rpc_handle_router_new = \<lparr>services = []\<rparr>"

fun find_handle :: "rpc_service list \<Rightarrow> u32 \<Rightarrow> method_handle option" where
  "find_handle [] idx = None"
| "find_handle (p # ps) idx =
     (case method_for_request_id p idx of
        Some x \<Rightarrow> Some x
      | None \<Rightarrow> find_handle ps idx)"

definition get_handle_for_request :: "rpc_handle_router \<Rightarrow> u32 \<Rightarrow> method_handle option" where
  "get_handle_for_request r idx = find_handle (services r) idx"

definition register_service :: "rpc_service \<Rightarrow> rpc_handle_router \<Rightarrow> rpc_handle_router" where
  "register_service s r = r\<lparr>services := services r @ [s]\<rparr>"

lemma find_handle_append:
  "find_handle (ps @ qs) i = (case find_handle ps i of Some x \<Rightarrow> Some x | None \<Rightarrow> find_handle qs i)"
  by (induction ps) (auto split: option.splits)

lemma find_handle_None: "find_handle ps i = None \<longleftrightarrow> (\<forall>p \<in> set ps. method_for_request_id p i = None)"
  by (induction ps) (auto split: option.splits)

lemma find_handle_Some:
  "find_handle ps i = Some h \<Longrightarrow> \<exists>p \<in> set ps. method_for_request_id p i = Some h"
  by (induction ps) (auto split: option.splits)

lemma get_handle_register:
  "get_handle_for_request (register_service s r) i =
     (case get_handle_for_request r i of
        Some x \<Rightarrow> Some x | None \<Rightarrow> method_for_request_id s i)"
  by (auto simp: get_handle_for_request_def register_service_def find_handle_append
      split: option.splits)

end
