(* ===== verification/Generated_Code.thy ===== *)
theory Generated_Code
  imports Rpc_Router
begin

text \<open>
  What the C++ that \<^verbatim>\<open>smfc\<close> emits for a service does, template by template
  (\<^verbatim>\<open>src/src/smfc/cpp_generator.cc\<close>): the method handles with their session accounting, the
  \<^verbatim>\<open>switch\<close> of \<^verbatim>\<open>method_for_request_id\<close>, the raw and the overridable methods, and the client
  stubs. The flatbuffers accessors (\<open>root\<close>, \<open>pack\<close>) are parameters.
\<close>

record generated_method =
  gm_name :: string
  gm_id :: u32
  gm_raw :: method_handle

record generated_service =
  gs_name :: string
  gs_id :: u32
  gs_methods :: "generated_method list"

text \<open>\<^verbatim>\<open>print_header_service_ctor_dtor\<close>: the handle restores the request's session on the reply.\<close>

definition generated_handle :: "generated_method \<Rightarrow> method_handle" where
  "generated_handle m c =
     (let session_id = recv_session c in
      fut_then (gm_raw m c) (\<lambda>e. Inr (mutate_session session_id e)))"

text \<open>\<^verbatim>\<open>print_header_service_handle_request_id\<close>: one case per method, in order.\<close>

fun generated_switch :: "u32 \<Rightarrow> generated_method list \<Rightarrow> u32 \<Rightarrow> method_handle option" where
  "generated_switch sid [] idx = None"
| "generated_switch sid (m # ms) idx =
     (if idx = sid XOR gm_id m then Some (generated_handle m) else generated_switch sid ms idx)"

definition service_of :: "generated_service \<Rightarrow> rpc_service" where
  "service_of g =
     \<lparr>service_name = gs_name g, service_id = gs_id g,
      method_for_request_id = generated_switch (gs_id g) (gs_methods g)\<rparr>"

text \<open>\<^verbatim>\<open>print_header_service_method\<close>: the method users override, and the raw method around it.\<close>

definition generated_default_method ::
  "'out \<Rightarrow> 'inp rpc_recv_typed_context \<Rightarrow> 'out rpc_typed_envelope fut" where
  "generated_default_method out rec =
     (let d = rpc_typed_envelope_new out in Inr (d\<lparr>envelope := set_status 501 (envelope d)\<rparr>))"

definition generated_raw ::
  "xxh64 \<Rightarrow> (bytes \<Rightarrow> 'inp) \<Rightarrow> ('out \<Rightarrow> bytes) \<Rightarrow>
   ('inp rpc_recv_typed_context \<Rightarrow> 'out rpc_typed_envelope fut) \<Rightarrow> method_handle" where
  "generated_raw xxh root pack method c =
     fut_then (method (rpc_recv_typed_context_new root (Some c))) (\<lambda>x. serialize_data xxh pack x)"

text \<open>
  \<^verbatim>\<open>print_header_client_method\<close>: the stub puts the same XOR in the request. (The typed overload
  serializes first.)
\<close>

definition generated_client_call :: "u32 \<Rightarrow> u32 \<Rightarrow> rpc_envelope \<Rightarrow> rpc_envelope" where
  "generated_client_call sid mid e = set_request_id (sid XOR mid) e"

definition generated_client_typed_call ::
  "xxh64 \<Rightarrow> ('inp \<Rightarrow> bytes) \<Rightarrow> u32 \<Rightarrow> u32 \<Rightarrow> 'inp rpc_typed_envelope \<Rightarrow> rpc_envelope fut" where
  "generated_client_typed_call xxh pack sid mid x =
     fut_then (serialize_data xxh pack x) (\<lambda>e. Inr (generated_client_call sid mid e))"

section \<open>Lemmas\<close>

lemma xor_u32_cancel: "(s XOR a = s XOR b) \<longleftrightarrow> (a = (b :: u32))"
  by (metis bit.xor_left_self)

lemma generated_switch_None:
  "generated_switch sid ms idx = None \<longleftrightarrow> (\<forall>m \<in> set ms. idx \<noteq> sid XOR gm_id m)"
  by (induction ms) auto

lemma generated_switch_hit:
  assumes "m \<in> set ms" and "distinct (map gm_id ms)"
  shows "generated_switch sid ms (sid XOR gm_id m) = Some (generated_handle m)"
  using assms by (induction ms) (auto simp: xor_u32_cancel image_iff)

text \<open>
  The contract the server's client relies on: a reply carries the session of its request, whichever
  registered service handles it.
\<close>

locale session_echo =
  fixes lookup :: "'r \<Rightarrow> u32 \<Rightarrow> method_handle option"
  assumes handle_echoes:
    "lookup r i = Some h \<Longrightarrow> h c = Inr e \<Longrightarrow> hdr_session (env_header e) = recv_session c"
begin

lemma reply_session_unique:
  "lookup r i = Some h \<Longrightarrow> h c = Inr e \<Longrightarrow> lookup r j = Some k \<Longrightarrow> k d = Inr f \<Longrightarrow>
     recv_session c \<noteq> recv_session d \<Longrightarrow>
     hdr_session (env_header e) \<noteq> hdr_session (env_header f)"
  by (simp add: handle_echoes)

end

lemma generated_switch_echo:
  "generated_switch sid ms i = Some h \<Longrightarrow> h c = Inr e \<Longrightarrow>
     hdr_session (env_header e) = recv_session c"
  by (induction ms) (auto simp: generated_handle_def fut_then_eq_Inr split: if_splits)

definition generated_routes :: "generated_service list \<Rightarrow> rpc_handle_router" where
  "generated_routes gs = fold register_service (map service_of gs) rpc_handle_router_new"

lemma services_fold_register: "services (fold register_service ss r) = services r @ ss"
  by (induction ss arbitrary: r) (simp_all add: register_service_def)

lemma services_generated_routes: "services (generated_routes gs) = map service_of gs"
  by (simp add: generated_routes_def services_fold_register rpc_handle_router_new_def)

interpretation generated: session_echo "\<lambda>gs. get_handle_for_request (generated_routes gs)"
proof
  fix gs i h c e
  assume "get_handle_for_request (generated_routes gs) i = Some h" and h: "h c = Inr e"
  then obtain g where "method_for_request_id (service_of g) i = Some h"
    by (force simp: get_handle_for_request_def services_generated_routes dest!: find_handle_Some)
  with h show "hdr_session (env_header e) = recv_session c"
    by (auto simp: service_of_def dest: generated_switch_echo)
qed

section \<open>Properties\<close>

text \<open>The request ids of all the methods a server has registered.\<close>

definition request_ids :: "generated_service list \<Rightarrow> u32 list" where
  "request_ids gs = concat (map (\<lambda>g. map (\<lambda>m. gs_id g XOR gm_id m) (gs_methods g)) gs)"

lemma find_generated:
  assumes "g \<in> set gs" "m \<in> set (gs_methods g)" "distinct (request_ids gs)"
  shows "find_handle (map service_of gs) (gs_id g XOR gm_id m) = Some (generated_handle m)"
  using assms
proof (induction gs)
  case (Cons k gs)
  let ?i = "gs_id g XOR gm_id m"
  have d: "distinct (map (\<lambda>m. gs_id k XOR gm_id m) (gs_methods k))" "distinct (request_ids gs)"
    "set (map (\<lambda>m. gs_id k XOR gm_id m) (gs_methods k)) \<inter> set (request_ids gs) = {}"
    using Cons.prems(3) by (simp_all add: request_ids_def)
  show ?case
  proof (cases "g = k")
    case True
    have "distinct (map gm_id (gs_methods k))"
      using d(1) distinct_map [of gm_id] by (auto simp: distinct_map inj_on_def xor_u32_cancel)
    then have "generated_switch (gs_id k) (gs_methods k) ?i = Some (generated_handle m)"
      using True Cons.prems(2) generated_switch_hit by metis
    then show ?thesis by (simp add: service_of_def)
  next
    case False
    then have g: "g \<in> set gs" using Cons.prems(1) by simp
    then have "?i \<in> set (request_ids gs)" using Cons.prems(2) by (auto simp: request_ids_def)
    then have "generated_switch (gs_id k) (gs_methods k) ?i = None"
      using d(3) by (auto simp: generated_switch_None)
    with Cons.IH [OF g Cons.prems(2) d(2)] show ?thesis by (simp add: service_of_def)
  qed
qed simp

lemma find_generated_None:
  "find_handle (map service_of gs) i = None \<longleftrightarrow> i \<notin> set (request_ids gs)"
  by (auto simp: find_handle_None service_of_def generated_switch_None request_ids_def)

text \<open>
  C18. A generated client stub reaches the method it names. When no two methods of the registered
  services share a request id, the router finds, for the id that the stub of method \<open>m\<close> of service \<open>g\<close>
  puts in its request, the handle of exactly that method, in whichever order the services were
  registered; and it finds no handle for an id that is none of theirs.
\<close>

theorem stub_reaches_method:
  assumes "distinct (request_ids gs)" and "g \<in> set gs" and "m \<in> set (gs_methods g)"
    and "i \<notin> set (request_ids gs)"
  shows "get_handle_for_request (generated_routes gs)
      (hdr_meta (env_header (generated_client_call (gs_id g) (gm_id m) e))) =
      Some (generated_handle m) \<and>
    get_handle_for_request (generated_routes gs) i = None"
  using assms
  by (simp add: get_handle_for_request_def services_generated_routes generated_client_call_def
      find_generated find_generated_None)

definition sample_service :: "u32 \<Rightarrow> u32 list \<Rightarrow> generated_service" where
  "sample_service sid ids =
     \<lparr>gs_name = ''S'', gs_id = sid,
      gs_methods = map (\<lambda>i. \<lparr>gm_name = ''M'', gm_id = i,
        gm_raw = (\<lambda>c. Inr (sample_envelope 0 200 (ctx_payload c)))\<rparr>) ids\<rparr>"

theorem stub_reaches_method_witness:
  "get_handle_for_request (generated_routes [sample_service 1 [2, 4], sample_service 8 [2]])
      (hdr_meta (env_header (generated_client_call (gs_id (sample_service 8 [2]))
        (gm_id (hd (gs_methods (sample_service 8 [2])))) (sample_envelope 7 0 [1])))) =
      Some (generated_handle (hd (gs_methods (sample_service 8 [2])))) \<and>
    get_handle_for_request (generated_routes [sample_service 1 [2, 4], sample_service 8 [2]]) 9 = None"
  by (rule stub_reaches_method) (simp_all add: request_ids_def sample_service_def)

text \<open>
  C19. Every reply carries the session of its request: whatever handle the router returns for a
  request, and whatever the service's code did to the reply's header, the envelope the handle yields
  has the request's session. Two requests with different sessions cannot get replies with the same.
\<close>

theorem reply_echoes_session:
  assumes "get_handle_for_request (generated_routes gs) i = Some h" and "h c = Inr e"
  shows "hdr_session (env_header e) = recv_session c"
  using assms by (rule generated.handle_echoes)

theorem reply_echoes_session_witness:
  "hdr_session (env_header (mutate_session 77 (sample_envelope 0 200 [5]))) =
     recv_session (arrives ''peer'' (sample_envelope 77 3 [5]))"
  by (rule reply_echoes_session [of "[sample_service 1 [2]]" 3
        "generated_handle (hd (gs_methods (sample_service 1 [2])))"])
    (simp_all add: get_handle_for_request_def services_generated_routes service_of_def
      sample_service_def generated_handle_def arrives_def received_ctx_def recv_session_def,
      simp_all add: sample_defs)

text \<open>
  A method the user did not override answers 501: the generated raw method around the default
  one never throws, and its reply has status 501, the packed empty table as body, and size and
  checksum of that body.
\<close>

theorem unimplemented_is_501:
  assumes "length (pack out) < 2 ^ 32"
  shows "\<exists>e. generated_raw xxh root pack (generated_default_method out) c = Inr e \<and>
    hdr_meta (env_header e) = 501 \<and> env_body e = pack out \<and> envelope_wf xxh e"
  using assms checksum_rpc_describes [of "pack out" xxh]
  by (simp add: generated_raw_def generated_default_method_def serialize_data_def Let_def
      rpc_typed_envelope_new_def envelope_wf_def env_header_def env_body_def rpc_envelope_new_def
      rpc_letter_new_def set_status_def env_with_def)

theorem unimplemented_is_501_witness:
  "\<exists>e. generated_raw sample_xxh id (\<lambda>n. replicate n 0) (generated_default_method 2)
      (arrives ''peer'' (sample_envelope 7 3 [5])) = Inr e \<and>
    hdr_meta (env_header e) = 501 \<and> env_body e = replicate 2 0 \<and> envelope_wf sample_xxh e"
  by (rule unimplemented_is_501) simp

end
