(* ===== verification/Rpc_Filter.thy ===== *)
theory Rpc_Filter
  imports Smf_Prelude
begin

text \<open>
  Filter chains (\<^verbatim>\<open>rpc_filter.h\<close>). A filter is a functor \<^verbatim>\<open>future<T> operator()(T)\<close>; the chain
  is the recursion over a pair of iterators, each filter run on the result of the one before.
\<close>

type_synonym 'a rpc_filter = "'a \<Rightarrow> 'a fut"

fun rpc_filter_apply :: "'a rpc_filter list \<Rightarrow> 'a \<Rightarrow> 'a fut" where
  "rpc_filter_apply [] arg = Inr arg"
| "rpc_filter_apply (f # fs) arg = fut_then (f arg) (\<lambda>a. rpc_filter_apply fs a)"

lemma rpc_filter_apply_append:
  "rpc_filter_apply (fs @ gs) x = fut_then (rpc_filter_apply fs x) (rpc_filter_apply gs)"
  by (induction fs arbitrary: x) (auto simp: fut_then_def split: sum.splits)

lemma rpc_filter_apply_throws:
  "rpc_filter_apply fs x = Inr y \<Longrightarrow> f y = Inl e \<Longrightarrow> rpc_filter_apply (fs @ f # gs) x = Inl e"
  by (simp add: rpc_filter_apply_append)

lemma rpc_filter_apply_invariant:
  assumes "rpc_filter_apply fs x = Inr y" and "P x"
    and "\<And>f a b. f \<in> set fs \<Longrightarrow> P a \<Longrightarrow> f a = Inr b \<Longrightarrow> P b"
  shows "P y"
  using assms
proof (induction fs arbitrary: x)
  case Nil
  then show ?case by simp
next
  case (Cons f fs)
  then obtain a where "f x = Inr a" "rpc_filter_apply fs a = Inr y"
    by (auto simp: fut_then_eq_Inr)
  with Cons show ?case by (meson list.set_intros)
qed

end
