(* ===== verification/Transition.thy ===== *)
theory Transition
  imports Main
begin

text \<open>
  Executions of a state machine given as a partial step function: \<open>step e s = None\<close> when the event
  \<open>e\<close> is not enabled in \<open>s\<close>. The server and the client are such machines: an event says which
  fiber continues and what its environment (socket, timer, scheduler) answers.
\<close>

inductive reachable :: "('s \<Rightarrow> bool) \<Rightarrow> ('e \<Rightarrow> 's \<Rightarrow> 's option) \<Rightarrow> 's \<Rightarrow> bool"
  for init step where
  start: "init s \<Longrightarrow> reachable init step s"
| next_state: "reachable init step s \<Longrightarrow> step e s = Some t \<Longrightarrow> reachable init step t"

fun run :: "('e \<Rightarrow> 's \<Rightarrow> 's option) \<Rightarrow> 'e list \<Rightarrow> 's \<Rightarrow> 's option" where
  "run step [] s = Some s"
| "run step (e # es) s = (case step e s of None \<Rightarrow> None | Some t \<Rightarrow> run step es t)"

text \<open>The machine restricted to some of its events.\<close>

definition only_events :: "('e \<Rightarrow> bool) \<Rightarrow> ('e \<Rightarrow> 's \<Rightarrow> 's option) \<Rightarrow> 'e \<Rightarrow> 's \<Rightarrow> 's option" where
  "only_events P step e s = (if P e then step e s else None)"

lemma run_append:
  "run step (es @ fs) s = (case run step es s of None \<Rightarrow> None | Some t \<Rightarrow> run step fs t)"
  by (induction es arbitrary: s) (auto split: option.splits)

lemma run_reachable: "reachable init step s \<Longrightarrow> run step es s = Some t \<Longrightarrow> reachable init step t"
  by (induction es arbitrary: s) (auto split: option.splits intro: next_state)

lemma reachable_run: "reachable init step t \<Longrightarrow> \<exists>s es. init s \<and> run step es s = Some t"
proof (induction rule: reachable.induct)
  case (start s)
  then show ?case by (metis run.simps(1))
next
  case (next_state s e t)
  then obtain s0 es where "init s0" "run step es s0 = Some s" by blast
  with next_state have "run step (es @ [e]) s0 = Some t" by (simp add: run_append)
  with \<open>init s0\<close> show ?case by blast
qed

text \<open>
  An invariant of a family of machines (indexed by a configuration): it holds initially and every
  step keeps it.
\<close>

locale machine_invariant =
  fixes init :: "'c \<Rightarrow> 's \<Rightarrow> bool"
    and step :: "'c \<Rightarrow> 'e \<Rightarrow> 's \<Rightarrow> 's option"
    and inv :: "'c \<Rightarrow> 's \<Rightarrow> bool"
  assumes inv_init: "init c s \<Longrightarrow> inv c s"
    and inv_step: "inv c s \<Longrightarrow> step c e s = Some t \<Longrightarrow> inv c t"
begin

lemma inv_reachable: "reachable (init c) (step c) s \<Longrightarrow> inv c s"
  by (induction rule: reachable.induct) (auto intro: inv_init inv_step)

lemma inv_run: "inv c s \<Longrightarrow> run (step c) es s = Some t \<Longrightarrow> inv c t"
  by (induction es arbitrary: s) (auto split: option.splits intro: inv_step)

end

end
