(* ===== verification/Rpc_Server.thy ===== *)
theory Rpc_Server
  imports Generated_Code Rpc_Filter Transition
begin

text \<open>
  The server (\<^verbatim>\<open>rpc_server.cc\<close>, \<^verbatim>\<open>rpc_server_connection.h\<close>, \<^verbatim>\<open>rpc_server_stats.h\<close>) as a
  state machine. Each connection has a fiber that runs \<^verbatim>\<open>handle_client_connection\<close>; each request
  it dispatches runs on a fiber of its own. A fiber's position is the future it waits for; an event
  says which fiber continues and what it got (bytes of a read, a timeout, a failed write). What a
  continuation does up to its next wait is one definition, with the lines of the source it stands
  for. Connection objects live in a heap (\<open>conns\<close>), because fibers keep them alive after they left
  \<^verbatim>\<open>open_connections_\<close>, and their destructor changes the statistics.
\<close>

section \<open>State\<close>

record rpc_server_stats =
  active_connections :: u64
  total_connections :: u64
  in_bytes :: u64
  out_bytes :: u64
  bad_requests :: u64
  no_route_requests :: u64
  completed_requests :: u64
  too_large_requests :: u64

definition rpc_server_stats_new :: rpc_server_stats where
  "rpc_server_stats_new =
     \<lparr>active_connections = 0, total_connections = 0, in_bytes = 0, out_bytes = 0,
      bad_requests = 0, no_route_requests = 0, completed_requests = 0, too_large_requests = 0\<rparr>"

text \<open>
  A connection of the server: \<open>sent\<close> is what was written to its output stream, \<open>write_failed\<close> that
  a write came back with an exception, \<open>writing\<close> that the semaphore \<^verbatim>\<open>serialize_writes\<close> (one
  unit) is taken.
\<close>

record rpc_server_connection =
  conn :: rpc_connection
  writing :: bool
  sent :: bytes
  write_failed :: bool

definition rpc_server_connection_new :: "string \<Rightarrow> rpc_server_connection" where
  "rpc_server_connection_new address =
     \<lparr>conn = rpc_connection_new address, writing = False, sent = [], write_failed = False\<rparr>"

text \<open>Where the fiber of a connection waits.\<close>

datatype loop_pc =
    L_Check
  | L_Header
  | L_WaitMem header
  | L_Payload header

text \<open>Where the fiber of a dispatched request waits.\<close>

datatype task_pc =
    T_InFilters rpc_recv_context method_handle
  | T_Handler rpc_recv_context method_handle
  | T_OutFilters rpc_envelope
  | T_WaitWrite rpc_envelope
  | T_Body rpc_envelope
  | T_SendFlush rpc_envelope
  | T_Flush

record loop =
  l_conn :: u64
  l_pc :: loop_pc

record task =
  t_conn :: u64
  t_payload_size :: int
  t_pc :: task_pc

record server_cfg =
  debug_build :: bool
  checksum_fn :: xxh64
  routes :: rpc_handle_router
  in_filters :: "rpc_recv_context rpc_filter list"
  out_filters :: "rpc_envelope rpc_filter list"

record server =
  limits :: rpc_connection_limits
  stats :: rpc_server_stats
  connection_idx :: u64
  conns :: "u64 \<rightharpoonup> rpc_server_connection"
  open_connections :: "u64 set"
  loops :: "loop list"
  tasks :: "task list"
  gate_count :: nat
  gate_closed :: bool
  accept_aborted :: bool
  accepting :: bool
  latency_samples :: nat

definition rpc_server_new :: "u64 \<Rightarrow> int \<Rightarrow> server" where
  "rpc_server_new memory_avail_per_core recv_timeout =
     \<lparr>limits = rpc_connection_limits_new memory_avail_per_core recv_timeout,
      stats = rpc_server_stats_new, connection_idx = 0, conns = Map.empty, open_connections = {},
      loops = [], tasks = [], gate_count = 0, gate_closed = False,
      accept_aborted = False, accepting = True, latency_samples = 0\<rparr>"

definition register_incoming_filter :: "rpc_recv_context rpc_filter \<Rightarrow> server_cfg \<Rightarrow> server_cfg" where
  "register_incoming_filter f c = c\<lparr>in_filters := in_filters c @ [f]\<rparr>"

definition register_outgoing_filter :: "rpc_envelope rpc_filter \<Rightarrow> server_cfg \<Rightarrow> server_cfg" where
  "register_outgoing_filter f c = c\<lparr>out_filters := out_filters c @ [f]\<rparr>"

section \<open>State updates\<close>

definition upd_stats :: "(rpc_server_stats \<Rightarrow> rpc_server_stats) \<Rightarrow> server \<Rightarrow> server" where
  "upd_stats f s = s\<lparr>stats := f (stats s)\<rparr>"

definition upd_conn ::
  "u64 \<Rightarrow> (rpc_server_connection \<Rightarrow> rpc_server_connection) \<Rightarrow> server \<Rightarrow> server" where
  "upd_conn i f s = s\<lparr>conns := (conns s)(i := map_option f (conns s i))\<rparr>"

definition conn_set_error :: "u64 \<Rightarrow> string \<Rightarrow> server \<Rightarrow> server" where
  "conn_set_error i e = upd_conn i (\<lambda>c. c\<lparr>conn := set_error e (conn c)\<rparr>)"

definition conn_of :: "server \<Rightarrow> u64 \<Rightarrow> rpc_connection option" where
  "conn_of s i = map_option conn (conns s i)"

definition conn_valid :: "server \<Rightarrow> u64 \<Rightarrow> bool" where
  "conn_valid s i = (case conn_of s i of None \<Rightarrow> False | Some c \<Rightarrow> is_valid c)"

definition signal :: "int \<Rightarrow> server \<Rightarrow> server" where
  "signal n s = s\<lparr>limits := (limits s)\<lparr>resources_available := resources_available (limits s) + n\<rparr>\<rparr>"

definition set_loop :: "nat \<Rightarrow> loop_pc \<Rightarrow> server \<Rightarrow> server" where
  "set_loop k pc s = s\<lparr>loops := (loops s)[k := (loops s ! k)\<lparr>l_pc := pc\<rparr>]\<rparr>"

definition remove_loop :: "nat \<Rightarrow> server \<Rightarrow> server" where
  "remove_loop k s = s\<lparr>loops := remove_nth k (loops s)\<rparr>"

definition set_task :: "nat \<Rightarrow> task_pc \<Rightarrow> server \<Rightarrow> server" where
  "set_task k pc s = s\<lparr>tasks := (tasks s)[k := (tasks s ! k)\<lparr>t_pc := pc\<rparr>]\<rparr>"

definition remove_task :: "nat \<Rightarrow> server \<Rightarrow> server" where
  "remove_task k s = s\<lparr>tasks := remove_nth k (tasks s)\<rparr>"

section \<open>Operations\<close>

text \<open>\<^verbatim>\<open>rpc_server::start\<close>: one turn of the accept loop, and the connection's constructor.\<close>

definition accept_connection :: "string \<Rightarrow> server \<Rightarrow> server" where
  "accept_connection address s =
     (let idx = connection_idx s + 1 in
      upd_stats (\<lambda>st. st\<lparr>active_connections := active_connections st + 1,
                         total_connections := total_connections st + 1\<rparr>)
       (s\<lparr>connection_idx := idx,
          conns := (conns s)(idx \<mapsto> rpc_server_connection_new address),
          open_connections := insert idx (open_connections s),
          loops := loops s @ [\<lparr>l_conn = idx, l_pc = L_Check\<rparr>]\<rparr>))"

text \<open>The destructor of a connection, when the last reference to it is gone.\<close>

definition destroy_connection :: "u64 \<Rightarrow> server \<Rightarrow> server" where
  "destroy_connection i s =
     upd_stats (\<lambda>st. st\<lparr>active_connections := active_connections st - 1\<rparr>)
       (s\<lparr>conns := (conns s)(i := None)\<rparr>)"

definition cleanup_dispatch_rpc :: "u64 \<Rightarrow> server \<Rightarrow> server" where
  "cleanup_dispatch_rpc i s =
     (case conn_of s i of
        None \<Rightarrow> s
      | Some c \<Rightarrow>
         if has_error c then
           (if i \<in> open_connections s then
              upd_conn i (\<lambda>x. x\<lparr>conn := shutdown_output (shutdown_input (disable (conn x)))\<rparr>)
               (upd_stats (\<lambda>st. st\<lparr>bad_requests := bad_requests st + 1,
                                  active_connections := active_connections st - 1\<rparr>)
                 (s\<lparr>open_connections := open_connections s - {i}\<rparr>))
            else s)
         else upd_stats (\<lambda>st. st\<lparr>completed_requests := completed_requests st + 1\<rparr>) s)"

text \<open>
  The end of a dispatched request: \<^verbatim>\<open>.then(cleanup)\<close> when it succeeded, then the \<^verbatim>\<open>.finally\<close>
  that measures and gives the memory back, then the gate is left.
\<close>

definition finish_dispatch :: "bool \<Rightarrow> u64 \<Rightarrow> int \<Rightarrow> server \<Rightarrow> server" where
  "finish_dispatch ok i payload_size s =
     (let s1 = (if ok then cleanup_dispatch_rpc i s else s);
          s2 = signal payload_size s1
      in s2\<lparr>latency_samples := latency_samples s2 + 1, gate_count := gate_count s2 - 1\<rparr>)"

text \<open>
  \<^verbatim>\<open>do_dispatch_rpc\<close> up to the incoming filters: the two refusals complete at once, otherwise a
  fiber waits for the filter stage. \<^verbatim>\<open>ctx.header.size()\<close> is the size field of the header.
\<close>

definition do_dispatch_rpc ::
  "server_cfg \<Rightarrow> u64 \<Rightarrow> int \<Rightarrow> rpc_recv_context \<Rightarrow> server \<Rightarrow> server" where
  "do_dispatch_rpc cfg i payload_size ctx s =
     (if request_id ctx = 0 then
        finish_dispatch True i payload_size
          (conn_set_error i ''Missing request_id. Invalid request'' s)
      else case get_handle_for_request (routes cfg) (request_id ctx) of
        None \<Rightarrow>
          finish_dispatch True i payload_size
            (conn_set_error i ''Can't find route for request. Invalid''
              (upd_stats (\<lambda>st. st\<lparr>no_route_requests := no_route_requests st + 1\<rparr>) s))
      | Some method_dispatch \<Rightarrow>
          (let s1 = upd_stats (\<lambda>st. st\<lparr>in_bytes := in_bytes st +
                 (ucast (hdr_size (ctx_header ctx)) + of_nat (length (ctx_payload ctx)))\<rparr>) s
           in s1\<lparr>tasks := tasks s1 @
                [\<lparr>t_conn = i, t_payload_size = payload_size,
                  t_pc = T_InFilters ctx method_dispatch\<rparr>]\<rparr>))"

text \<open>
  \<^verbatim>\<open>dispatch_rpc\<close>. Its parameter \<^verbatim>\<open>payload_size\<close> is an \<^verbatim>\<open>int32_t\<close>; entering a closed gate throws.
\<close>

definition dispatch_rpc ::
  "server_cfg \<Rightarrow> int \<Rightarrow> u64 \<Rightarrow> rpc_recv_context option \<Rightarrow> server \<Rightarrow> server \<times> unit fut" where
  "dispatch_rpc cfg payload_size i ctx s =
     (case ctx of
        None \<Rightarrow> (conn_set_error i ''Could not parse payload'' (signal payload_size s), Inr ())
      | Some c \<Rightarrow>
         if gate_closed s then (s, Inl Gate_closed)
         else (do_dispatch_rpc cfg i payload_size c (s\<lparr>gate_count := gate_count s + 1\<rparr>), Inr ()))"

text \<open>
  \<^verbatim>\<open>handle_client_connection\<close>: the loop ends when the connection is not valid any more
  (\<open>loop_end\<close>) or when a session throws (\<open>loop_throw\<close>); \<^verbatim>\<open>.finally\<close> runs in both cases, before
  \<^verbatim>\<open>.handle_exception\<close>.
\<close>

definition loop_end :: "nat \<Rightarrow> u64 \<Rightarrow> server \<Rightarrow> server" where
  "loop_end k i s = remove_loop k (cleanup_dispatch_rpc i s)"

definition loop_throw :: "nat \<Rightarrow> u64 \<Rightarrow> server \<Rightarrow> server" where
  "loop_throw k i s =
     remove_loop k (cleanup_dispatch_rpc i
       (conn_set_error i ''handling client session exception'' (cleanup_dispatch_rpc i s)))"

text \<open>The condition of \<^verbatim>\<open>do_until\<close>, and the start of \<^verbatim>\<open>handle_one_client_session\<close>.\<close>

definition loop_check :: "server_cfg \<Rightarrow> nat \<Rightarrow> u64 \<Rightarrow> server \<Rightarrow> server" where
  "loop_check cfg k i s =
     (case conns s i of
        None \<Rightarrow> s
      | Some c \<Rightarrow>
         if \<not> is_valid (conn c) then loop_end k i s
         else case parse_header_start (debug_build cfg) (conn c) of
           Inl e \<Rightarrow> loop_throw k i s
         | Inr c' \<Rightarrow> set_loop k L_Header (upd_conn i (\<lambda>x. x\<lparr>conn := c'\<rparr>) s))"

text \<open>
  \<^verbatim>\<open>handle_one_client_session\<close>: after the header was read, when the memory was granted, after the
  payload was read, and when reading the payload timed out.
\<close>

definition session_header :: "nat \<Rightarrow> u64 \<Rightarrow> bytes fut \<Rightarrow> server \<Rightarrow> server" where
  "session_header k i rd s =
     (case conns s i of
        None \<Rightarrow> s
      | Some c \<Rightarrow>
         (let (c', r) = parse_header_done rd (conn c);
              s1 = upd_conn i (\<lambda>x. x\<lparr>conn := c'\<rparr>) s in
          case r of
            Inl e \<Rightarrow> loop_throw k i s1
          | Inr None \<Rightarrow> set_loop k L_Check (conn_set_error i ''Error parsing connection header'' s1)
          | Inr (Some hdr) \<Rightarrow> set_loop k (L_WaitMem hdr) s1))"

definition session_granted :: "nat \<Rightarrow> header \<Rightarrow> server \<Rightarrow> server" where
  "session_granted k hdr s = set_loop k (L_Payload hdr) (signal (- int (unat (hdr_size hdr))) s)"

definition session_payload ::
  "server_cfg \<Rightarrow> nat \<Rightarrow> u64 \<Rightarrow> header \<Rightarrow> bytes fut \<Rightarrow> server \<Rightarrow> server" where
  "session_payload cfg k i hdr rd s =
     (case conns s i of
        None \<Rightarrow> s
      | Some c \<Rightarrow>
         (let (c', r) = parse_payload_done (checksum_fn cfg) hdr rd (conn c);
              s1 = upd_conn i (\<lambda>x. x\<lparr>conn := c'\<rparr>) s in
          case r of
            Inl e \<Rightarrow> loop_throw k i s1
          | Inr maybe_payload \<Rightarrow>
             (let (s2, r2) = dispatch_rpc cfg (sint (hdr_size hdr)) i maybe_payload s1 in
              case r2 of
                Inl e \<Rightarrow> loop_throw k i s2
              | Inr _ \<Rightarrow> set_loop k L_Check s2)))"

definition session_timeout :: "nat \<Rightarrow> u64 \<Rightarrow> server \<Rightarrow> server" where
  "session_timeout k i s = loop_throw k i s"

text \<open>\<^verbatim>\<open>apply_incoming_filters\<close>, \<^verbatim>\<open>apply_outgoing_filters\<close>.\<close>

definition apply_incoming_filters :: "server_cfg \<Rightarrow> rpc_recv_context \<Rightarrow> rpc_recv_context fut" where
  "apply_incoming_filters cfg ctx = rpc_filter_apply (in_filters cfg) ctx"

definition apply_outgoing_filters :: "server_cfg \<Rightarrow> rpc_envelope \<Rightarrow> rpc_envelope fut" where
  "apply_outgoing_filters cfg e = rpc_filter_apply (out_filters cfg) e"

text \<open>A fiber of a dispatched request ends.\<close>

definition task_end :: "bool \<Rightarrow> nat \<Rightarrow> task \<Rightarrow> server \<Rightarrow> server" where
  "task_end ok k t s = finish_dispatch ok (t_conn t) (t_payload_size t) (remove_task k s)"

text \<open>The continuations of \<^verbatim>\<open>do_dispatch_rpc\<close>, in their order.\<close>

definition dispatch_filtered ::
  "nat \<Rightarrow> task \<Rightarrow> method_handle \<Rightarrow> rpc_recv_context fut \<Rightarrow> server \<Rightarrow> server" where
  "dispatch_filtered k t method_dispatch r s =
     (case r of
        Inl e \<Rightarrow> task_end False k t s
      | Inr ctx \<Rightarrow>
         if hdr_compression (ctx_header ctx) \<noteq> compression_flags_none
         then set_task k T_Flush (conn_set_error (t_conn t)
           (''There was no decompression filter for compression enum: '' @
             dec_int (sint (hdr_compression (ctx_header ctx)))) s)
         else set_task k (T_Handler ctx method_dispatch) s)"

definition dispatch_handled :: "nat \<Rightarrow> task \<Rightarrow> rpc_envelope fut \<Rightarrow> server \<Rightarrow> server" where
  "dispatch_handled k t r s =
     (case r of Inl e \<Rightarrow> task_end False k t s | Inr e \<Rightarrow> set_task k (T_OutFilters e) s)"

definition dispatch_reply :: "nat \<Rightarrow> task \<Rightarrow> rpc_envelope fut \<Rightarrow> server \<Rightarrow> server" where
  "dispatch_reply k t r s =
     (case r of
        Inl x \<Rightarrow> task_end False k t s
      | Inr e \<Rightarrow>
         if \<not> conn_valid s (t_conn t) then set_task k T_Flush s
         else set_task k (T_WaitWrite e)
           (upd_stats (\<lambda>st. st\<lparr>out_bytes := out_bytes st + of_nat (rpc_letter_size (letter e))\<rparr>) s))"

text \<open>
  \<^verbatim>\<open>rpc_envelope::send\<close> under \<^verbatim>\<open>serialize_writes\<close>: its guards and the header; the body; the flush.
\<close>

definition lock_writes :: "u64 \<Rightarrow> bool \<Rightarrow> server \<Rightarrow> server" where
  "lock_writes i b = upd_conn i (\<lambda>c. c\<lparr>writing := b\<rparr>)"

definition write_out :: "u64 \<Rightarrow> bytes \<Rightarrow> server \<Rightarrow> server" where
  "write_out i bs = upd_conn i (\<lambda>c. c\<lparr>sent := sent c @ bs\<rparr>)"

definition write_error :: "nat \<Rightarrow> task \<Rightarrow> server \<Rightarrow> server" where
  "write_error k t s =
     task_end False k t (lock_writes (t_conn t) False
       (upd_conn (t_conn t) (\<lambda>c. c\<lparr>write_failed := True\<rparr>) s))"

definition send_header ::
  "server_cfg \<Rightarrow> nat \<Rightarrow> task \<Rightarrow> rpc_envelope \<Rightarrow> exn option \<Rightarrow> server \<Rightarrow> server" where
  "send_header cfg k t e werr s =
     (if debug_build cfg \<and> (hdr_size (env_header e) = 0 \<or> hdr_checksum (env_header e) = 0)
      then task_end False k t s
      else case werr of
        Some x \<Rightarrow> write_error k t s
      | None \<Rightarrow> set_task k (T_Body e)
          (write_out (t_conn t) (header_to_bytes (env_header e)) (lock_writes (t_conn t) True s)))"

definition send_body :: "nat \<Rightarrow> task \<Rightarrow> rpc_envelope \<Rightarrow> exn option \<Rightarrow> server \<Rightarrow> server" where
  "send_body k t e werr s =
     (case werr of
        Some x \<Rightarrow> write_error k t s
      | None \<Rightarrow> set_task k (T_SendFlush e) (write_out (t_conn t) (env_body e) s))"

definition send_flush :: "nat \<Rightarrow> task \<Rightarrow> exn option \<Rightarrow> server \<Rightarrow> server" where
  "send_flush k t werr s =
     (case werr of
        Some x \<Rightarrow> write_error k t s
      | None \<Rightarrow> set_task k T_Flush (lock_writes (t_conn t) False s))"

text \<open>The last continuation flushes a valid connection; then the request is finished.\<close>

definition dispatch_flush :: "nat \<Rightarrow> task \<Rightarrow> exn option \<Rightarrow> server \<Rightarrow> server" where
  "dispatch_flush k t werr s =
     (if conn_valid s (t_conn t) then
        (case werr of
           Some x \<Rightarrow> task_end False k t (upd_conn (t_conn t) (\<lambda>c. c\<lparr>write_failed := True\<rparr>) s)
         | None \<Rightarrow> task_end True k t s)
      else task_end True k t s)"

text \<open>
  \<^verbatim>\<open>rpc_server::stop\<close>: it aborts the listener, waits until the accept loop has ended (the handler
  of \<^verbatim>\<open>keep_doing\<close> fulfils \<^verbatim>\<open>stopped_\<close>), shuts down the input of every open connection and closes
  the gate. Its future completes when the gate's count is zero.
\<close>

definition stop_accept :: "server \<Rightarrow> server" where
  "stop_accept s = s\<lparr>accept_aborted := True\<rparr>"

definition accept_loop_end :: "server \<Rightarrow> server" where
  "accept_loop_end s = s\<lparr>accepting := False\<rparr>"

definition stop_connections :: "server \<Rightarrow> server" where
  "stop_connections s =
     s\<lparr>gate_closed := True,
       conns := (\<lambda>i. if i \<in> open_connections s
                 then map_option (\<lambda>c. c\<lparr>conn := shutdown_input (conn c)\<rparr>) (conns s i)
                 else conns s i)\<rparr>"

definition stop_done :: "server \<Rightarrow> bool" where
  "stop_done s \<longleftrightarrow> gate_closed s \<and> gate_count s = 0"

section \<open>The machine\<close>

datatype event =
    Accept string
  | Loop_check nat
  | Header_read nat "bytes fut"
  | Memory_granted nat
  | Payload_read nat "bytes fut"
  | Payload_timeout nat
  | Filters_in nat
  | Handler_done nat
  | Filters_out nat
  | Write_granted nat "exn option"
  | Body_written nat "exn option"
  | Reply_flushed nat "exn option"
  | Flushed nat "exn option"
  | Destroy u64
  | Stop_accept
  | Accept_loop_end
  | Stop_connections

text \<open>A read of \<open>n\<close> bytes never returns more than \<open>n\<close>.\<close>

definition read_fits :: "nat \<Rightarrow> bytes fut \<Rightarrow> bool" where
  "read_fits n rd = (case rd of Inl _ \<Rightarrow> True | Inr bs \<Rightarrow> length bs \<le> n)"

definition referenced :: "server \<Rightarrow> u64 \<Rightarrow> bool" where
  "referenced s i \<longleftrightarrow>
     i \<in> open_connections s \<or> i \<in> l_conn ` set (loops s) \<or> i \<in> t_conn ` set (tasks s)"

definition loop_at :: "server \<Rightarrow> nat \<Rightarrow> loop option" where
  "loop_at s k = (if k < length (loops s) then Some (loops s ! k) else None)"

definition task_at :: "server \<Rightarrow> nat \<Rightarrow> task option" where
  "task_at s k = (if k < length (tasks s) then Some (tasks s ! k) else None)"

definition loop_step :: "server_cfg \<Rightarrow> nat \<Rightarrow> event \<Rightarrow> server \<Rightarrow> server option" where
  "loop_step cfg k ev s =
     (case loop_at s k of
        None \<Rightarrow> None
      | Some l \<Rightarrow>
         (case (l_pc l, ev) of
            (L_Check, Loop_check _) \<Rightarrow> Some (loop_check cfg k (l_conn l) s)
          | (L_Header, Header_read _ rd) \<Rightarrow>
              if read_fits kHeaderSize rd then Some (session_header k (l_conn l) rd s) else None
          | (L_WaitMem hdr, Memory_granted _) \<Rightarrow>
              if int (unat (hdr_size hdr)) \<le> resources_available (limits s)
              then Some (session_granted k hdr s) else None
          | (L_Payload hdr, Payload_read _ rd) \<Rightarrow>
              if read_fits (unat (hdr_size hdr)) rd
              then Some (session_payload cfg k (l_conn l) hdr rd s) else None
          | (L_Payload hdr, Payload_timeout _) \<Rightarrow> Some (session_timeout k (l_conn l) s)
          | _ \<Rightarrow> None))"

definition task_step :: "server_cfg \<Rightarrow> nat \<Rightarrow> event \<Rightarrow> server \<Rightarrow> server option" where
  "task_step cfg k ev s =
     (case task_at s k of
        None \<Rightarrow> None
      | Some t \<Rightarrow>
         (case (t_pc t, ev) of
            (T_InFilters ctx h, Filters_in _) \<Rightarrow>
              Some (dispatch_filtered k t h (apply_incoming_filters cfg ctx) s)
          | (T_Handler ctx h, Handler_done _) \<Rightarrow> Some (dispatch_handled k t (h ctx) s)
          | (T_OutFilters e, Filters_out _) \<Rightarrow>
              Some (dispatch_reply k t (apply_outgoing_filters cfg e) s)
          | (T_WaitWrite e, Write_granted _ werr) \<Rightarrow>
              (case conns s (t_conn t) of
                 Some c \<Rightarrow> if writing c then None else Some (send_header cfg k t e werr s)
               | None \<Rightarrow> None)
          | (T_Body e, Body_written _ werr) \<Rightarrow> Some (send_body k t e werr s)
          | (T_SendFlush e, Reply_flushed _ werr) \<Rightarrow> Some (send_flush k t werr s)
          | (T_Flush, Flushed _ werr) \<Rightarrow> Some (dispatch_flush k t werr s)
          | _ \<Rightarrow> None))"

text \<open>
  The model covers runs of fewer than \<open>2^64 - 1\<close> accepted connections: the guard of \<open>Accept\<close> keeps
  \<^verbatim>\<open>connection_idx_\<close> from wrapping.
\<close>

fun server_step :: "server_cfg \<Rightarrow> event \<Rightarrow> server \<Rightarrow> server option" where
  "server_step cfg (Accept address) s =
     (if accepting s \<and> connection_idx s \<noteq> - 1 then Some (accept_connection address s) else None)"
| "server_step cfg (Loop_check k) s = loop_step cfg k (Loop_check k) s"
| "server_step cfg (Header_read k rd) s = loop_step cfg k (Header_read k rd) s"
| "server_step cfg (Memory_granted k) s = loop_step cfg k (Memory_granted k) s"
| "server_step cfg (Payload_read k rd) s = loop_step cfg k (Payload_read k rd) s"
| "server_step cfg (Payload_timeout k) s = loop_step cfg k (Payload_timeout k) s"
| "server_step cfg (Filters_in k) s = task_step cfg k (Filters_in k) s"
| "server_step cfg (Handler_done k) s = task_step cfg k (Handler_done k) s"
| "server_step cfg (Filters_out k) s = task_step cfg k (Filters_out k) s"
| "server_step cfg (Write_granted k w) s = task_step cfg k (Write_granted k w) s"
| "server_step cfg (Body_written k w) s = task_step cfg k (Body_written k w) s"
| "server_step cfg (Reply_flushed k w) s = task_step cfg k (Reply_flushed k w) s"
| "server_step cfg (Flushed k w) s = task_step cfg k (Flushed k w) s"
| "server_step cfg (Destroy i) s =
     (if conns s i \<noteq> None \<and> \<not> referenced s i then Some (destroy_connection i s) else None)"
| "server_step cfg Stop_accept s = (if accept_aborted s then None else Some (stop_accept s))"
| "server_step cfg Accept_loop_end s = (if accepting s then Some (accept_loop_end s) else None)"
| "server_step cfg Stop_connections s =
     (if accept_aborted s \<and> \<not> accepting s \<and> \<not> gate_closed s
      then Some (stop_connections s) else None)"

definition server_init :: "server_cfg \<Rightarrow> server \<Rightarrow> bool" where
  "server_init cfg s \<longleftrightarrow> (\<exists>mem timeout. s = rpc_server_new mem timeout)"

end
