(* ===== verification/Rpc_Server_Frame.thy ===== *)
theory Rpc_Server_Frame
  imports Rpc_Server
begin

text \<open>
  What each operation of the server leaves alone, and the cases of a step. The invariants of the
  server are stated over the selectors of its state and the projections of its connections below;
  the simplification rules here say how every operation changes each of them.
\<close>

section \<open>Projections of the connections\<close>

definition sent_of :: "server \<Rightarrow> u64 \<Rightarrow> bytes option" where
  "sent_of s i = map_option sent (conns s i)"

definition writing_of :: "server \<Rightarrow> u64 \<Rightarrow> bool option" where
  "writing_of s i = map_option writing (conns s i)"

definition failed_of :: "server \<Rightarrow> u64 \<Rightarrow> bool option" where
  "failed_of s i = map_option write_failed (conns s i)"

definition parser_of :: "server \<Rightarrow> u64 \<Rightarrow> u32 option" where
  "parser_of s i = map_option (\<lambda>c. istream_active_parser (conn c)) (conns s i)"

definition live :: "server \<Rightarrow> u64 set" where
  "live s = dom (conns s)"

lemmas projections = sent_of_def writing_of_def failed_of_def parser_of_def live_def

section \<open>Primitive updates\<close>

lemma upd_stats_sel [simp]:
  "limits (upd_stats f s) = limits s" "stats (upd_stats f s) = f (stats s)"
  "connection_idx (upd_stats f s) = connection_idx s" "conns (upd_stats f s) = conns s"
  "open_connections (upd_stats f s) = open_connections s" "loops (upd_stats f s) = loops s"
  "tasks (upd_stats f s) = tasks s" "gate_count (upd_stats f s) = gate_count s"
  "gate_closed (upd_stats f s) = gate_closed s" "accepting (upd_stats f s) = accepting s"
  by (simp_all add: upd_stats_def)

lemma upd_conn_sel [simp]:
  "limits (upd_conn i f s) = limits s" "stats (upd_conn i f s) = stats s"
  "connection_idx (upd_conn i f s) = connection_idx s"
  "open_connections (upd_conn i f s) = open_connections s" "loops (upd_conn i f s) = loops s"
  "tasks (upd_conn i f s) = tasks s" "gate_count (upd_conn i f s) = gate_count s"
  "gate_closed (upd_conn i f s) = gate_closed s" "accepting (upd_conn i f s) = accepting s"
  "live (upd_conn i f s) = live s"
  by (auto simp: upd_conn_def live_def split: if_splits)

lemma conns_upd_conn: "conns (upd_conn i f s) = (conns s)(i := map_option f (conns s i))"
  by (simp add: upd_conn_def)

lemma upd_conn_proj [simp]:
  "(\<And>c. sent (f c) = sent c) \<Longrightarrow> sent_of (upd_conn i f s) = sent_of s"
  "(\<And>c. writing (f c) = writing c) \<Longrightarrow> writing_of (upd_conn i f s) = writing_of s"
  "(\<And>c. write_failed (f c) = write_failed c) \<Longrightarrow> failed_of (upd_conn i f s) = failed_of s"
  "(\<And>c. istream_active_parser (conn (f c)) = istream_active_parser (conn c)) \<Longrightarrow>
     parser_of (upd_conn i f s) = parser_of s"
  by (auto simp: projections conns_upd_conn fun_eq_iff option.map_comp comp_def)

lemma conns_proj_cong:
  "conns s = conns t \<Longrightarrow> sent_of s = sent_of t" "conns s = conns t \<Longrightarrow> writing_of s = writing_of t"
  "conns s = conns t \<Longrightarrow> failed_of s = failed_of t" "conns s = conns t \<Longrightarrow> parser_of s = parser_of t"
  "conns s = conns t \<Longrightarrow> live s = live t"
  by (simp_all add: sent_of_def [abs_def] writing_of_def [abs_def] failed_of_def [abs_def]
      parser_of_def [abs_def] live_def)

lemma upd_stats_proj [simp]:
  "sent_of (upd_stats f s) = sent_of s" "writing_of (upd_stats f s) = writing_of s"
  "failed_of (upd_stats f s) = failed_of s" "parser_of (upd_stats f s) = parser_of s"
  "live (upd_stats f s) = live s"
  by (intro conns_proj_cong; simp)+

lemma record_update_proj [simp]:
  "sent_of (s\<lparr>open_connections := oc\<rparr>) = sent_of s"
  "writing_of (s\<lparr>open_connections := oc\<rparr>) = writing_of s"
  "failed_of (s\<lparr>open_connections := oc\<rparr>) = failed_of s"
  "parser_of (s\<lparr>open_connections := oc\<rparr>) = parser_of s"
  "live (s\<lparr>open_connections := oc\<rparr>) = live s"
  "sent_of (s\<lparr>gate_count := n\<rparr>) = sent_of s" "writing_of (s\<lparr>gate_count := n\<rparr>) = writing_of s"
  "failed_of (s\<lparr>gate_count := n\<rparr>) = failed_of s" "parser_of (s\<lparr>gate_count := n\<rparr>) = parser_of s"
  "live (s\<lparr>gate_count := n\<rparr>) = live s"
  "sent_of (s\<lparr>tasks := ts\<rparr>) = sent_of s" "writing_of (s\<lparr>tasks := ts\<rparr>) = writing_of s"
  "failed_of (s\<lparr>tasks := ts\<rparr>) = failed_of s" "parser_of (s\<lparr>tasks := ts\<rparr>) = parser_of s"
  "live (s\<lparr>tasks := ts\<rparr>) = live s"
  "sent_of (s\<lparr>latency_samples := m\<rparr>) = sent_of s"
  "writing_of (s\<lparr>latency_samples := m\<rparr>) = writing_of s"
  "failed_of (s\<lparr>latency_samples := m\<rparr>) = failed_of s"
  "parser_of (s\<lparr>latency_samples := m\<rparr>) = parser_of s"
  "live (s\<lparr>latency_samples := m\<rparr>) = live s"
  by (intro conns_proj_cong; simp)+

lemma conn_set_error_sel [simp]:
  "limits (conn_set_error i e s) = limits s" "stats (conn_set_error i e s) = stats s"
  "connection_idx (conn_set_error i e s) = connection_idx s"
  "open_connections (conn_set_error i e s) = open_connections s"
  "loops (conn_set_error i e s) = loops s" "tasks (conn_set_error i e s) = tasks s"
  "gate_count (conn_set_error i e s) = gate_count s"
  "gate_closed (conn_set_error i e s) = gate_closed s"
  "accepting (conn_set_error i e s) = accepting s" "live (conn_set_error i e s) = live s"
  "sent_of (conn_set_error i e s) = sent_of s" "writing_of (conn_set_error i e s) = writing_of s"
  "failed_of (conn_set_error i e s) = failed_of s" "parser_of (conn_set_error i e s) = parser_of s"
  by (simp_all add: conn_set_error_def)

lemma signal_sel [simp]:
  "resources_available (limits (signal n s)) = resources_available (limits s) + n"
  "max_memory (limits (signal n s)) = max_memory (limits s)"
  "stats (signal n s) = stats s" "connection_idx (signal n s) = connection_idx s"
  "conns (signal n s) = conns s" "open_connections (signal n s) = open_connections s"
  "loops (signal n s) = loops s" "tasks (signal n s) = tasks s"
  "gate_count (signal n s) = gate_count s" "gate_closed (signal n s) = gate_closed s"
  "accepting (signal n s) = accepting s" "live (signal n s) = live s"
  "sent_of (signal n s) = sent_of s" "writing_of (signal n s) = writing_of s"
  "failed_of (signal n s) = failed_of s" "parser_of (signal n s) = parser_of s"
  by (simp_all add: signal_def projections fun_eq_iff)

lemma set_loop_sel [simp]:
  "limits (set_loop k p s) = limits s" "stats (set_loop k p s) = stats s"
  "connection_idx (set_loop k p s) = connection_idx s" "conns (set_loop k p s) = conns s"
  "open_connections (set_loop k p s) = open_connections s" "tasks (set_loop k p s) = tasks s"
  "loops (set_loop k p s) = (loops s)[k := (loops s ! k)\<lparr>l_pc := p\<rparr>]"
  "gate_count (set_loop k p s) = gate_count s" "gate_closed (set_loop k p s) = gate_closed s"
  "accepting (set_loop k p s) = accepting s" "live (set_loop k p s) = live s"
  "sent_of (set_loop k p s) = sent_of s" "writing_of (set_loop k p s) = writing_of s"
  "failed_of (set_loop k p s) = failed_of s" "parser_of (set_loop k p s) = parser_of s"
  by (simp_all add: set_loop_def projections fun_eq_iff)

lemma remove_loop_sel [simp]:
  "limits (remove_loop k s) = limits s" "stats (remove_loop k s) = stats s"
  "connection_idx (remove_loop k s) = connection_idx s" "conns (remove_loop k s) = conns s"
  "open_connections (remove_loop k s) = open_connections s" "tasks (remove_loop k s) = tasks s"
  "loops (remove_loop k s) = remove_nth k (loops s)"
  "gate_count (remove_loop k s) = gate_count s" "gate_closed (remove_loop k s) = gate_closed s"
  "accepting (remove_loop k s) = accepting s" "live (remove_loop k s) = live s"
  "sent_of (remove_loop k s) = sent_of s" "writing_of (remove_loop k s) = writing_of s"
  "failed_of (remove_loop k s) = failed_of s" "parser_of (remove_loop k s) = parser_of s"
  by (simp_all add: remove_loop_def projections fun_eq_iff)

lemma set_task_sel [simp]:
  "limits (set_task k p s) = limits s" "stats (set_task k p s) = stats s"
  "connection_idx (set_task k p s) = connection_idx s" "conns (set_task k p s) = conns s"
  "open_connections (set_task k p s) = open_connections s" "loops (set_task k p s) = loops s"
  "tasks (set_task k p s) = (tasks s)[k := (tasks s ! k)\<lparr>t_pc := p\<rparr>]"
  "gate_count (set_task k p s) = gate_count s" "gate_closed (set_task k p s) = gate_closed s"
  "accepting (set_task k p s) = accepting s" "live (set_task k p s) = live s"
  "sent_of (set_task k p s) = sent_of s" "writing_of (set_task k p s) = writing_of s"
  "failed_of (set_task k p s) = failed_of s" "parser_of (set_task k p s) = parser_of s"
  by (simp_all add: set_task_def projections fun_eq_iff)

lemma remove_task_sel [simp]:
  "limits (remove_task k s) = limits s" "stats (remove_task k s) = stats s"
  "connection_idx (remove_task k s) = connection_idx s" "conns (remove_task k s) = conns s"
  "open_connections (remove_task k s) = open_connections s" "loops (remove_task k s) = loops s"
  "tasks (remove_task k s) = remove_nth k (tasks s)"
  "gate_count (remove_task k s) = gate_count s" "gate_closed (remove_task k s) = gate_closed s"
  "accepting (remove_task k s) = accepting s" "live (remove_task k s) = live s"
  "sent_of (remove_task k s) = sent_of s" "writing_of (remove_task k s) = writing_of s"
  "failed_of (remove_task k s) = failed_of s" "parser_of (remove_task k s) = parser_of s"
  by (simp_all add: remove_task_def projections fun_eq_iff)

lemma lock_writes_sel [simp]:
  "limits (lock_writes i b s) = limits s" "stats (lock_writes i b s) = stats s"
  "connection_idx (lock_writes i b s) = connection_idx s"
  "open_connections (lock_writes i b s) = open_connections s"
  "loops (lock_writes i b s) = loops s" "tasks (lock_writes i b s) = tasks s"
  "gate_count (lock_writes i b s) = gate_count s" "gate_closed (lock_writes i b s) = gate_closed s"
  "accepting (lock_writes i b s) = accepting s" "live (lock_writes i b s) = live s"
  "sent_of (lock_writes i b s) = sent_of s" "failed_of (lock_writes i b s) = failed_of s"
  "parser_of (lock_writes i b s) = parser_of s"
  "writing_of (lock_writes i b s) = (writing_of s)(i := map_option (\<lambda>_. b) (writing_of s i))"
  by (auto simp: lock_writes_def writing_of_def conns_upd_conn fun_eq_iff option.map_comp comp_def)

lemma write_out_sel [simp]:
  "limits (write_out i bs s) = limits s" "stats (write_out i bs s) = stats s"
  "connection_idx (write_out i bs s) = connection_idx s"
  "open_connections (write_out i bs s) = open_connections s"
  "loops (write_out i bs s) = loops s" "tasks (write_out i bs s) = tasks s"
  "gate_count (write_out i bs s) = gate_count s" "gate_closed (write_out i bs s) = gate_closed s"
  "accepting (write_out i bs s) = accepting s" "live (write_out i bs s) = live s"
  "writing_of (write_out i bs s) = writing_of s" "failed_of (write_out i bs s) = failed_of s"
  "parser_of (write_out i bs s) = parser_of s"
  "sent_of (write_out i bs s) = (sent_of s)(i := map_option (\<lambda>x. x @ bs) (sent_of s i))"
  by (auto simp: write_out_def sent_of_def conns_upd_conn fun_eq_iff option.map_comp comp_def)

section \<open>Operations\<close>

lemma cleanup_sel [simp]:
  "limits (cleanup_dispatch_rpc i s) = limits s"
  "connection_idx (cleanup_dispatch_rpc i s) = connection_idx s"
  "loops (cleanup_dispatch_rpc i s) = loops s" "tasks (cleanup_dispatch_rpc i s) = tasks s"
  "gate_count (cleanup_dispatch_rpc i s) = gate_count s"
  "gate_closed (cleanup_dispatch_rpc i s) = gate_closed s"
  "accepting (cleanup_dispatch_rpc i s) = accepting s" "live (cleanup_dispatch_rpc i s) = live s"
  "sent_of (cleanup_dispatch_rpc i s) = sent_of s"
  "writing_of (cleanup_dispatch_rpc i s) = writing_of s"
  "failed_of (cleanup_dispatch_rpc i s) = failed_of s"
  "parser_of (cleanup_dispatch_rpc i s) = parser_of s"
  by (simp_all add: cleanup_dispatch_rpc_def split: option.splits)

lemma cleanup_open: "open_connections (cleanup_dispatch_rpc i s) \<subseteq> open_connections s"
  by (auto simp: cleanup_dispatch_rpc_def split: option.splits)

lemma finish_dispatch_sel [simp]:
  "resources_available (limits (finish_dispatch ok i n s)) = resources_available (limits s) + n"
  "max_memory (limits (finish_dispatch ok i n s)) = max_memory (limits s)"
  "connection_idx (finish_dispatch ok i n s) = connection_idx s"
  "loops (finish_dispatch ok i n s) = loops s" "tasks (finish_dispatch ok i n s) = tasks s"
  "gate_count (finish_dispatch ok i n s) = gate_count s - 1"
  "gate_closed (finish_dispatch ok i n s) = gate_closed s"
  "accepting (finish_dispatch ok i n s) = accepting s" "live (finish_dispatch ok i n s) = live s"
  "sent_of (finish_dispatch ok i n s) = sent_of s"
  "writing_of (finish_dispatch ok i n s) = writing_of s"
  "failed_of (finish_dispatch ok i n s) = failed_of s"
  "parser_of (finish_dispatch ok i n s) = parser_of s"
  by (simp_all add: finish_dispatch_def Let_def)

lemma finish_dispatch_open: "open_connections (finish_dispatch ok i n s) \<subseteq> open_connections s"
  using cleanup_open [of i s] by (auto simp: finish_dispatch_def Let_def split: if_splits)

lemma task_end_sel [simp]:
  "resources_available (limits (task_end ok k t s)) =
     resources_available (limits s) + t_payload_size t"
  "max_memory (limits (task_end ok k t s)) = max_memory (limits s)"
  "connection_idx (task_end ok k t s) = connection_idx s"
  "loops (task_end ok k t s) = loops s" "tasks (task_end ok k t s) = remove_nth k (tasks s)"
  "gate_count (task_end ok k t s) = gate_count s - 1"
  "gate_closed (task_end ok k t s) = gate_closed s"
  "accepting (task_end ok k t s) = accepting s" "live (task_end ok k t s) = live s"
  "sent_of (task_end ok k t s) = sent_of s" "writing_of (task_end ok k t s) = writing_of s"
  "failed_of (task_end ok k t s) = failed_of s" "parser_of (task_end ok k t s) = parser_of s"
  by (simp_all add: task_end_def)

lemma task_end_open: "open_connections (task_end ok k t s) \<subseteq> open_connections s"
  using finish_dispatch_open [of ok "t_conn t" "t_payload_size t" "remove_task k s"]
  by (simp add: task_end_def)

lemma loop_end_sel [simp]:
  "limits (loop_end k i s) = limits s" "connection_idx (loop_end k i s) = connection_idx s"
  "loops (loop_end k i s) = remove_nth k (loops s)" "tasks (loop_end k i s) = tasks s"
  "gate_count (loop_end k i s) = gate_count s" "gate_closed (loop_end k i s) = gate_closed s"
  "accepting (loop_end k i s) = accepting s" "live (loop_end k i s) = live s"
  "sent_of (loop_end k i s) = sent_of s" "writing_of (loop_end k i s) = writing_of s"
  "failed_of (loop_end k i s) = failed_of s" "parser_of (loop_end k i s) = parser_of s"
  by (simp_all add: loop_end_def)

lemma loop_throw_sel [simp]:
  "limits (loop_throw k i s) = limits s" "connection_idx (loop_throw k i s) = connection_idx s"
  "loops (loop_throw k i s) = remove_nth k (loops s)" "tasks (loop_throw k i s) = tasks s"
  "gate_count (loop_throw k i s) = gate_count s" "gate_closed (loop_throw k i s) = gate_closed s"
  "accepting (loop_throw k i s) = accepting s" "live (loop_throw k i s) = live s"
  "sent_of (loop_throw k i s) = sent_of s" "writing_of (loop_throw k i s) = writing_of s"
  "failed_of (loop_throw k i s) = failed_of s" "parser_of (loop_throw k i s) = parser_of s"
  by (simp_all add: loop_throw_def)

lemma loop_exit_open:
  "open_connections (loop_end k i s) \<subseteq> open_connections s"
  "open_connections (loop_throw k i s) \<subseteq> open_connections s"
  using cleanup_open [of i s]
    cleanup_open [of i "conn_set_error i e (cleanup_dispatch_rpc i s)" for e]
  by (force simp: loop_end_def loop_throw_def)+

section \<open>The cases of a step\<close>

lemma loop_at_Some: "loop_at s k = Some l \<longleftrightarrow> k < length (loops s) \<and> l = loops s ! k"
  by (auto simp: loop_at_def)

lemma task_at_Some: "task_at s k = Some t \<longleftrightarrow> k < length (tasks s) \<and> t = tasks s ! k"
  by (auto simp: task_at_def)

lemma server_step_cases [consumes 1, case_names accept check hdr_read granted payload timed_out
    filtered handled reply write_granted body_written replied flushed destroy aborted accept_end stop]:
  assumes "server_step cfg ev s = Some s'"
  obtains a where "accepting s" "connection_idx s \<noteq> - 1" "s' = accept_connection a s"
    "ev = Accept a"
  | k l where "loop_at s k = Some l" "l_pc l = L_Check" "s' = loop_check cfg k (l_conn l) s"
    "ev = Loop_check k"
  | k l rd where "loop_at s k = Some l" "l_pc l = L_Header" "read_fits kHeaderSize rd"
    "s' = session_header k (l_conn l) rd s" "ev = Header_read k rd"
  | k l hdr where "loop_at s k = Some l" "l_pc l = L_WaitMem hdr"
    "int (unat (hdr_size hdr)) \<le> resources_available (limits s)" "s' = session_granted k hdr s"
    "ev = Memory_granted k"
  | k l hdr rd where "loop_at s k = Some l" "l_pc l = L_Payload hdr"
    "read_fits (unat (hdr_size hdr)) rd" "s' = session_payload cfg k (l_conn l) hdr rd s"
    "ev = Payload_read k rd"
  | k l hdr where "loop_at s k = Some l" "l_pc l = L_Payload hdr"
    "s' = session_timeout k (l_conn l) s" "ev = Payload_timeout k"
  | k t ctx h where "task_at s k = Some t" "t_pc t = T_InFilters ctx h"
    "s' = dispatch_filtered k t h (apply_incoming_filters cfg ctx) s" "ev = Filters_in k"
  | k t ctx h where "task_at s k = Some t" "t_pc t = T_Handler ctx h"
    "s' = dispatch_handled k t (h ctx) s" "ev = Handler_done k"
  | k t e where "task_at s k = Some t" "t_pc t = T_OutFilters e"
    "s' = dispatch_reply k t (apply_outgoing_filters cfg e) s" "ev = Filters_out k"
  | k t e w where "task_at s k = Some t" "t_pc t = T_WaitWrite e"
    "writing_of s (t_conn t) = Some False" "s' = send_header cfg k t e w s" "ev = Write_granted k w"
  | k t e w where "task_at s k = Some t" "t_pc t = T_Body e" "s' = send_body k t e w s"
    "ev = Body_written k w"
  | k t e w where "task_at s k = Some t" "t_pc t = T_SendFlush e" "s' = send_flush k t w s"
    "ev = Reply_flushed k w"
  | k t w where "task_at s k = Some t" "t_pc t = T_Flush" "s' = dispatch_flush k t w s"
    "ev = Flushed k w"
  | i where "i \<in> live s" "\<not> referenced s i" "s' = destroy_connection i s" "ev = Destroy i"
  | "s' = stop_accept s" "ev = Stop_accept"
  | "accepting s" "s' = accept_loop_end s" "ev = Accept_loop_end"
  | "\<not> gate_closed s" "s' = stop_connections s" "ev = Stop_connections"
proof (cases ev)
  case (Write_granted k w)
  with assms that(10) show ?thesis
    by (fastforce simp: task_step_def writing_of_def split: option.splits task_pc.splits if_splits)
qed (use assms that in \<open>(auto simp: loop_step_def task_step_def live_def
       split: option.splits loop_pc.splits task_pc.splits if_splits)\<close>)

end
