(* ===== verification/Rpc_Server_Invariants.thy ===== *)
theory Rpc_Server_Invariants
  imports Rpc_Server_Frame
begin

text \<open>
  Invariants of the server, each an interpretation of \<open>machine_invariant\<close> on \<open>server_step\<close>:
  the fibers and connections fit together and reads are never interleaved (\<open>server_wf\<close>); and the
  memory of the semaphore is never over-committed (\<open>memory_inv\<close>) and is conserved while no read is
  lost (\<open>memory_exact\<close>).
\<close>

section \<open>Fibers and connections\<close>

definition server_wf :: "server_cfg \<Rightarrow> server \<Rightarrow> bool" where
  "server_wf cfg s \<longleftrightarrow>
     open_connections s \<subseteq> live s \<and> l_conn ` set (loops s) \<subseteq> live s \<and>
     t_conn ` set (tasks s) \<subseteq> live s \<and> distinct (map l_conn (loops s)) \<and>
     (\<forall>i \<in> live s. i \<le> connection_idx s) \<and> gate_count s = length (tasks s) \<and>
     (\<forall>l \<in> set (loops s). parser_of s (l_conn l) = Some (of_bool (l_pc l = L_Header)))"

lemma server_wfD:
  assumes "server_wf cfg s"
  shows "open_connections s \<subseteq> live s" "l \<in> set (loops s) \<Longrightarrow> l_conn l \<in> live s"
    "t \<in> set (tasks s) \<Longrightarrow> t_conn t \<in> live s" "distinct (map l_conn (loops s))"
    "i \<in> live s \<Longrightarrow> i \<le> connection_idx s" "gate_count s = length (tasks s)"
    "l \<in> set (loops s) \<Longrightarrow> parser_of s (l_conn l) = Some (of_bool (l_pc l = L_Header))"
  using assms by (auto simp: server_wf_def)

lemma wf_loop_moved:
  assumes wf: "server_wf cfg s" and k: "loop_at s k = Some l"
    and loops: "loops s' = (loops s)[k := (loops s ! k)\<lparr>l_pc := p\<rparr>]"
    and parser: "parser_of s' = (parser_of s)(l_conn l := Some (of_bool (p = L_Header)))"
    and tasks: "t_conn ` set (tasks s') \<subseteq> live s" "gate_count s' = length (tasks s')"
    and same: "open_connections s' \<subseteq> open_connections s" "live s' = live s"
      "connection_idx s' = connection_idx s"
  shows "server_wf cfg s'"
proof -
  have kl: "k < length (loops s)" "l = loops s ! k" using k by (auto simp: loop_at_Some)
  have "parser_of s' (l_conn m) = Some (of_bool (l_pc m = L_Header))" if "m \<in> set (loops s')" for m
  proof -
    from that obtain j where j: "j < length (loops s)" "m = loops s' ! j"
      by (auto simp: loops in_set_conv_nth)
    show ?thesis
    proof (cases "j = k")
      case True
      with j kl show ?thesis by (simp add: loops parser)
    next
      case False
      then have m: "m = loops s ! j" using j by (simp add: loops)
      moreover have "l_conn m \<noteq> l_conn l"
        using server_wfD(4) [OF wf] kl j False m nth_eq_iff_index_eq [of "map l_conn (loops s)" j k]
        by simp
      ultimately show ?thesis using server_wfD(7) [OF wf, of m] j by (simp add: parser)
    qed
  qed
  moreover have "map l_conn (loops s') = map l_conn (loops s)"
    using kl by (intro nth_equalityI) (auto simp: loops nth_list_update)
  then have "distinct (map l_conn (loops s'))" "l_conn ` set (loops s') = l_conn ` set (loops s)"
    using wf by (simp_all add: server_wf_def flip: set_map)
  ultimately show ?thesis using wf tasks same by (auto simp: server_wf_def)
qed

lemma wf_loop_ended:
  assumes wf: "server_wf cfg s" and k: "loop_at s k = Some l"
    and loops: "loops s' = remove_nth k (loops s)"
    and parser: "\<And>i. i \<noteq> l_conn l \<Longrightarrow> parser_of s' i = parser_of s i"
    and same: "open_connections s' \<subseteq> open_connections s" "live s' = live s" "tasks s' = tasks s"
      "gate_count s' = gate_count s" "connection_idx s' = connection_idx s"
  shows "server_wf cfg s'"
proof -
  have kl: "k < length (loops s)" "l = loops s ! k" using k by (auto simp: loop_at_Some)
  have sub: "m \<in> set (loops s)" if "m \<in> set (loops s')" for m
    using that set_remove_nth by (metis loops)
  have "l_conn l \<notin> l_conn ` set (loops s')"
    using not_in_remove_nth [OF server_wfD(4) [OF wf], of k] kl
    by (simp add: loops map_remove_nth flip: set_map)
  then have "parser_of s' (l_conn m) = Some (of_bool (l_pc m = L_Header))"
    if "m \<in> set (loops s')" for m
    using that parser [of "l_conn m"] server_wfD(7) [OF wf sub [OF that]]
    by (metis image_eqI)
  moreover have "distinct (map l_conn (loops s'))"
    using server_wfD(4) [OF wf] by (simp add: loops map_remove_nth distinct_remove_nth)
  ultimately show ?thesis using wf sub same by (auto simp: server_wf_def)
qed

lemma conns_liveD: "i \<in> live s \<Longrightarrow> \<exists>c. conns s i = Some c"
  by (auto simp: live_def)

lemma loop_conn:
  assumes "server_wf cfg s" and "loop_at s k = Some l"
  obtains c where "conns s (l_conn l) = Some c"
    "istream_active_parser (conn c) = of_bool (l_pc l = L_Header)"
proof -
  have "l \<in> set (loops s)" using assms(2) by (auto simp: loop_at_Some)
  then have "parser_of s (l_conn l) = Some (of_bool (l_pc l = L_Header))"
    using server_wfD(7) [OF assms(1)] by blast
  then show ?thesis using that by (auto simp: parser_of_def)
qed

text \<open>The operations of the loop.\<close>

lemma parser_of_upd_conn_fun:
  "conns s i = Some c \<Longrightarrow>
     parser_of (upd_conn i f s) = (parser_of s)(i := Some (istream_active_parser (conn (f c))))"
  by (auto simp: parser_of_def conns_upd_conn fun_eq_iff)

lemma loop_check_valid:
  assumes "server_wf cfg s" and "loop_at s k = Some l" and "l_pc l = L_Check"
    and c: "conns s (l_conn l) = Some c"
  shows "loop_check cfg k (l_conn l) s =
    (if is_valid (conn c)
     then set_loop k L_Header (upd_conn (l_conn l)
       (\<lambda>x. x\<lparr>conn := (conn c)\<lparr>istream_active_parser := 1\<rparr>\<rparr>) s)
     else loop_end k (l_conn l) s)"
proof -
  have "istream_active_parser (conn c) = 0"
    using loop_conn [OF assms(1,2)] assms(3) c by fastforce
  then show ?thesis
    by (simp add: loop_check_def c parse_header_start_def dlog_throw_if_def)
qed

lemma wf_loop_check:
  assumes wf: "server_wf cfg s" and k: "loop_at s k = Some l" and pc: "l_pc l = L_Check"
  shows "server_wf cfg (loop_check cfg k (l_conn l) s)"
proof -
  obtain c where c: "conns s (l_conn l) = Some c" using loop_conn [OF wf k] by metis
  note check = loop_check_valid [OF wf k pc c]
  show ?thesis
  proof (cases "is_valid (conn c)")
    case True
    then show ?thesis
      unfolding check using wf k c server_wfD(3,6) [OF wf]
      by (auto intro!: wf_loop_moved [OF wf k] simp: parser_of_upd_conn_fun)
  next
    case False
    then show ?thesis
      unfolding check by (auto intro!: wf_loop_ended [OF wf k] dest: loop_exit_open [THEN subsetD])
  qed
qed

lemma wf_session_header:
  assumes wf: "server_wf cfg s" and k: "loop_at s k = Some l" and pc: "l_pc l = L_Header"
  shows "server_wf cfg (session_header k (l_conn l) rd s)"
proof -
  obtain c where c: "conns s (l_conn l) = Some c" "istream_active_parser (conn c) = 1"
    using loop_conn [OF wf k] pc by (metis of_bool_eq(2))
  obtain c' r where p: "parse_header_done rd (conn c) = (c', r)" by fastforce
  then have "istream_active_parser c' = 0"
    using parse_header_done_frame(3) [of rd "conn c"] c by simp
  then have par: "parser_of (upd_conn (l_conn l) (\<lambda>x. x\<lparr>conn := c'\<rparr>) s) =
      (parser_of s)(l_conn l := Some 0)"
    using c by (simp add: parser_of_upd_conn_fun)
  note tasks = server_wfD(3,6) [OF wf]
  show ?thesis
  proof (cases r)
    case (Inl e)
    then show ?thesis
      by (auto simp: session_header_def c p par Let_def intro!: wf_loop_ended [OF wf k]
          dest: loop_exit_open [THEN subsetD])
  next
    case (Inr maybe)
    then show ?thesis
      using tasks by (cases maybe) (auto simp: session_header_def c p par Let_def
          intro!: wf_loop_moved [OF wf k])
  qed
qed

lemma wf_session_granted:
  assumes wf: "server_wf cfg s" and k: "loop_at s k = Some l" and pc: "l_pc l = L_WaitMem hdr"
  shows "server_wf cfg (session_granted k hdr s)"
proof -
  have "parser_of s (l_conn l) = Some 0"
    using server_wfD(7) [OF wf, of l] k pc by (auto simp: loop_at_Some)
  then show ?thesis
    unfolding session_granted_def using server_wfD(3,6) [OF wf]
    by (intro wf_loop_moved [OF wf k]) (auto simp: fun_upd_idem)
qed

text \<open>A dispatch adds at most one fiber and enters the gate once for it.\<close>

lemma do_dispatch_sel [simp]:
  "loops (do_dispatch_rpc cfg i n ctx s) = loops s"
  "connection_idx (do_dispatch_rpc cfg i n ctx s) = connection_idx s"
  "max_memory (limits (do_dispatch_rpc cfg i n ctx s)) = max_memory (limits s)"
  "live (do_dispatch_rpc cfg i n ctx s) = live s"
  "sent_of (do_dispatch_rpc cfg i n ctx s) = sent_of s"
  "writing_of (do_dispatch_rpc cfg i n ctx s) = writing_of s"
  "failed_of (do_dispatch_rpc cfg i n ctx s) = failed_of s"
  "parser_of (do_dispatch_rpc cfg i n ctx s) = parser_of s"
  by (simp_all add: do_dispatch_rpc_def Let_def split: option.splits)

lemma do_dispatch_open: "open_connections (do_dispatch_rpc cfg i n ctx s) \<subseteq> open_connections s"
  by (auto simp: do_dispatch_rpc_def Let_def split: option.splits
      dest: finish_dispatch_open [THEN subsetD])

lemma do_dispatch_tasks:
  obtains (refused) "tasks (do_dispatch_rpc cfg i n ctx s) = tasks s"
      "gate_count (do_dispatch_rpc cfg i n ctx s) = gate_count s - 1"
      "resources_available (limits (do_dispatch_rpc cfg i n ctx s)) =
         resources_available (limits s) + n"
  | (started) h where "get_handle_for_request (routes cfg) (request_id ctx) = Some h"
      "request_id ctx \<noteq> 0"
      "tasks (do_dispatch_rpc cfg i n ctx s) =
         tasks s @ [\<lparr>t_conn = i, t_payload_size = n, t_pc = T_InFilters ctx h\<rparr>]"
      "gate_count (do_dispatch_rpc cfg i n ctx s) = gate_count s"
      "resources_available (limits (do_dispatch_rpc cfg i n ctx s)) = resources_available (limits s)"
proof (cases "request_id ctx = 0")
  case True
  then show ?thesis by (intro refused) (simp_all add: do_dispatch_rpc_def)
next
  case False
  then show ?thesis
    by (cases "get_handle_for_request (routes cfg) (request_id ctx)")
      (auto simp: do_dispatch_rpc_def Let_def intro: that)
qed

text \<open>The four ways a payload read ends.\<close>

lemma session_payload_cases:
  assumes c: "conns s i = Some c"
  obtains (failed) e s1 where "rd = Inl e" "session_payload cfg k i hdr rd s = loop_throw k i s1"
      "s1 = upd_conn i (\<lambda>x. x\<lparr>conn := note_read (unat (hdr_size hdr)) rd (conn c)\<rparr>) s"
  | (unparsed) bs s1 where "rd = Inr bs"
      "check_payload (checksum_fn cfg) (remote_address (conn c)) hdr bs = None"
      "session_payload cfg k i hdr rd s = set_loop k L_Check
         (conn_set_error i ''Could not parse payload'' (signal (sint (hdr_size hdr)) s1))"
      "s1 = upd_conn i (\<lambda>x. x\<lparr>conn := note_read (unat (hdr_size hdr)) rd (conn c)\<rparr>) s"
  | (stopped) bs ctx s1 where "rd = Inr bs" "gate_closed s"
      "check_payload (checksum_fn cfg) (remote_address (conn c)) hdr bs = Some ctx"
      "session_payload cfg k i hdr rd s = loop_throw k i s1"
      "s1 = upd_conn i (\<lambda>x. x\<lparr>conn := note_read (unat (hdr_size hdr)) rd (conn c)\<rparr>) s"
  | (dispatched) bs ctx s1 where "rd = Inr bs" "\<not> gate_closed s"
      "check_payload (checksum_fn cfg) (remote_address (conn c)) hdr bs = Some ctx"
      "session_payload cfg k i hdr rd s = set_loop k L_Check
         (do_dispatch_rpc cfg i (sint (hdr_size hdr)) ctx (s1\<lparr>gate_count := gate_count s1 + 1\<rparr>))"
      "s1 = upd_conn i (\<lambda>x. x\<lparr>conn := note_read (unat (hdr_size hdr)) rd (conn c)\<rparr>) s"
proof (cases rd)
  case (Inl e)
  then show ?thesis
    using c by (intro failed) (simp_all add: session_payload_def parse_payload_done_def)
next
  case (Inr bs)
  show ?thesis
  proof (cases "check_payload (checksum_fn cfg) (remote_address (conn c)) hdr bs")
    case None
    with Inr show ?thesis
      using c by (intro unparsed)
        (simp_all add: session_payload_def parse_payload_done_def dispatch_rpc_def)
  next
    case (Some ctx)
    show ?thesis
    proof (cases "gate_closed s")
      case True
      with Inr Some show ?thesis
        using c by (intro stopped)
          (simp_all add: session_payload_def parse_payload_done_def dispatch_rpc_def)
    next
      case False
      with Inr Some show ?thesis
        using c by (intro dispatched)
          (simp_all add: session_payload_def parse_payload_done_def dispatch_rpc_def)
    qed
  qed
qed

lemma note_read_parser:
  "conns s i = Some c \<Longrightarrow>
     parser_of (upd_conn i (\<lambda>x. x\<lparr>conn := note_read n rd (conn c)\<rparr>) s) = parser_of s"
  by (simp add: parser_of_upd_conn_fun) (simp add: parser_of_def fun_upd_idem)

lemma wf_session_payload:
  assumes wf: "server_wf cfg s" and k: "loop_at s k = Some l" and pc: "l_pc l = L_Payload hdr"
  shows "server_wf cfg (session_payload cfg k (l_conn l) hdr rd s)"
proof -
  obtain c where c: "conns s (l_conn l) = Some c" using loop_conn [OF wf k] by metis
  have p0: "parser_of s (l_conn l) = Some 0"
    using server_wfD(7) [OF wf, of l] k pc by (auto simp: loop_at_Some)
  note tasks = server_wfD(3,6) [OF wf]
  have li: "l_conn l \<in> live s" using c by (auto simp: live_def)
  show ?thesis
    using c
  proof (cases rule: session_payload_cases [of _ _ _ rd cfg k hdr])
    case (failed e s1)
    then show ?thesis
      by (auto intro!: wf_loop_ended [OF wf k] simp: note_read_parser [OF c]
          dest: loop_exit_open [THEN subsetD])
  next
    case (unparsed bs s1)
    with p0 tasks show ?thesis
      by (auto intro!: wf_loop_moved [OF wf k] simp: note_read_parser [OF c] fun_upd_idem)
  next
    case (stopped bs ctx s1)
    then show ?thesis
      by (auto intro!: wf_loop_ended [OF wf k] simp: note_read_parser [OF c]
          dest: loop_exit_open [THEN subsetD])
  next
    case (dispatched bs ctx s1)
    let ?d = "do_dispatch_rpc cfg (l_conn l) (sint (hdr_size hdr)) ctx
                (s1\<lparr>gate_count := gate_count s1 + 1\<rparr>)"
    have "t_conn ` set (tasks ?d) \<subseteq> live s" "gate_count ?d = length (tasks ?d)"
      using tasks li dispatched(5)
      by (cases rule: do_dispatch_tasks [of cfg "l_conn l" "sint (hdr_size hdr)" ctx
            "s1\<lparr>gate_count := gate_count s1 + 1\<rparr>"]; auto)+
    moreover have "open_connections ?d \<subseteq> open_connections s"
      using do_dispatch_open [of cfg "l_conn l" "sint (hdr_size hdr)" ctx
          "s1\<lparr>gate_count := gate_count s1 + 1\<rparr>"] dispatched(5) by simp
    ultimately show ?thesis
      unfolding dispatched(4) using p0 dispatched(5)
      by (intro wf_loop_moved [OF wf k]) (auto simp: note_read_parser [OF c] fun_upd_idem)
  qed
qed

lemma wf_session_timeout:
  assumes wf: "server_wf cfg s" and k: "loop_at s k = Some l"
  shows "server_wf cfg (session_timeout k (l_conn l) s)"
  by (auto simp: session_timeout_def intro!: wf_loop_ended [OF wf k]
      dest: loop_exit_open [THEN subsetD])

lemma accept_sel [simp]:
  "limits (accept_connection a s) = limits s" "tasks (accept_connection a s) = tasks s"
  "gate_count (accept_connection a s) = gate_count s"
  "connection_idx (accept_connection a s) = connection_idx s + 1"
  "loops (accept_connection a s) = loops s @ [\<lparr>l_conn = connection_idx s + 1, l_pc = L_Check\<rparr>]"
  "open_connections (accept_connection a s) = insert (connection_idx s + 1) (open_connections s)"
  "conns (accept_connection a s) =
     (conns s)(connection_idx s + 1 \<mapsto> rpc_server_connection_new a)"
  "live (accept_connection a s) = insert (connection_idx s + 1) (live s)"
  by (simp_all add: accept_connection_def Let_def live_def)

lemma accept_fresh:
  assumes "server_wf cfg s" and "connection_idx s \<noteq> - 1"
  shows "connection_idx s + 1 \<notin> live s"
    and "i \<in> insert (connection_idx s + 1) (live s) \<Longrightarrow> i \<le> connection_idx s + 1"
proof -
  have "connection_idx s < connection_idx s + 1"
    using assms(2) by (simp add: word_less_succ)
  then show "connection_idx s + 1 \<notin> live s"
    and "i \<in> insert (connection_idx s + 1) (live s) \<Longrightarrow> i \<le> connection_idx s + 1"
    using server_wfD(5) [OF assms(1)] 
    by (blast dest: leD, auto intro: order_trans less_imp_le)
qed

lemma wf_accept:
  assumes wf: "server_wf cfg s" and idx: "connection_idx s \<noteq> - 1"
  shows "server_wf cfg (accept_connection a s)"
proof -
  note fresh = accept_fresh [OF wf idx]
  have "parser_of (accept_connection a s) = (parser_of s)(connection_idx s + 1 \<mapsto> 0)"
    by (auto simp: parser_of_def fun_eq_iff rpc_server_connection_new_def rpc_connection_new_def)
  moreover have "connection_idx s + 1 \<notin> l_conn ` set (loops s)"
    using server_wfD(2) [OF wf] fresh(1) by auto
  ultimately show ?thesis
    using wf fresh(2) by (auto simp: server_wf_def image_iff)
qed

lemma destroy_sel [simp]:
  "limits (destroy_connection i s) = limits s" "tasks (destroy_connection i s) = tasks s"
  "gate_count (destroy_connection i s) = gate_count s" "loops (destroy_connection i s) = loops s"
  "connection_idx (destroy_connection i s) = connection_idx s"
  "open_connections (destroy_connection i s) = open_connections s"
  "conns (destroy_connection i s) = (conns s)(i := None)"
  "live (destroy_connection i s) = live s - {i}"
  by (simp_all add: destroy_connection_def live_def)

lemma wf_destroy:
  assumes wf: "server_wf cfg s" and "\<not> referenced s i"
  shows "server_wf cfg (destroy_connection i s)"
proof -
  have "parser_of (destroy_connection i s) = (parser_of s)(i := None)"
    by (auto simp: parser_of_def fun_eq_iff)
  then show ?thesis using assms by (auto simp: server_wf_def referenced_def)
qed

lemma stop_sel [simp]:
  "limits (stop_connections s) = limits s" "stats (stop_connections s) = stats s"
  "tasks (stop_connections s) = tasks s" "gate_count (stop_connections s) = gate_count s"
  "loops (stop_connections s) = loops s" "connection_idx (stop_connections s) = connection_idx s"
  "open_connections (stop_connections s) = open_connections s"
  "live (stop_connections s) = live s" "sent_of (stop_connections s) = sent_of s"
  "writing_of (stop_connections s) = writing_of s" "failed_of (stop_connections s) = failed_of s"
  "parser_of (stop_connections s) = parser_of s"
  by (auto simp: stop_connections_def projections fun_eq_iff option.map_comp comp_def
      split: if_splits)

lemma accept_end_sel [simp]:
  "limits (stop_accept s) = limits s" "limits (accept_loop_end s) = limits s"
  "stats (stop_accept s) = stats s" "stats (accept_loop_end s) = stats s"
  "tasks (stop_accept s) = tasks s" "tasks (accept_loop_end s) = tasks s"
  "gate_count (stop_accept s) = gate_count s" "gate_count (accept_loop_end s) = gate_count s"
  "loops (stop_accept s) = loops s" "loops (accept_loop_end s) = loops s"
  "connection_idx (stop_accept s) = connection_idx s"
  "connection_idx (accept_loop_end s) = connection_idx s"
  "open_connections (stop_accept s) = open_connections s"
  "open_connections (accept_loop_end s) = open_connections s"
  "conns (stop_accept s) = conns s" "conns (accept_loop_end s) = conns s"
  by (simp_all add: stop_accept_def accept_loop_end_def)

lemmas accept_end_proj [simp] =
  conns_proj_cong [of "stop_accept s" s for s, OF accept_end_sel(15)]
  conns_proj_cong [of "accept_loop_end s" s for s, OF accept_end_sel(16)]

lemma wf_cong:
  "server_wf cfg s \<Longrightarrow> live s' = live s \<Longrightarrow> parser_of s' = parser_of s \<Longrightarrow> tasks s' = tasks s \<Longrightarrow>
     gate_count s' = gate_count s \<Longrightarrow> loops s' = loops s \<Longrightarrow> connection_idx s' = connection_idx s \<Longrightarrow>
     open_connections s' = open_connections s \<Longrightarrow> server_wf cfg s'"
  by (simp add: server_wf_def)


lemmas dispatch_defs = dispatch_filtered_def dispatch_handled_def dispatch_reply_def
  send_header_def send_body_def send_flush_def dispatch_flush_def write_error_def

text \<open>A step of a request's fiber moves it or ends it, and touches no other fiber.\<close>

definition task_moves :: "server \<Rightarrow> nat \<Rightarrow> task \<Rightarrow> server \<Rightarrow> bool" where
  "task_moves s k t s' \<longleftrightarrow>
     ((\<exists>p. tasks s' = (tasks s)[k := t\<lparr>t_pc := p\<rparr>]) \<and> gate_count s' = gate_count s \<and>
        resources_available (limits s') = resources_available (limits s) \<or>
      tasks s' = remove_nth k (tasks s) \<and> gate_count s' = gate_count s - 1 \<and>
        resources_available (limits s') = resources_available (limits s) + t_payload_size t) \<and>
     open_connections s' \<subseteq> open_connections s \<and> live s' = live s \<and> loops s' = loops s \<and>
     parser_of s' = parser_of s \<and> connection_idx s' = connection_idx s \<and>
     max_memory (limits s') = max_memory (limits s) \<and> gate_closed s' = gate_closed s"

lemma task_moves_set_task:
  "task_at s k = Some t \<Longrightarrow> tasks s1 = tasks s \<Longrightarrow> gate_count s1 = gate_count s \<Longrightarrow>
     limits s1 = limits s \<Longrightarrow> open_connections s1 = open_connections s \<Longrightarrow> live s1 = live s \<Longrightarrow>
     loops s1 = loops s \<Longrightarrow> parser_of s1 = parser_of s \<Longrightarrow> connection_idx s1 = connection_idx s \<Longrightarrow>
     gate_closed s1 = gate_closed s \<Longrightarrow> task_moves s k t (set_task k p s1)"
  by (auto simp: task_moves_def task_at_Some)

lemma task_moves_end:
  "task_at s k = Some t \<Longrightarrow> tasks s1 = tasks s \<Longrightarrow> gate_count s1 = gate_count s \<Longrightarrow>
     limits s1 = limits s \<Longrightarrow> open_connections s1 = open_connections s \<Longrightarrow> live s1 = live s \<Longrightarrow>
     loops s1 = loops s \<Longrightarrow> parser_of s1 = parser_of s \<Longrightarrow> connection_idx s1 = connection_idx s \<Longrightarrow>
     gate_closed s1 = gate_closed s \<Longrightarrow> task_moves s k t (task_end ok k t s1)"
  using task_end_open [of ok k t s1] by (simp add: task_moves_def)

lemma task_steps_move:
  assumes "task_at s k = Some t"
  shows "task_moves s k t (dispatch_filtered k t h rc s)"
    "task_moves s k t (dispatch_handled k t re s)" "task_moves s k t (dispatch_reply k t re s)"
    "task_moves s k t (send_header cfg k t e w s)" "task_moves s k t (send_body k t e w s)"
    "task_moves s k t (send_flush k t w s)" "task_moves s k t (dispatch_flush k t w s)"
  using assms by (simp_all add: dispatch_defs task_moves_set_task task_moves_end
      split: sum.splits option.splits)

lemma task_moves_set:
  assumes "task_moves s k t s'" and "u \<in> set (tasks s')"
  obtains "u \<in> set (tasks s)" | p where "u = t\<lparr>t_pc := p\<rparr>"
proof -
  from assms consider p where "u \<in> set ((tasks s)[k := t\<lparr>t_pc := p\<rparr>])" | "u \<in> set (remove_nth k (tasks s))"
    by (auto simp: task_moves_def)
  then show ?thesis
    using that by cases (meson insert_iff set_update_subset_insert subsetD set_remove_nth)+
qed

lemma wf_task_moves:
  assumes wf: "server_wf cfg s" and k: "task_at s k = Some t" and m: "task_moves s k t s'"
  shows "server_wf cfg s'"
proof -
  have kl: "k < length (tasks s)" "t \<in> set (tasks s)" using k by (auto simp: task_at_Some)
  have "t_conn u \<in> live s" if "u \<in> set (tasks s')" for u
    using m that by (rule task_moves_set) (use server_wfD(3) [OF wf] kl in auto)
  moreover have "gate_count s' = length (tasks s')"
    using m kl server_wfD(6) [OF wf] by (auto simp: task_moves_def)
  ultimately show ?thesis using wf m by (auto simp: server_wf_def task_moves_def)
qed

lemmas wf_task_steps = wf_task_moves [OF _ _ task_steps_move(1)]
  wf_task_moves [OF _ _ task_steps_move(2)] wf_task_moves [OF _ _ task_steps_move(3)]
  wf_task_moves [OF _ _ task_steps_move(4)] wf_task_moves [OF _ _ task_steps_move(5)]
  wf_task_moves [OF _ _ task_steps_move(6)] wf_task_moves [OF _ _ task_steps_move(7)]

interpretation wf: machine_invariant server_init server_step server_wf
proof
  fix cfg s
  assume "server_init cfg s"
  then show "server_wf cfg s"
    by (auto simp: server_init_def rpc_server_new_def server_wf_def live_def)
next
  fix cfg s e t
  assume wf: "server_wf cfg s" and "server_step cfg e s = Some t"
  from this(2) show "server_wf cfg t"
  proof (cases rule: server_step_cases)
    case (destroy i)
    with wf show ?thesis by (simp add: wf_destroy)
  next
    case aborted
    with wf show ?thesis by (auto intro: wf_cong)
  next
    case accept_end
    with wf show ?thesis by (auto intro: wf_cong)
  next
    case stop
    with wf show ?thesis by (auto intro: wf_cong)
  qed (simp_all add: wf wf_accept wf_loop_check wf_session_header wf_session_granted
      wf_session_payload wf_session_timeout wf_task_steps)
qed

section \<open>Memory\<close>

text \<open>
  The memory a fiber holds: a connection that was granted memory and reads its payload, and a
  dispatched request until it is finished.
\<close>

definition loop_held :: "loop \<Rightarrow> int" where
  "loop_held l = (case l_pc l of L_Payload hdr \<Rightarrow> int (unat (hdr_size hdr)) | _ \<Rightarrow> 0)"

definition held :: "server \<Rightarrow> int" where
  "held s = (\<Sum>l\<leftarrow>loops s. loop_held l) + (\<Sum>t\<leftarrow>tasks s. t_payload_size t)"

abbreviation avail :: "server \<Rightarrow> int" where
  "avail s \<equiv> resources_available (limits s)"

abbreviation memory_limit :: "server \<Rightarrow> int" where
  "memory_limit s \<equiv> uint (max_memory (limits s))"

lemma loop_held_nonneg: "0 \<le> loop_held l"
  by (simp add: loop_held_def split: loop_pc.split)

lemma loop_held_simps [simp]:
  "l_pc l = L_Check \<Longrightarrow> loop_held l = 0" "l_pc l = L_Header \<Longrightarrow> loop_held l = 0"
  "l_pc l = L_WaitMem hdr \<Longrightarrow> loop_held l = 0"
  "l_pc l = L_Payload hdr \<Longrightarrow> loop_held l = int (unat (hdr_size hdr))"
  by (simp_all add: loop_held_def)

lemma loop_sum_update:
  "loop_at s k = Some l \<Longrightarrow> (\<Sum>x\<leftarrow>(loops s)[k := m]. loop_held x) =
     (\<Sum>x\<leftarrow>loops s. loop_held x) - loop_held l + loop_held m"
  by (simp add: loop_at_Some map_update sum_list_list_update)

lemma loop_sum_remove:
  "loop_at s k = Some l \<Longrightarrow> (\<Sum>x\<leftarrow>remove_nth k (loops s). loop_held x) =
     (\<Sum>x\<leftarrow>loops s. loop_held x) - loop_held l"
  by (simp add: loop_at_Some map_remove_nth sum_list_remove_nth)

lemma task_sum_update:
  "task_at s k = Some t \<Longrightarrow> (\<Sum>x\<leftarrow>(tasks s)[k := u]. t_payload_size x) =
     (\<Sum>x\<leftarrow>tasks s. t_payload_size x) - t_payload_size t + t_payload_size u"
  by (simp add: task_at_Some map_update sum_list_list_update)

lemma task_sum_remove:
  "task_at s k = Some t \<Longrightarrow> (\<Sum>x\<leftarrow>remove_nth k (tasks s). t_payload_size x) =
     (\<Sum>x\<leftarrow>tasks s. t_payload_size x) - t_payload_size t"
  by (simp add: task_at_Some map_remove_nth sum_list_remove_nth)

lemmas held_sums = loop_sum_update loop_sum_remove task_sum_update task_sum_remove

text \<open>
  The events after which the code gives back all the memory it took: not a payload read that timed
  out or failed, and not the closing of the gate.
\<close>

definition lossless :: "event \<Rightarrow> bool" where
  "lossless ev = (case ev of
     Payload_timeout _ \<Rightarrow> False
   | Payload_read _ rd \<Rightarrow> (case rd of Inl _ \<Rightarrow> False | Inr _ \<Rightarrow> True)
   | Stop_connections \<Rightarrow> False
   | _ \<Rightarrow> True)"

text \<open>A step other than a grant or a payload read keeps the sum and gives memory back.\<close>

definition memory_same :: "server \<Rightarrow> server \<Rightarrow> bool" where
  "memory_same s s' \<longleftrightarrow>
     max_memory (limits s') = max_memory (limits s) \<and> avail s' + held s' = avail s + held s"

lemma memory_task_moves:
  assumes k: "task_at s k = Some t" and m: "task_moves s k t s'"
  shows "memory_same s s'"
  using m by (auto simp: memory_same_def task_moves_def held_def task_sum_update [OF k]
      task_sum_remove [OF k])

lemma memory_granted:
  assumes "loop_at s k = Some l" and "l_pc l = L_WaitMem hdr"
  shows "memory_same s (session_granted k hdr s)"
  using assms by (simp add: memory_same_def session_granted_def held_def held_sums)

lemma memory_header:
  assumes wf: "server_wf cfg s" and k: "loop_at s k = Some l" and pc: "l_pc l = L_Header"
  shows "memory_same s (session_header k (l_conn l) rd s)"
proof -
  obtain c where c: "conns s (l_conn l) = Some c" using loop_conn [OF wf k] by metis
  obtain c' r where p: "parse_header_done rd (conn c) = (c', r)" by fastforce
  show ?thesis
    using k pc by (auto simp: session_header_def c p Let_def memory_same_def held_def held_sums
        split: sum.splits option.splits)
qed

lemma memory_check:
  assumes wf: "server_wf cfg s" and k: "loop_at s k = Some l" and pc: "l_pc l = L_Check"
  shows "memory_same s (loop_check cfg k (l_conn l) s)"
proof -
  obtain c where c: "conns s (l_conn l) = Some c" using loop_conn [OF wf k] by metis
  show ?thesis
    using k pc unfolding loop_check_valid [OF wf k pc c]
    by (auto simp: memory_same_def held_def held_sums)
qed

lemma sint_le_unat: "sint (w :: u32) \<le> int (unat w)"
  by (cases "unat w < 2147483648") (simp_all add: sint_u32_small sint_u32_large)

lemma check_payload_sint:
  "check_payload xxh a hdr bs = Some ctx \<Longrightarrow> sint (hdr_size hdr) = int (unat (hdr_size hdr))"
  by (rule sint_u32_small) (auto simp: check_payload_Some header_describes_def)

text \<open>The four outcomes of a payload read: two of them lose the memory.\<close>

lemma memory_payload:
  assumes wf: "server_wf cfg s" and k: "loop_at s k = Some l" and pc: "l_pc l = L_Payload hdr"
    and s'_def: "s' = session_payload cfg k (l_conn l) hdr rd s"
  shows "max_memory (limits s') = max_memory (limits s)"
    and "avail s' + held s' \<le> avail s + held s" and "held s' \<le> held s"
    and "\<And>t. t \<in> set (tasks s') \<Longrightarrow> t \<in> set (tasks s) \<or> 0 \<le> t_payload_size t"
    and "lossless (Payload_read k rd) \<Longrightarrow> \<not> gate_closed s \<Longrightarrow> unat (hdr_size hdr) < 2147483648 \<Longrightarrow>
      avail s' + held s' = avail s + held s"
proof -
  obtain c where c: "conns s (l_conn l) = Some c" using loop_conn [OF wf k] by metis
  let ?goal = "max_memory (limits s') = max_memory (limits s) \<and>
    avail s' + held s' \<le> avail s + held s \<and> held s' \<le> held s \<and>
    (\<forall>t \<in> set (tasks s'). t \<in> set (tasks s) \<or> 0 \<le> t_payload_size t) \<and>
    (lossless (Payload_read k rd) \<longrightarrow> \<not> gate_closed s \<longrightarrow> unat (hdr_size hdr) < 2147483648 \<longrightarrow>
      avail s' + held s' = avail s + held s)"
  have ?goal
    using c
  proof (cases rule: session_payload_cases [of _ _ _ rd cfg k hdr])
    case (failed e s1)
    with k pc show ?thesis by (simp add: s'_def held_def held_sums lossless_def)
  next
    case (unparsed bs s1)
    with k pc sint_le_unat [of "hdr_size hdr"] show ?thesis
      by (auto simp: s'_def held_def held_sums sint_u32_small)
  next
    case (stopped bs ctx s1)
    with k pc show ?thesis by (simp add: s'_def held_def held_sums)
  next
    case (dispatched bs ctx s1)
    note sz = check_payload_sint [OF dispatched(3)]
    show ?thesis
      using k pc dispatched(5) sz unfolding s'_def dispatched(4)
      by (cases rule: do_dispatch_tasks [of cfg "l_conn l" "sint (hdr_size hdr)" ctx
            "s1\<lparr>gate_count := gate_count s1 + 1\<rparr>"]) (auto simp: held_def held_sums)
  qed
  then show "max_memory (limits s') = max_memory (limits s)"
    and "avail s' + held s' \<le> avail s + held s" and "held s' \<le> held s"
    and "\<And>t. t \<in> set (tasks s') \<Longrightarrow> t \<in> set (tasks s) \<or> 0 \<le> t_payload_size t"
    and "lossless (Payload_read k rd) \<Longrightarrow> \<not> gate_closed s \<Longrightarrow> unat (hdr_size hdr) < 2147483648 \<Longrightarrow>
      avail s' + held s' = avail s + held s" by blast+
qed

definition memory_inv :: "server_cfg \<Rightarrow> server \<Rightarrow> bool" where
  "memory_inv cfg s \<longleftrightarrow>
     server_wf cfg s \<and> (\<forall>t \<in> set (tasks s). 0 \<le> t_payload_size t) \<and>
     held s \<le> memory_limit s \<and> avail s + held s \<le> memory_limit s"

definition memory_exact :: "server_cfg \<Rightarrow> server \<Rightarrow> bool" where
  "memory_exact cfg s \<longleftrightarrow>
     memory_inv cfg s \<and> memory_limit s < 2147483648 \<and> \<not> gate_closed s \<and>
     avail s + held s = memory_limit s"

lemma held_nonneg: "memory_inv cfg s \<Longrightarrow> 0 \<le> held s"
  unfolding held_def
  by (intro add_nonneg_nonneg sum_list_nonneg) (auto simp: memory_inv_def loop_held_nonneg)

lemma loop_held_le:
  assumes "memory_inv cfg s" and "loop_at s k = Some l"
  shows "loop_held l \<le> memory_limit s"
proof -
  have "l \<in> set (loops s)" using assms(2) by (auto simp: loop_at_Some)
  then have "loop_held l \<le> (\<Sum>x\<leftarrow>loops s. loop_held x)"
    by (intro sum_list_member_le) (simp_all add: loop_held_nonneg)
  moreover have "0 \<le> (\<Sum>t\<leftarrow>tasks s. t_payload_size t)"
    using assms(1) by (intro sum_list_nonneg) (auto simp: memory_inv_def)
  ultimately show ?thesis using assms(1) by (simp add: memory_inv_def held_def)
qed

text \<open>The step of a request's fiber does not add to what is held.\<close>

lemma held_task_moves:
  assumes k: "task_at s k = Some t" and m: "task_moves s k t s'"
    and sz: "\<forall>t \<in> set (tasks s). 0 \<le> t_payload_size t"
  shows "held s' \<le> held s" and "\<forall>t \<in> set (tasks s'). 0 \<le> t_payload_size t"
proof -
  have t: "t \<in> set (tasks s)" using k by (auto simp: task_at_Some)
  then show "held s' \<le> held s"
    using m sz by (auto simp: task_moves_def held_def task_sum_update [OF k] task_sum_remove [OF k])
  show "\<forall>u \<in> set (tasks s'). 0 \<le> t_payload_size u"
  proof
    fix u
    assume "u \<in> set (tasks s')"
    with m show "0 \<le> t_payload_size u" by (rule task_moves_set) (use t sz in auto)
  qed
qed

text \<open>What every step does to the memory, and what a lossless one does.\<close>

definition memory_steps :: "bool \<Rightarrow> server \<Rightarrow> server \<Rightarrow> bool" where
  "memory_steps exact s s' \<longleftrightarrow>
     max_memory (limits s') = max_memory (limits s) \<and> avail s' + held s' \<le> avail s + held s \<and>
     (held s' \<le> held s \<or> held s' \<le> held s + avail s) \<and>
     (\<forall>t \<in> set (tasks s'). 0 \<le> t_payload_size t) \<and>
     (exact \<longrightarrow> avail s' + held s' = avail s + held s \<and> gate_closed s' = gate_closed s)"

lemma memory_steps_same:
  "memory_same s s' \<Longrightarrow> held s' \<le> held s \<Longrightarrow> \<forall>t \<in> set (tasks s'). 0 \<le> t_payload_size t \<Longrightarrow>
     gate_closed s' = gate_closed s \<Longrightarrow> memory_steps exact s s'"
  by (simp add: memory_steps_def memory_same_def)

lemma memory_steps_task:
  assumes "task_at s k = Some t" and "task_moves s k t s'"
    and "\<forall>t \<in> set (tasks s). 0 \<le> t_payload_size t"
  shows "memory_steps exact s s'"
  using memory_task_moves [OF assms(1,2)] held_task_moves [OF assms] assms(2)
  by (intro memory_steps_same) (auto simp: task_moves_def)

lemma payload_gate_closed:
  assumes "conns s (l_conn l) = Some c"
  shows "gate_closed (session_payload cfg k (l_conn l) hdr rd s) = gate_closed s"
proof -
  have "gate_closed (do_dispatch_rpc cfg i n ctx u) = gate_closed u" for i n ctx u
    by (simp add: do_dispatch_rpc_def Let_def split: option.splits)
  with assms show ?thesis by (cases rule: session_payload_cases [of _ _ _ rd cfg k hdr]) auto
qed

lemma loop_step_tasks:
  "tasks (session_header k i rd s) = tasks s" "gate_closed (session_header k i rd s) = gate_closed s"
  "limits (session_header k i rd s) = limits s"
  "tasks (loop_check cfg k i s) = tasks s" "gate_closed (loop_check cfg k i s) = gate_closed s"
  "limits (loop_check cfg k i s) = limits s"
  by (simp_all add: session_header_def loop_check_def Let_def
      split: option.splits sum.splits prod.splits)

lemma memory_step:
  assumes inv: "memory_inv cfg s" and "server_step cfg ev s = Some s'"
    and exact: "exact \<Longrightarrow> lossless ev \<and> \<not> gate_closed s \<and> memory_limit s < 2147483648"
  shows "memory_steps exact s s'"
proof -
  have wf: "server_wf cfg s" and sz: "\<forall>t \<in> set (tasks s). 0 \<le> t_payload_size t"
    using inv by (simp_all add: memory_inv_def)
  from assms(2) show ?thesis
  proof (cases rule: server_step_cases)
    case (accept a)
    with sz show ?thesis by (simp add: memory_steps_def held_def accept_connection_def Let_def)
  next
    case (check k l)
    with memory_check [OF wf check(1,2)] sz show ?thesis
      by (intro memory_steps_same) (simp_all add: loop_step_tasks memory_same_def)
  next
    case (hdr_read k l rd)
    with memory_header [OF wf hdr_read(1,2), of rd] sz show ?thesis
      by (intro memory_steps_same) (simp_all add: loop_step_tasks memory_same_def)
  next
    case (granted k l hdr)
    with memory_granted [OF granted(1,2)] sz show ?thesis
      by (auto simp: memory_steps_def memory_same_def session_granted_def held_def held_sums)
  next
    case (payload k l hdr rd)
    obtain c where c: "conns s (l_conn l) = Some c" using loop_conn [OF wf payload(1)] by metis
    note m = memory_payload [OF wf payload(1,2,4)]
    have "int (unat (hdr_size hdr)) \<le> memory_limit s"
      using loop_held_le [OF inv payload(1)] payload(2) by simp
    then have "exact \<Longrightarrow> unat (hdr_size hdr) < 2147483648" using exact by linarith
    with m sz exact payload show ?thesis
      by (auto simp: memory_steps_def payload_gate_closed [OF c])
  next
    case (timed_out k l hdr)
    have "0 \<le> loop_held l" by (rule loop_held_nonneg)
    with timed_out sz exact show ?thesis
      by (auto simp: memory_steps_def session_timeout_def held_def held_sums lossless_def)
  next
    case stop
    with sz exact show ?thesis by (auto simp: memory_steps_def held_def lossless_def)
  next
    case (destroy i)
    with sz show ?thesis by (simp add: memory_steps_def held_def destroy_connection_def)
  next
    case aborted
    with sz show ?thesis by (simp add: memory_steps_def held_def stop_accept_def)
  next
    case accept_end
    with sz show ?thesis by (simp add: memory_steps_def held_def accept_loop_end_def)
  qed (simp_all add: memory_steps_task [OF _ _ sz] task_steps_move)
qed

lemma memory_inv_init: "server_init cfg s \<Longrightarrow> memory_inv cfg s"
  using wf.inv_init
  by (auto simp: memory_inv_def server_init_def rpc_server_new_def held_def
      rpc_connection_limits_new_def)

interpretation memory: machine_invariant server_init server_step memory_inv
proof
  fix cfg s e t
  assume inv: "memory_inv cfg s" and step: "server_step cfg e s = Some t"
  have "memory_steps False s t" using memory_step [OF inv step, of False] by simp
  moreover have "server_wf cfg t" using wf.inv_step inv step by (auto simp: memory_inv_def)
  ultimately show "memory_inv cfg t" using inv by (auto simp: memory_inv_def memory_steps_def)
qed (rule memory_inv_init)

definition small_init :: "server_cfg \<Rightarrow> server \<Rightarrow> bool" where
  "small_init cfg s \<longleftrightarrow> server_init cfg s \<and> memory_limit s < 2147483648"

definition lossless_step :: "server_cfg \<Rightarrow> event \<Rightarrow> server \<Rightarrow> server option" where
  "lossless_step cfg = only_events lossless (server_step cfg)"

interpretation exact: machine_invariant small_init lossless_step memory_exact
proof
  fix cfg s
  assume "small_init cfg s"
  then show "memory_exact cfg s"
    using memory_inv_init [of cfg s]
    by (auto simp: small_init_def memory_exact_def server_init_def rpc_server_new_def held_def
        rpc_connection_limits_new_def)
next
  fix cfg s e t
  assume ex: "memory_exact cfg s" and "lossless_step cfg e s = Some t"
  then have l: "lossless e" and step: "server_step cfg e s = Some t"
    by (auto simp: lossless_step_def only_events_def split: if_splits)
  have "memory_inv cfg s" using ex by (simp add: memory_exact_def)
  then have "memory_steps True s t" and "memory_inv cfg t"
    using memory_step [OF _ step, of True] memory.inv_step [OF _ step] ex l
    by (simp_all add: memory_exact_def)
  then show "memory_exact cfg t" using ex by (auto simp: memory_exact_def memory_steps_def)
qed

end
