(* ===== verification/Rpc_Server_Replies.thy ===== *)
theory Rpc_Server_Replies
  imports Rpc_Server_Invariants
begin

text \<open>
  What the server answers: every reply on the wire of a connection is the outgoing-filtered result
  of the handler that the router has for a request which was received whole, with the right
  checksum, and which the incoming filters left uncompressed; and the bytes of two replies are
  never interleaved.
\<close>

section \<open>Replies\<close>

text \<open>A request the receiver accepted.\<close>

definition request_ok :: "server_cfg \<Rightarrow> rpc_recv_context \<Rightarrow> bool" where
  "request_ok cfg ctx \<longleftrightarrow> received_ok (checksum_fn cfg) ctx"

text \<open>The handler \<open>h\<close> is run on \<open>ctx\<close> for the request \<open>ctx0\<close>.\<close>

definition handled_by ::
  "server_cfg \<Rightarrow> rpc_recv_context \<Rightarrow> rpc_recv_context \<Rightarrow> method_handle \<Rightarrow> bool" where
  "handled_by cfg ctx0 ctx h \<longleftrightarrow>
     request_ok cfg ctx0 \<and> get_handle_for_request (routes cfg) (request_id ctx0) = Some h \<and>
     apply_incoming_filters cfg ctx0 = Inr ctx \<and>
     hdr_compression (ctx_header ctx) = compression_flags_none"

definition reply_to :: "server_cfg \<Rightarrow> rpc_recv_context \<Rightarrow> rpc_envelope \<Rightarrow> bool" where
  "reply_to cfg ctx0 e \<longleftrightarrow> (\<exists>ctx h. handled_by cfg ctx0 ctx h \<and> h ctx = Inr e)"

definition answer :: "server_cfg \<Rightarrow> rpc_envelope \<Rightarrow> bool" where
  "answer cfg e \<longleftrightarrow> (\<exists>ctx0 e0. reply_to cfg ctx0 e0 \<and> apply_outgoing_filters cfg e0 = Inr e)"

section \<open>The invariant\<close>

definition loop_ok :: "loop \<Rightarrow> bool" where
  "loop_ok l = (case l_pc l of
     L_WaitMem hdr \<Rightarrow> header_checked hdr | L_Payload hdr \<Rightarrow> header_checked hdr | _ \<Rightarrow> True)"

definition task_ok :: "server_cfg \<Rightarrow> task \<Rightarrow> bool" where
  "task_ok cfg t = (case t_pc t of
     T_InFilters ctx h \<Rightarrow> request_ok cfg ctx \<and>
       get_handle_for_request (routes cfg) (request_id ctx) = Some h \<and>
       t_payload_size t = int (length (ctx_payload ctx))
   | T_Handler ctx h \<Rightarrow> (\<exists>ctx0. handled_by cfg ctx0 ctx h)
   | T_OutFilters e \<Rightarrow> (\<exists>ctx0. reply_to cfg ctx0 e)
   | T_WaitWrite e \<Rightarrow> answer cfg e
   | T_Body e \<Rightarrow> answer cfg e
   | T_SendFlush e \<Rightarrow> answer cfg e
   | T_Flush \<Rightarrow> True)"

definition loops_ok :: "server \<Rightarrow> bool" where
  "loops_ok s \<longleftrightarrow> (\<forall>l \<in> set (loops s). loop_ok l)"

definition tasks_ok :: "server_cfg \<Rightarrow> server \<Rightarrow> bool" where
  "tasks_ok cfg s \<longleftrightarrow> (\<forall>t \<in> set (tasks s). task_ok cfg t)"

text \<open>The fibers that hold \<^verbatim>\<open>serialize_writes\<close> of a connection, and what they have written so far.\<close>

definition critical :: "u64 \<Rightarrow> task \<Rightarrow> bool" where
  "critical i t \<longleftrightarrow> t_conn t = i \<and>
     (case t_pc t of T_Body _ \<Rightarrow> True | T_SendFlush _ \<Rightarrow> True | _ \<Rightarrow> False)"

definition crit :: "u64 \<Rightarrow> task list \<Rightarrow> nat" where
  "crit i ts = length (filter (critical i) ts)"

definition unfinished :: "u64 \<Rightarrow> task \<Rightarrow> bytes" where
  "unfinished i t =
     (if t_conn t = i then (case t_pc t of T_Body e \<Rightarrow> header_to_bytes (env_header e) | _ \<Rightarrow> [])
      else [])"

definition parts :: "u64 \<Rightarrow> task list \<Rightarrow> bytes" where
  "parts i ts = concat (map (unfinished i) ts)"

definition wire_ok :: "server_cfg \<Rightarrow> server \<Rightarrow> u64 \<Rightarrow> bool" where
  "wire_ok cfg s i \<longleftrightarrow>
     (\<forall>b. writing_of s i = Some b \<longrightarrow> crit i (tasks s) = of_bool b) \<and>
     (failed_of s i = Some False \<longrightarrow>
        (\<exists>es. (\<forall>e \<in> set es. answer cfg e) \<and>
           sent_of s i = Some (concat (map envelope_wire es) @ parts i (tasks s))))"

definition replies_inv :: "server_cfg \<Rightarrow> server \<Rightarrow> bool" where
  "replies_inv cfg s \<longleftrightarrow>
     server_wf cfg s \<and> loops_ok s \<and> tasks_ok cfg s \<and>
     (\<forall>i. wire_ok cfg s i)"

section \<open>Lists of fibers\<close>

lemma crit_simps [simp]:
  "crit i [] = 0" "crit i (t # ts) = of_bool (critical i t) + crit i ts"
  "crit i (ts @ us) = crit i ts + crit i us"
  by (simp_all add: crit_def)

lemma parts_simps [simp]:
  "parts i [] = []" "parts i (t # ts) = unfinished i t @ parts i ts"
  "parts i (ts @ us) = parts i ts @ parts i us"
  by (simp_all add: parts_def)

lemma not_critical [simp]: "\<not> critical i t \<Longrightarrow> unfinished i t = []"
  by (auto simp: critical_def unfinished_def split: task_pc.splits)

lemma parts_free [simp]: "crit i ts = 0 \<Longrightarrow> parts i ts = []"
  by (induction ts) auto

lemma parts_one:
  "crit i ts \<le> 1 \<Longrightarrow> parts i ts = [] \<or>
     (\<exists>t e. t \<in> set ts \<and> t_conn t = i \<and> t_pc t = T_Body e \<and> parts i ts = header_to_bytes (env_header e))"
proof (induction ts)
  case (Cons t ts)
  show ?case
  proof (cases "critical i t")
    case True
    with Cons.prems have "parts i ts = []" by simp
    then show ?thesis by (auto simp: unfinished_def split: task_pc.splits)
  next
    case False
    with Cons show ?thesis by auto
  qed
qed simp

lemma crit_absent: "(\<And>t. t \<in> set ts \<Longrightarrow> t_conn t \<noteq> i) \<Longrightarrow> crit i ts = 0"
  by (induction ts) (auto simp: critical_def)

lemma remove_nth_length [simp]: "remove_nth (length xs) (xs @ x # ys) = xs @ ys"
  by (simp add: remove_nth_def)

lemma task_split:
  assumes "task_at s k = Some t"
  obtains ts us where "tasks s = ts @ t # us" "k = length ts"
  using assms that [of "take k (tasks s)" "drop (Suc k) (tasks s)"]
  by (simp add: task_at_Some id_take_nth_drop)

section \<open>Steps that write nothing\<close>

lemma wire_ok_cong:
  "wire_ok cfg s i \<Longrightarrow> writing_of s' i = writing_of s i \<Longrightarrow> sent_of s' i = sent_of s i \<Longrightarrow>
     failed_of s' i = failed_of s i \<or> failed_of s' i = Some True \<Longrightarrow>
     crit i (tasks s') = crit i (tasks s) \<Longrightarrow> parts i (tasks s') = parts i (tasks s) \<Longrightarrow>
     wire_ok cfg s' i"
  by (auto simp: wire_ok_def)

text \<open>A fiber outside the critical section that moves to another such position, or ends.\<close>

definition idle_pc :: "task_pc \<Rightarrow> bool" where
  "idle_pc p = (case p of T_Body _ \<Rightarrow> False | T_SendFlush _ \<Rightarrow> False | _ \<Rightarrow> True)"

lemma idle_pc_simps [simp]:
  "idle_pc (T_InFilters ctx h)" "idle_pc (T_Handler ctx h)" "idle_pc (T_OutFilters e)"
  "idle_pc (T_WaitWrite e)" "idle_pc T_Flush"
  by (simp_all add: idle_pc_def)

lemma idle_not_critical: "idle_pc (t_pc t) \<Longrightarrow> \<not> critical i t"
  by (auto simp: idle_pc_def critical_def split: task_pc.splits)

lemma wire_ok_idle:
  assumes w: "wire_ok cfg s i" and k: "task_at s k = Some t" and idle: "idle_pc (t_pc t)"
    and tasks: "(\<exists>p. idle_pc p \<and> tasks s' = (tasks s)[k := (tasks s ! k)\<lparr>t_pc := p\<rparr>]) \<or>
      tasks s' = remove_nth k (tasks s)"
    and same: "writing_of s' i = writing_of s i" "sent_of s' i = sent_of s i"
      "failed_of s' i = failed_of s i \<or> failed_of s' i = Some True"
  shows "wire_ok cfg s' i"
proof -
  obtain ts us where sp: "tasks s = ts @ t # us" "k = length ts" by (rule task_split [OF k])
  have "\<not> critical i t" "\<And>p. idle_pc p \<Longrightarrow> \<not> critical i (t\<lparr>t_pc := p\<rparr>)"
    using idle idle_not_critical by simp_all
  then have "crit i (tasks s') = crit i (tasks s)" "parts i (tasks s') = parts i (tasks s)"
    using tasks by (auto simp: sp)
  then show ?thesis using w same by (intro wire_ok_cong [OF w])
qed

lemma failed_upd_conn:
  "failed_of (upd_conn i (\<lambda>c. c\<lparr>write_failed := True\<rparr>) s) j =
     (if i = j then map_option (\<lambda>_. True) (failed_of s j) else failed_of s j)"
  by (auto simp: failed_of_def conns_upd_conn option.map_comp comp_def)

lemma failed_or: "map_option (\<lambda>_. True) x = x \<or> map_option (\<lambda>_. True) x = Some True"
  by (cases x) simp_all

lemma wire_set_task_idle:
  "wire_ok cfg s i \<Longrightarrow> task_at s k = Some t \<Longrightarrow> idle_pc (t_pc t) \<Longrightarrow> idle_pc p \<Longrightarrow>
     tasks s1 = tasks s \<Longrightarrow> writing_of s1 = writing_of s \<Longrightarrow> sent_of s1 = sent_of s \<Longrightarrow>
     failed_of s1 = failed_of s \<Longrightarrow> wire_ok cfg (set_task k p s1) i"
  by (rule wire_ok_idle [of cfg s i k t]) auto

lemma wire_task_end_idle:
  "wire_ok cfg s i \<Longrightarrow> task_at s k = Some t \<Longrightarrow> idle_pc (t_pc t) \<Longrightarrow>
     tasks s1 = tasks s \<Longrightarrow> writing_of s1 = writing_of s \<Longrightarrow> sent_of s1 = sent_of s \<Longrightarrow>
     failed_of s1 i = failed_of s i \<or> failed_of s1 i = Some True \<Longrightarrow>
     wire_ok cfg (task_end ok k t s1) i"
  by (rule wire_ok_idle [of cfg s i k t]) auto

lemma wire_task_failed:
  assumes "wire_ok cfg s i" and "task_at s k = Some t" and "idle_pc (t_pc t)"
  shows "wire_ok cfg (task_end ok k t (upd_conn j (\<lambda>c. c\<lparr>write_failed := True\<rparr>) s)) i"
  by (rule wire_task_end_idle [OF assms]) (auto simp: failed_upd_conn failed_or)

lemma wire_idle_steps:
  assumes "wire_ok cfg s i" and "task_at s k = Some t" and "idle_pc (t_pc t)"
  shows "wire_ok cfg (dispatch_filtered k t h rc s) i" "wire_ok cfg (dispatch_handled k t re s) i"
    "wire_ok cfg (dispatch_reply k t re s) i" "wire_ok cfg (dispatch_flush k t wr s) i"
  using assms by (simp_all add: dispatch_filtered_def dispatch_handled_def dispatch_reply_def
      dispatch_flush_def wire_set_task_idle wire_task_end_idle wire_task_failed
      split: sum.splits option.splits)

section \<open>Steps that write\<close>

lemma wire_write_error:
  assumes w: "wire_ok cfg s i" and k: "task_at s k = Some t"
    and lock: "writing_of s (t_conn t) = Some (critical (t_conn t) t)"
  shows "wire_ok cfg (write_error k t s) i"
proof -
  obtain ts us where sp: "tasks s = ts @ t # us" "k = length ts" by (rule task_split [OF k])
  show ?thesis
  proof (cases "i = t_conn t")
    case True
    then have "crit i (ts @ us) = 0"
      using w lock by (auto simp: wire_ok_def sp)
    moreover have "failed_of (write_error k t s) i \<noteq> Some False"
      by (auto simp: write_error_def failed_upd_conn True split: if_splits)
    ultimately show ?thesis
      using True by (auto simp: wire_ok_def write_error_def sp)
  next
    case False
    then have "\<not> critical i t" by (auto simp: critical_def)
    then show ?thesis
      using False by (intro wire_ok_cong [OF w]) (auto simp: write_error_def failed_upd_conn sp)
  qed
qed

lemma wire_send_header:
  assumes w: "wire_ok cfg s i" and k: "task_at s k = Some t" and pc: "t_pc t = T_WaitWrite e"
    and free: "writing_of s (t_conn t) = Some False"
  shows "wire_ok cfg (send_header cfg k t e wr s) i"
proof -
  have idle: "idle_pc (t_pc t)" "\<And>i. \<not> critical i t" by (simp_all add: pc idle_pc_def critical_def)
  obtain ts us where sp: "tasks s = ts @ t # us" "k = length ts" by (rule task_split [OF k])
  let ?s' = "set_task k (T_Body e) (write_out (t_conn t) (header_to_bytes (env_header e))
    (lock_writes (t_conn t) True s))"
  have "wire_ok cfg ?s' i"
  proof (cases "i = t_conn t")
    case True
    then have "crit i ts = 0" "crit i us = 0" using w free by (auto simp: wire_ok_def sp idle)
    moreover have "critical i (t\<lparr>t_pc := T_Body e\<rparr>)"
      "unfinished i (t\<lparr>t_pc := T_Body e\<rparr>) = header_to_bytes (env_header e)"
      using True by (simp_all add: critical_def unfinished_def)
    ultimately show ?thesis using w free True by (auto simp: wire_ok_def sp idle)
  next
    case False
    then have "\<not> critical i (t\<lparr>t_pc := T_Body e\<rparr>)" by (simp add: critical_def)
    then show ?thesis using False by (intro wire_ok_cong [OF w]) (auto simp: sp idle)
  qed
  then show ?thesis
    using w k idle free wire_write_error [OF w k]
    by (auto simp: send_header_def wire_task_end_idle split: option.splits)
qed

lemma wire_send_body:
  assumes w: "wire_ok cfg s i" and k: "task_at s k = Some t" and pc: "t_pc t = T_Body e"
    and ok: "answer cfg e" and lock: "writing_of s (t_conn t) = Some True"
  shows "wire_ok cfg (send_body k t e wr s) i"
proof -
  obtain ts us where sp: "tasks s = ts @ t # us" "k = length ts" by (rule task_split [OF k])
  let ?s' = "set_task k (T_SendFlush e) (write_out (t_conn t) (env_body e) s)"
  have "wire_ok cfg ?s' i"
  proof (cases "i = t_conn t")
    case True
    then have t: "critical i t" "unfinished i t = header_to_bytes (env_header e)"
      "critical i (t\<lparr>t_pc := T_SendFlush e\<rparr>)" "unfinished i (t\<lparr>t_pc := T_SendFlush e\<rparr>) = []"
      by (simp_all add: critical_def unfinished_def pc)
    then have c: "crit i ts = 0" "crit i us = 0" using w lock True by (auto simp: wire_ok_def sp)
    have "\<exists>es. (\<forall>e \<in> set es. answer cfg e) \<and>
        sent_of ?s' i = Some (concat (map envelope_wire es))" if f: "failed_of s i = Some False"
    proof -
      obtain es where "\<forall>e \<in> set es. answer cfg e" "sent_of s i =
          Some (concat (map envelope_wire es) @ header_to_bytes (env_header e))"
        using w f c t by (auto simp: wire_ok_def sp)
      then show ?thesis
        using ok True by (intro exI [of _ "es @ [e]"]) (simp add: envelope_wire_def)
    qed
    then show ?thesis using w c t by (auto simp: wire_ok_def sp)
  next
    case False
    then have "\<not> critical i t" "\<not> critical i (t\<lparr>t_pc := T_SendFlush e\<rparr>)" by (simp_all add: critical_def)
    then show ?thesis using False by (intro wire_ok_cong [OF w]) (auto simp: sp)
  qed
  then show ?thesis
    using wire_write_error [OF w k] lock pc
    by (auto simp: send_body_def critical_def split: option.splits)
qed

lemma wire_send_flush:
  assumes w: "wire_ok cfg s i" and k: "task_at s k = Some t" and pc: "t_pc t = T_SendFlush e"
    and lock: "writing_of s (t_conn t) = Some True"
  shows "wire_ok cfg (send_flush k t wr s) i"
proof -
  obtain ts us where sp: "tasks s = ts @ t # us" "k = length ts" by (rule task_split [OF k])
  have t: "unfinished i t = []" "\<not> critical i (t\<lparr>t_pc := T_Flush\<rparr>)"
    by (simp_all add: critical_def unfinished_def pc)
  have "wire_ok cfg (set_task k T_Flush (lock_writes (t_conn t) False s)) i"
  proof (cases "i = t_conn t")
    case True
    then have "critical i t" by (simp add: critical_def pc)
    then have "crit i ts = 0" "crit i us = 0" using w lock True by (auto simp: wire_ok_def sp)
    then show ?thesis using w t True by (auto simp: wire_ok_def sp)
  next
    case False
    then have "\<not> critical i t" by (simp add: critical_def)
    then show ?thesis using False t by (intro wire_ok_cong [OF w]) (auto simp: sp)
  qed
  then show ?thesis
    using wire_write_error [OF w k] lock pc
    by (auto simp: send_flush_def critical_def split: option.splits)
qed

section \<open>What the fibers carry\<close>

lemma task_ok_moved [simp]:
  "task_ok cfg (t\<lparr>t_pc := T_Handler ctx h\<rparr>) \<longleftrightarrow> (\<exists>ctx0. handled_by cfg ctx0 ctx h)"
  "task_ok cfg (t\<lparr>t_pc := T_OutFilters e\<rparr>) \<longleftrightarrow> (\<exists>ctx0. reply_to cfg ctx0 e)"
  "task_ok cfg (t\<lparr>t_pc := T_WaitWrite e\<rparr>) = answer cfg e"
  "task_ok cfg (t\<lparr>t_pc := T_Body e\<rparr>) = answer cfg e"
  "task_ok cfg (t\<lparr>t_pc := T_SendFlush e\<rparr>) = answer cfg e"
  "task_ok cfg (t\<lparr>t_pc := T_Flush\<rparr>)"
  by (simp_all add: task_ok_def)

lemma tasks_ok_set_task:
  "task_at s k = Some t \<Longrightarrow> tasks_ok cfg s \<Longrightarrow> tasks s1 = tasks s \<Longrightarrow>
     task_ok cfg (t\<lparr>t_pc := p\<rparr>) \<Longrightarrow> tasks_ok cfg (set_task k p s1)"
  by (erule task_split) (auto simp: tasks_ok_def)

lemma tasks_ok_end:
  "task_at s k = Some t \<Longrightarrow> tasks_ok cfg s \<Longrightarrow> tasks s1 = tasks s \<Longrightarrow>
     tasks_ok cfg (task_end ok k t s1)"
  by (erule task_split) (auto simp: tasks_ok_def)

text \<open>The position of a fiber after each of its steps.\<close>

lemma tasks_ok_steps:
  assumes k: "task_at s k = Some t" and ok: "tasks_ok cfg s"
  shows "t_pc t = T_InFilters ctx h \<Longrightarrow>
      tasks_ok cfg (dispatch_filtered k t h (apply_incoming_filters cfg ctx) s)"
    and "t_pc t = T_Handler ctx h \<Longrightarrow> tasks_ok cfg (dispatch_handled k t (h ctx) s)"
    and "t_pc t = T_OutFilters e \<Longrightarrow>
      tasks_ok cfg (dispatch_reply k t (apply_outgoing_filters cfg e) s)"
    and "t_pc t = T_WaitWrite e \<Longrightarrow> tasks_ok cfg (send_header cfg k t e w s)"
    and "t_pc t = T_Body e \<Longrightarrow> tasks_ok cfg (send_body k t e w s)"
    and "t_pc t = T_SendFlush e \<Longrightarrow> tasks_ok cfg (send_flush k t w s)"
    and "t_pc t = T_Flush \<Longrightarrow> tasks_ok cfg (dispatch_flush k t w s)"
proof -
  have t: "task_ok cfg t" using k ok by (auto simp: task_at_Some tasks_ok_def)
  show "t_pc t = T_InFilters ctx h \<Longrightarrow>
      tasks_ok cfg (dispatch_filtered k t h (apply_incoming_filters cfg ctx) s)"
    using t by (auto simp: dispatch_filtered_def task_ok_def handled_by_def split: sum.splits
        intro!: tasks_ok_set_task [OF k ok] tasks_ok_end [OF k ok])
  show "t_pc t = T_Handler ctx h \<Longrightarrow> tasks_ok cfg (dispatch_handled k t (h ctx) s)"
    using t by (auto simp: dispatch_handled_def task_ok_def reply_to_def split: sum.splits
        intro!: tasks_ok_set_task [OF k ok] tasks_ok_end [OF k ok]) blast
  show "t_pc t = T_OutFilters e \<Longrightarrow>
      tasks_ok cfg (dispatch_reply k t (apply_outgoing_filters cfg e) s)"
    using t by (auto simp: dispatch_reply_def task_ok_def answer_def split: sum.splits
        intro!: tasks_ok_set_task [OF k ok] tasks_ok_end [OF k ok]) blast
  show "t_pc t = T_WaitWrite e \<Longrightarrow> tasks_ok cfg (send_header cfg k t e w s)"
    and "t_pc t = T_Body e \<Longrightarrow> tasks_ok cfg (send_body k t e w s)"
    and "t_pc t = T_SendFlush e \<Longrightarrow> tasks_ok cfg (send_flush k t w s)"
    and "t_pc t = T_Flush \<Longrightarrow> tasks_ok cfg (dispatch_flush k t w s)"
    using t by (auto simp: send_header_def send_body_def send_flush_def dispatch_flush_def
        write_error_def task_ok_def split: option.splits
        intro!: tasks_ok_set_task [OF k ok] tasks_ok_end [OF k ok])
qed

text \<open>The fibers of connections.\<close>

lemma loop_ok_simps [simp]:
  "loop_ok (l\<lparr>l_pc := L_Check\<rparr>)" "loop_ok (l\<lparr>l_pc := L_Header\<rparr>)"
  "loop_ok (l\<lparr>l_pc := L_WaitMem hdr\<rparr>) = header_checked hdr"
  "loop_ok (l\<lparr>l_pc := L_Payload hdr\<rparr>) = header_checked hdr"
  by (simp_all add: loop_ok_def)

lemma loops_ok_set_loop:
  "loops_ok s \<Longrightarrow> loops s1 = loops s \<Longrightarrow> loop_ok ((loops s ! k)\<lparr>l_pc := p\<rparr>) \<Longrightarrow>
     loops_ok (set_loop k p s1)"
  using set_update_subset_insert [of "loops s" k "(loops s ! k)\<lparr>l_pc := p\<rparr>"]
  by (auto simp: loops_ok_def)

lemma loops_ok_exit:
  "loops_ok s \<Longrightarrow> loops s1 = loops s \<Longrightarrow> loops_ok (loop_end k i s1)"
  "loops_ok s \<Longrightarrow> loops s1 = loops s \<Longrightarrow> loops_ok (loop_throw k i s1)"
  by (auto simp: loops_ok_def dest: set_remove_nth)

lemma loops_ok_steps:
  assumes ok: "loops_ok s"
  shows "loops_ok (loop_check cfg k i s)" "loops_ok (session_header k i rd s)"
    "loop_at s k = Some l \<Longrightarrow> l_pc l = L_WaitMem hdr \<Longrightarrow> loops_ok (session_granted k hdr s)"
    "loops_ok (session_payload cfg k i hdr rd s)" "loops_ok (session_timeout k i s)"
proof -
  show "loops_ok (loop_check cfg k i s)"
    by (auto simp: loop_check_def ok split: option.splits sum.splits
        intro!: loops_ok_set_loop [OF ok] loops_ok_exit [OF ok])
  show "loops_ok (session_header k i rd s)"
    by (auto simp: session_header_def parse_header_done_def Let_def ok fut_then_eq_Inr
        split: option.splits sum.splits
        intro!: loops_ok_set_loop [OF ok] loops_ok_exit [OF ok] check_header_checked)
  show "loops_ok (session_granted k hdr s)"
    if "loop_at s k = Some l" and pc: "l_pc l = L_WaitMem hdr"
  proof -
    have "loop_ok l" using ok that by (auto simp: loops_ok_def loop_at_Some)
    then show ?thesis
      by (auto simp: session_granted_def loop_ok_def pc intro!: loops_ok_set_loop [OF ok])
  qed
  show "loops_ok (session_timeout k i s)"
    by (simp add: session_timeout_def loops_ok_exit [OF ok])
  show "loops_ok (session_payload cfg k i hdr rd s)"
  proof (cases "conns s i")
    case None
    then show ?thesis by (simp add: session_payload_def ok)
  next
    case (Some c)
    then show ?thesis
      by (cases rule: session_payload_cases [of _ _ _ rd cfg k hdr])
        (auto intro!: loops_ok_set_loop [OF ok] loops_ok_exit [OF ok])
  qed
qed

text \<open>A payload that parses under a checked header is an acceptable request.\<close>

lemma checked_request_ok:
  assumes "header_checked hdr" and "check_payload (checksum_fn cfg) a hdr bs = Some ctx"
  shows "request_ok cfg ctx" and "sint (hdr_size hdr) = int (length (ctx_payload ctx))"
proof -
  show "request_ok cfg ctx"
    using checked_received_ok [OF assms] by (simp add: request_ok_def)
  show "sint (hdr_size hdr) = int (length (ctx_payload ctx))"
    using check_payload_sint [OF assms(2)] assms(2)
    by (auto simp: check_payload_Some header_describes_def simp del: of_nat_unat)
qed

lemma tasks_ok_payload:
  assumes ok: "tasks_ok cfg s" and c: "conns s i = Some c" and h: "header_checked hdr"
  shows "tasks_ok cfg (session_payload cfg k i hdr rd s)"
  using c
proof (cases rule: session_payload_cases [of _ _ _ rd cfg k hdr])
  case (dispatched bs ctx s1)
  note ctx = checked_request_ok [OF h dispatched(3)]
  show ?thesis
    unfolding dispatched(4) using ok dispatched(5) ctx
    by (cases rule: do_dispatch_tasks [of cfg i "sint (hdr_size hdr)" ctx
          "s1\<lparr>gate_count := gate_count s1 + 1\<rparr>"]) (auto simp: tasks_ok_def task_ok_def)
qed (use ok in \<open>simp_all add: tasks_ok_def\<close>)

lemma wire_payload:
  assumes w: "wire_ok cfg s i" and c: "conns s j = Some c"
  shows "wire_ok cfg (session_payload cfg k j hdr rd s) i"
  using c
proof (cases rule: session_payload_cases [of _ _ _ rd cfg k hdr])
  case (dispatched bs ctx s1)
  have "\<not> critical i \<lparr>t_conn = j, t_payload_size = n, t_pc = T_InFilters ctx h\<rparr>" for n h
    by (simp add: critical_def)
  then show ?thesis
    unfolding dispatched(4) using dispatched(5)
    by (cases rule: do_dispatch_tasks [of cfg j "sint (hdr_size hdr)" ctx
          "s1\<lparr>gate_count := gate_count s1 + 1\<rparr>"]) (auto intro!: wire_ok_cong [OF w])
qed (auto intro!: wire_ok_cong [OF w])

lemma wire_accept:
  assumes wf: "server_wf cfg s" and idx: "connection_idx s \<noteq> - 1" and w: "wire_ok cfg s i"
  shows "wire_ok cfg (accept_connection a s) i"
proof (cases "i = connection_idx s + 1")
  case True
  then have "crit i (tasks s) = 0"
    using accept_fresh(1) [OF wf idx] server_wfD(3) [OF wf] by (intro crit_absent) metis
  then show ?thesis
    using True by (auto simp: wire_ok_def projections rpc_server_connection_new_def
        intro: exI [of _ "[]"])
next
  case False
  then show ?thesis by (intro wire_ok_cong [OF w]) (auto simp: projections)
qed

lemma wire_destroy: "wire_ok cfg s i \<Longrightarrow> wire_ok cfg (destroy_connection j s) i"
  by (auto simp: wire_ok_def projections)

text \<open>A fiber in the critical section owns the lock.\<close>

lemma critical_lock:
  assumes inv: "replies_inv cfg s" and k: "task_at s k = Some t" and cr: "critical (t_conn t) t"
  shows "writing_of s (t_conn t) = Some True"
proof -
  have "t \<in> set (tasks s)" using k by (auto simp: task_at_Some)
  moreover obtain ts us where "tasks s = ts @ t # us" by (rule task_split [OF k])
  then have "crit (t_conn t) (tasks s) \<noteq> 0" using cr by simp
  ultimately show ?thesis
    using inv server_wfD(3) [of cfg s t]
    by (auto simp: replies_inv_def wire_ok_def live_def writing_of_def)
qed

lemma replies_step:
  assumes inv: "replies_inv cfg s" and "server_step cfg ev s = Some s'"
  shows "loops_ok s' \<and> tasks_ok cfg s' \<and> wire_ok cfg s' i"
proof -
  have wf: "server_wf cfg s" and ls: "loops_ok s" and ts: "tasks_ok cfg s" and w: "wire_ok cfg s i"
    using inv by (simp_all add: replies_inv_def)
  have ls_task: "loops_ok u" if "task_moves s k t u" for k t u
    using ls that by (simp add: loops_ok_def task_moves_def)
  have conn: "\<exists>c. conns s (l_conn l) = Some c" if "loop_at s k = Some l" for k l
    using loop_conn [OF wf that] by metis
  from assms(2) show ?thesis
  proof (cases rule: server_step_cases)
    case (accept a)
    with ls ts show ?thesis by (simp add: wire_accept [OF wf _ w] loops_ok_def tasks_ok_def loop_ok_def)
  next
    case (check k l)
    obtain c where c: "conns s (l_conn l) = Some c" using conn [OF check(1)] ..
    have "wire_ok cfg s' i"
      unfolding check(3) loop_check_valid [OF wf check(1,2) c] by (auto intro!: wire_ok_cong [OF w])
    with check ls ts show ?thesis by (simp add: loops_ok_steps loop_step_tasks tasks_ok_def)
  next
    case (hdr_read k l rd)
    then have "wire_ok cfg s' i"
      by (auto simp: session_header_def Let_def split: option.splits sum.splits prod.splits
          intro!: wire_ok_cong [OF w])
    with hdr_read ls ts show ?thesis by (simp add: loops_ok_steps loop_step_tasks tasks_ok_def)
  next
    case (granted k l hdr)
    then have "wire_ok cfg s' i" "tasks s' = tasks s"
      by (auto simp: session_granted_def intro!: wire_ok_cong [OF w])
    with granted ls ts show ?thesis by (simp add: loops_ok_steps tasks_ok_def)
  next
    case (payload k l hdr rd)
    obtain c where c: "conns s (l_conn l) = Some c" using conn [OF payload(1)] ..
    have "loop_ok l" using ls payload(1) by (auto simp: loops_ok_def loop_at_Some)
    then have "header_checked hdr" by (simp add: loop_ok_def payload(2))
    with payload ls ts w c show ?thesis by (simp add: loops_ok_steps tasks_ok_payload wire_payload)
  next
    case (timed_out k l hdr)
    then have "wire_ok cfg s' i" "tasks s' = tasks s"
      by (auto simp: session_timeout_def intro!: wire_ok_cong [OF w])
    with timed_out ls ts show ?thesis by (simp add: loops_ok_steps tasks_ok_def)
  next
    case (body_written k t e wr)
    have "task_ok cfg t" using ts body_written(1) by (auto simp: tasks_ok_def task_at_Some)
    then have "answer cfg e" by (simp add: task_ok_def body_written(2))
    with body_written ts critical_lock [OF inv body_written(1)] show ?thesis
      by (simp add: ls_task [OF task_steps_move(5)] tasks_ok_steps wire_send_body [OF w] critical_def)
  next
    case (replied k t e wr)
    with ts critical_lock [OF inv replied(1)] show ?thesis
      by (simp add: ls_task [OF task_steps_move(6)] tasks_ok_steps wire_send_flush [OF w] critical_def)
  next
    case (write_granted k t e wr)
    with ts show ?thesis
      by (simp add: ls_task [OF task_steps_move(4)] tasks_ok_steps wire_send_header [OF w])
  next
    case (destroy j)
    with ls ts w show ?thesis by (simp add: wire_destroy loops_ok_def tasks_ok_def)
  next
    case aborted
    with ls ts w show ?thesis by (auto simp: loops_ok_def tasks_ok_def intro: wire_ok_cong)
  next
    case accept_end
    with ls ts w show ?thesis by (auto simp: loops_ok_def tasks_ok_def intro: wire_ok_cong)
  next
    case stop
    with ls ts w show ?thesis by (auto simp: loops_ok_def tasks_ok_def intro: wire_ok_cong)
  qed (use ts w in \<open>simp_all add: ls_task [OF task_steps_move(1)] ls_task [OF task_steps_move(2)]
      ls_task [OF task_steps_move(3)] ls_task [OF task_steps_move(7)] tasks_ok_steps
      wire_idle_steps\<close>)
qed

interpretation replies: machine_invariant server_init server_step replies_inv
proof
  fix cfg s
  assume "server_init cfg s"
  then show "replies_inv cfg s"
    using wf.inv_init
    by (auto simp: replies_inv_def server_init_def rpc_server_new_def loops_ok_def tasks_ok_def
        wire_ok_def projections)
next
  fix cfg s e t
  assume inv: "replies_inv cfg s" and step: "server_step cfg e s = Some t"
  have "server_wf cfg t" using wf.inv_step inv step by (auto simp: replies_inv_def)
  with replies_step [OF inv step] show "replies_inv cfg t" by (auto simp: replies_inv_def)
qed

section \<open>Counters\<close>

text \<open>
  \<^verbatim>\<open>active_connections\<close> is decremented when a connection leaves \<^verbatim>\<open>open_connections_\<close> and again when
  it is destroyed. (All counters wrap at 64 bits.)
\<close>

definition counts_ok :: "server \<Rightarrow> bool" where
  "counts_ok s \<longleftrightarrow>
     total_connections (stats s) = connection_idx s \<and>
     bad_requests (stats s) + of_nat (card (open_connections s)) = total_connections (stats s) \<and>
     active_connections (stats s) + total_connections (stats s) =
       of_nat (card (open_connections s)) + of_nat (card (live s))"

definition stats_inv :: "server_cfg \<Rightarrow> server \<Rightarrow> bool" where
  "stats_inv cfg s \<longleftrightarrow> server_wf cfg s \<and> counts_ok s"

lemma counts_cong:
  "stats s' = stats s \<Longrightarrow> connection_idx s' = connection_idx s \<Longrightarrow>
     open_connections s' = open_connections s \<Longrightarrow> live s' = live s \<Longrightarrow> counts_ok s' = counts_ok s"
  by (simp add: counts_ok_def)

lemma counts_simps [simp]:
  "counts_ok (conn_set_error i e s) = counts_ok s" "counts_ok (upd_conn i f s) = counts_ok s"
  "counts_ok (signal n s) = counts_ok s" "counts_ok (set_loop k p s) = counts_ok s"
  "counts_ok (remove_loop k s) = counts_ok s" "counts_ok (set_task k q s) = counts_ok s"
  "counts_ok (remove_task k s) = counts_ok s" "counts_ok (lock_writes i b s) = counts_ok s"
  "counts_ok (write_out i bs s) = counts_ok s" "counts_ok (stop_accept s) = counts_ok s"
  "counts_ok (accept_loop_end s) = counts_ok s" "counts_ok (stop_connections s) = counts_ok s"
  "counts_ok (s\<lparr>gate_count := m\<rparr>) = counts_ok s" "counts_ok (s\<lparr>tasks := ts\<rparr>) = counts_ok s"
  "counts_ok (s\<lparr>latency_samples := m\<rparr>) = counts_ok s"
  by (rule counts_cong; simp)+

lemma counts_upd_stats:
  "total_connections (f (stats s)) = total_connections (stats s) \<Longrightarrow>
   bad_requests (f (stats s)) = bad_requests (stats s) \<Longrightarrow>
   active_connections (f (stats s)) = active_connections (stats s) \<Longrightarrow>
     counts_ok (upd_stats f s) = counts_ok s"
  by (simp add: counts_ok_def)

lemma word_card_remove:
  "i \<in> (A :: u64 set) \<Longrightarrow> (of_nat (card A) :: u64) = of_nat (card (A - {i})) + 1"
  by (metis card.remove finite_code of_nat_Suc add.commute)

lemma counts_cleanup: "counts_ok s \<Longrightarrow> counts_ok (cleanup_dispatch_rpc i s)"
  using word_card_remove [of i "open_connections s"]
  by (auto simp: cleanup_dispatch_rpc_def counts_ok_def algebra_simps split: option.splits)

lemma counts_ends:
  "counts_ok s \<Longrightarrow> counts_ok (finish_dispatch ok i n s)" "counts_ok s \<Longrightarrow> counts_ok (task_end ok k t s)"
  "counts_ok s \<Longrightarrow> counts_ok (loop_end k i s)" "counts_ok s \<Longrightarrow> counts_ok (loop_throw k i s)"
  by (simp_all add: finish_dispatch_def task_end_def loop_end_def loop_throw_def Let_def counts_cleanup)

lemma counts_dispatch: "counts_ok s \<Longrightarrow> counts_ok (do_dispatch_rpc cfg i n ctx s)"
  by (auto simp: do_dispatch_rpc_def Let_def counts_ends counts_upd_stats split: option.splits)

lemma counts_loop_steps:
  assumes "counts_ok s"
  shows "counts_ok (loop_check cfg k i s)" "counts_ok (session_header k i rd s)"
    "counts_ok (session_granted k hdr s)" "counts_ok (session_payload cfg k i hdr rd s)"
    "counts_ok (session_timeout k i s)"
  using assms
  by (auto simp: loop_check_def session_header_def session_granted_def session_payload_def
      session_timeout_def dispatch_rpc_def Let_def counts_ends counts_dispatch
      split: option.splits sum.splits prod.splits if_splits)

lemma counts_task_steps:
  assumes "counts_ok s"
  shows "counts_ok (dispatch_filtered k t h rc s)" "counts_ok (dispatch_handled k t re s)"
    "counts_ok (dispatch_reply k t re s)" "counts_ok (send_header cfg k t e w s)"
    "counts_ok (send_body k t e w s)" "counts_ok (send_flush k t w s)"
    "counts_ok (dispatch_flush k t w s)"
  using assms by (auto simp: dispatch_defs counts_ends counts_upd_stats
      split: option.splits sum.splits)

lemma counts_accept:
  assumes wf: "server_wf cfg s" and idx: "connection_idx s \<noteq> - 1" and c: "counts_ok s"
  shows "counts_ok (accept_connection a s)"
proof -
  have "connection_idx s + 1 \<notin> live s" "connection_idx s + 1 \<notin> open_connections s"
    using accept_fresh(1) [OF wf idx] server_wfD(1) [OF wf] by auto
  then show ?thesis
    using c by (auto simp: counts_ok_def accept_connection_def Let_def live_def algebra_simps)
qed

lemma counts_destroy: "counts_ok s \<Longrightarrow> i \<in> live s \<Longrightarrow> counts_ok (destroy_connection i s)"
  using word_card_remove [of i "live s"]
  by (auto simp: counts_ok_def destroy_connection_def live_def algebra_simps)

interpretation counters: machine_invariant server_init server_step stats_inv
proof
  fix cfg s
  assume "server_init cfg s"
  then show "stats_inv cfg s"
    using wf.inv_init by (auto simp: stats_inv_def counts_ok_def server_init_def rpc_server_new_def
        rpc_server_stats_new_def live_def)
next
  fix cfg s e t
  assume inv: "stats_inv cfg s" and step: "server_step cfg e s = Some t"
  then have wf: "server_wf cfg s" and c: "counts_ok s" by (simp_all add: stats_inv_def)
  from step have "counts_ok t"
    by (cases rule: server_step_cases)
      (simp_all add: c counts_loop_steps counts_task_steps counts_accept [OF wf] counts_destroy)
  with wf.inv_step [OF wf step] show "stats_inv cfg t" by (simp add: stats_inv_def)
qed

end
