(* ===== verification/Rpc_Server_Properties.thy ===== *)
theory Rpc_Server_Properties
  imports Rpc_Server_Replies
begin

text \<open>
  The properties of the server, over its reachable states and its runs, with runs of a small
  configuration as their instances.
\<close>

section \<open>Runs\<close>

text \<open>A server with one service of one method, and the events of a request on a new connection.\<close>

definition sample_cfg :: server_cfg where
  "sample_cfg =
     \<lparr>debug_build = True, checksum_fn = sample_xxh, routes = generated_routes [sample_service 1 [2]],
      in_filters = [], out_filters = []\<rparr>"

abbreviation sample_header :: "u32 \<Rightarrow> header" where
  "sample_header n \<equiv> \<lparr>hdr_compression = 0, hdr_bitflags = 0, hdr_session = 7, hdr_size = n,
     hdr_checksum = n + 1, hdr_meta = 3\<rparr>"

definition request_events :: "header \<Rightarrow> event list" where
  "request_events h =
     [Accept ''peer'', Loop_check 0, Header_read 0 (Inr (header_to_bytes h)), Memory_granted 0]"

definition reply_events :: "bytes \<Rightarrow> event list" where
  "reply_events b =
     [Payload_read 0 (Inr b), Filters_in 0, Handler_done 0, Filters_out 0, Write_granted 0 None,
      Body_written 0 None, Reply_flushed 0 None, Flushed 0 None]"

lemmas loop_run_defs = accept_connection_def loop_step_def loop_at_def
  loop_check_def session_header_def session_granted_def session_timeout_def
  session_payload_def dispatch_rpc_def
  parse_header_start_def parse_header_done_def parse_payload_done_def note_read_def read_fits_def
  check_header_def header_round_trip dlog_throw_if_def
  upd_conn_def upd_stats_def set_loop_def remove_loop_def remove_nth_def signal_def conn_set_error_def
  set_error_def cleanup_dispatch_rpc_def conn_of_def loop_throw_def loop_end_def is_valid_def
  has_error_def disable_def shutdown_input_def shutdown_output_def
  rpc_server_new_def rpc_connection_limits_new_def rpc_server_connection_new_def
  rpc_connection_new_def rpc_server_stats_new_def

lemmas task_run_defs = task_step_def task_at_def do_dispatch_rpc_def dispatch_filtered_def
  dispatch_handled_def dispatch_reply_def send_header_def send_body_def send_flush_def
  dispatch_flush_def conn_valid_def set_task_def remove_task_def task_end_def finish_dispatch_def
  lock_writes_def write_out_def

lemma reachable_new: "run (server_step cfg) es (rpc_server_new m d) = Some s \<Longrightarrow>
    reachable (server_init cfg) (server_step cfg) s"
  using run_reachable [OF start] by (metis server_init_def)

section \<open>Memory\<close>

text \<open>
  C4. The server never commits more payload memory than it was given: in every reachable state,
  whatever the peers sent, whichever reads failed or timed out and however the fibers interleaved,
  the payloads being read and the requests in flight add up to at most the limit, and so do they
  together with what the semaphore still has to give.
\<close>

theorem memory_never_overcommitted:
  assumes "reachable (server_init cfg) (server_step cfg) s"
  shows "held s \<le> memory_limit s \<and> avail s + held s \<le> memory_limit s"
  using memory.inv_reachable [OF assms] by (simp add: memory_inv_def)

definition waiting_state :: server where
  "waiting_state = the (run (server_step sample_cfg) (request_events (sample_header 100))
     (rpc_server_new 1000 5))"

lemma waiting_run:
  "run (server_step sample_cfg) (request_events (sample_header 100)) (rpc_server_new 1000 5) =
     Some waiting_state"
  by (simp add: waiting_state_def request_events_def loop_run_defs sample_cfg_def
      compression_flags_defs Let_def)

lemma waiting_sel:
  "loops waiting_state = [\<lparr>l_conn = 1, l_pc = L_Payload (sample_header 100)\<rparr>]"
  "tasks waiting_state = []" "avail waiting_state = 900" "memory_limit waiting_state = 1000"
  by (simp_all add: waiting_state_def request_events_def loop_run_defs sample_cfg_def
      compression_flags_defs Let_def)

theorem memory_never_overcommitted_witness:
  "held waiting_state = 100 \<and> held waiting_state \<le> memory_limit waiting_state \<and>
     avail waiting_state + held waiting_state \<le> memory_limit waiting_state"
  using memory_never_overcommitted [OF reachable_new [OF waiting_run]]
  by (simp add: held_def waiting_sel)

text \<open>
  C5. Memory is conserved: with a limit below \<open>2^31\<close>, and as long as no payload read times out or
  fails and the server is not stopped, available and held memory always add up to the limit; when no
  connection reads a payload and no request is in flight, all of it is available again.
\<close>

theorem memory_conserved:
  assumes "reachable (small_init cfg) (lossless_step cfg) s"
  shows "avail s + held s = memory_limit s \<and>
    ((\<forall>l \<in> set (loops s). loop_held l = 0) \<and> tasks s = [] \<longrightarrow> avail s = memory_limit s)"
proof -
  have "avail s + held s = memory_limit s"
    using exact.inv_reachable [OF assms] by (simp add: memory_exact_def)
  moreover have "held s = 0" if "\<forall>l \<in> set (loops s). loop_held l = 0" "tasks s = []"
    using that by (simp add: held_def sum_list_0 cong: map_cong)
  ultimately show ?thesis by auto
qed

definition answered_state :: server where
  "answered_state = the (run (lossless_step sample_cfg)
     (request_events (sample_header 2) @ reply_events [5, 6]) (rpc_server_new 1000 5))"

lemmas sample_run_defs = request_events_def reply_events_def loop_run_defs task_run_defs
  sample_cfg_def compression_flags_defs check_payload_def max_flatbuffers_size_def
  header_bit_flags_has_payload_headers_def rpc_checksum_payload_def sample_xxh_def
  get_handle_for_request_def services_generated_routes service_of_def sample_service_def
  generated_handle_def request_id_def recv_session_def apply_incoming_filters_def
  apply_outgoing_filters_def mutate_session_def env_with_def env_header_def env_body_def
  sample_envelope_def checksum_rpc_def header_zero_def rpc_letter_size_def kHeaderSize_def

lemma answered_run:
  "run (lossless_step sample_cfg) (request_events (sample_header 2) @ reply_events [5, 6])
     (rpc_server_new 1000 5) = Some answered_state"
  by (simp add: answered_state_def lossless_step_def only_events_def lossless_def sample_run_defs
      Let_def)

lemma answered_sel:
  "loops answered_state = [\<lparr>l_conn = 1, l_pc = L_Check\<rparr>]" "tasks answered_state = []"
  "avail answered_state = 1000" "memory_limit answered_state = 1000"
  "completed_requests (stats answered_state) = 1" "latency_samples answered_state = 1"
  "gate_count answered_state = 0"
  "sent_of answered_state 1 = Some (envelope_wire (sample_envelope 7 200 [5, 6]))"
  by (simp_all add: answered_state_def lossless_step_def only_events_def lossless_def sample_run_defs
      sent_of_def envelope_wire_def Let_def)

theorem memory_conserved_witness:
  "avail answered_state + held answered_state = memory_limit answered_state \<and>
   avail answered_state = memory_limit answered_state"
proof -
  have "small_init sample_cfg (rpc_server_new 1000 5)"
    by (auto simp: small_init_def server_init_def rpc_server_new_def rpc_connection_limits_new_def)
  then have "reachable (small_init sample_cfg) (lossless_step sample_cfg) answered_state"
    using run_reachable [OF start answered_run] by blast
  from memory_conserved [OF this] show ?thesis by (simp add: answered_sel)
qed

lemma memory_run:
  assumes "memory_inv cfg s" and "run (server_step cfg) es s = Some t"
  shows "avail t + held t \<le> avail s + held s \<and> memory_limit t = memory_limit s"
  using assms
proof (induction es arbitrary: s)
  case (Cons e es)
  then obtain u where u: "server_step cfg e s = Some u" "run (server_step cfg) es u = Some t"
    by (auto split: option.splits)
  have "memory_steps False s u" using memory_step [OF Cons.prems(1) u(1), of False] by simp
  with Cons.IH [OF memory.inv_step [OF Cons.prems(1) u(1)] u(2)] show ?case
    by (auto simp: memory_steps_def)
qed simp

text \<open>
  C38. A payload read that times out loses its memory for good: the units granted for that payload
  are neither available nor held in any later state, so each such timeout lowers what the server can
  ever use by the size the peer announced.
\<close>

theorem timeout_loses_memory:
  assumes "reachable (server_init cfg) (server_step cfg) s"
    and "loop_at s k = Some l" and "l_pc l = L_Payload hdr"
    and "run (server_step cfg) (Payload_timeout k # es) s = Some t"
  shows "avail t + held t \<le> memory_limit t - int (unat (hdr_size hdr))"
proof -
  obtain u where u: "server_step cfg (Payload_timeout k) s = Some u" "run (server_step cfg) es u = Some t"
    using assms(4) by (auto split: option.splits)
  have inv: "memory_inv cfg s" by (rule memory.inv_reachable [OF assms(1)])
  have "u = session_timeout k (l_conn l) s"
    using u(1) assms(2,3) by (simp add: loop_step_def)
  then have "avail u + held u = avail s + held s - int (unat (hdr_size hdr))"
    "memory_limit u = memory_limit s"
    using assms(2,3) by (simp_all add: session_timeout_def held_def held_sums)
  moreover have "avail s + held s \<le> memory_limit s" using inv by (simp add: memory_inv_def)
  ultimately show ?thesis
    using memory_run [OF memory.inv_step [OF inv u(1)] u(2)] by simp
qed

definition timed_out_state :: server where
  "timed_out_state = the (run (server_step sample_cfg) [Payload_timeout 0] waiting_state)"

theorem timeout_loses_memory_witness:
  "loops timed_out_state = [] \<and> tasks timed_out_state = [] \<and>
   avail timed_out_state + held timed_out_state \<le> 1000 - 100"
proof -
  have r: "run (server_step sample_cfg) (Payload_timeout 0 # []) waiting_state = Some timed_out_state"
    by (simp add: timed_out_state_def loop_step_def loop_at_def waiting_sel)
  have s: "timed_out_state = session_timeout 0 1 waiting_state"
    by (simp add: timed_out_state_def loop_step_def loop_at_def waiting_sel)
  have "loops timed_out_state = []" "tasks timed_out_state = []" "memory_limit timed_out_state = 1000"
    unfolding s session_timeout_def by (simp_all add: waiting_sel remove_nth_def)
  moreover have "avail timed_out_state + held timed_out_state \<le>
      memory_limit timed_out_state - int (unat (hdr_size (sample_header 100)))"
    by (rule timeout_loses_memory [OF reachable_new [OF waiting_run], where es = "[]" and k = 0 and
          l = "\<lparr>l_conn = 1, l_pc = L_Payload (sample_header 100)\<rparr>", OF _ _ r])
      (simp_all add: loop_at_def waiting_sel)
  ultimately show ?thesis by simp
qed

text \<open>
  C37. A payload of \<open>2^31\<close> bytes or more drives the semaphore below what was taken: such a payload
  never parses, and because \<^verbatim>\<open>dispatch_rpc\<close> takes its size as \<^verbatim>\<open>int32_t\<close> the signal that should give
  the memory back subtracts: \<open>2^32\<close> units are missing afterwards.
\<close>

theorem huge_payload_breaks_semaphore:
  assumes "reachable (server_init cfg) (server_step cfg) s" and "loop_at s k = Some l" and "l_pc l = L_Payload hdr"
    and "2147483648 \<le> unat (hdr_size hdr)"
    and "server_step cfg (Payload_read k (Inr bs)) s = Some t"
  shows "avail t + held t = avail s + held s - 4294967296"
proof -
  obtain c where c: "conns s (l_conn l) = Some c"
    using loop_conn [OF wf.inv_reachable [OF assms(1)] assms(2)] by metis
  have none: "check_payload x a hdr bs = None" for x a
    using assms(4) by (auto simp: check_payload_def word_less_nat_alt max_flatbuffers_size_def)
  have t: "t = session_payload cfg k (l_conn l) hdr (Inr bs) s"
    using assms(2,3,5) by (auto simp: loop_step_def split: if_splits)
  show ?thesis
    using c
  proof (cases rule: session_payload_cases [of _ _ _ "Inr bs" cfg k hdr])
    case (unparsed bs' s1)
    with t assms(2-4) show ?thesis
      by (simp add: held_def held_sums sint_u32_large del: of_nat_unat)
  qed (use none in simp_all)
qed

definition huge_state :: server where
  "huge_state = the (run (server_step sample_cfg) (request_events (sample_header 2147483648))
     (rpc_server_new 2147483648 5))"

lemma huge_run:
  "run (server_step sample_cfg) (request_events (sample_header 2147483648))
     (rpc_server_new 2147483648 5) = Some huge_state"
  "loops huge_state = [\<lparr>l_conn = 1, l_pc = L_Payload (sample_header 2147483648)\<rparr>]"
  "tasks huge_state = []" "avail huge_state = 0"
  by (simp_all add: huge_state_def request_events_def loop_run_defs sample_cfg_def
      compression_flags_defs Let_def)

theorem huge_payload_breaks_semaphore_witness:
  "\<exists>t. server_step sample_cfg (Payload_read 0 (Inr [])) huge_state = Some t \<and>
     avail t + held t = - 2147483648"
proof -
  obtain t where t: "server_step sample_cfg (Payload_read 0 (Inr [])) huge_state = Some t"
    by (simp add: loop_step_def loop_at_def huge_run read_fits_def)
  have "avail t + held t = avail huge_state + held huge_state - 4294967296"
    by (rule huge_payload_breaks_semaphore [OF reachable_new [OF huge_run(1)] _ _ _ t, of
          "\<lparr>l_conn = 1, l_pc = L_Payload (sample_header 2147483648)\<rparr>" "sample_header 2147483648"])
      (simp_all add: loop_at_def huge_run)
  with t show ?thesis by (simp add: held_def huge_run)
qed

text \<open>
  A header that announces more than the server's whole memory blocks its connection for ever: the
  fiber waits for memory that no reachable state can grant, and no other event moves it.
\<close>

theorem oversized_blocks:
  assumes "reachable (server_init cfg) (server_step cfg) s"
    and "loop_at s k = Some l" and "l_pc l = L_WaitMem hdr"
    and "memory_limit s < int (unat (hdr_size hdr))"
  shows "loop_step cfg k ev s = None"
proof -
  have inv: "memory_inv cfg s" by (rule memory.inv_reachable [OF assms(1)])
  then have "avail s < int (unat (hdr_size hdr))"
    using held_nonneg [OF inv] assms(4) by (auto simp: memory_inv_def)
  then show ?thesis using assms(2,3) by (simp add: loop_step_def split: event.splits)
qed

definition oversized_state :: server where
  "oversized_state = the (run (server_step sample_cfg)
     [Accept ''peer'', Loop_check 0, Header_read 0 (Inr (header_to_bytes (sample_header 1001)))]
     (rpc_server_new 1000 5))"

lemma oversized_run:
  "run (server_step sample_cfg)
     [Accept ''peer'', Loop_check 0, Header_read 0 (Inr (header_to_bytes (sample_header 1001)))]
     (rpc_server_new 1000 5) = Some oversized_state"
  "loops oversized_state = [\<lparr>l_conn = 1, l_pc = L_WaitMem (sample_header 1001)\<rparr>]"
  "memory_limit oversized_state = 1000"
  by (simp_all add: oversized_state_def loop_run_defs sample_cfg_def compression_flags_defs Let_def)

theorem oversized_blocks_witness:
  "loop_step sample_cfg 0 (Memory_granted 0) oversized_state = None"
  by (rule oversized_blocks [OF reachable_new [OF oversized_run(1)], of _
        "\<lparr>l_conn = 1, l_pc = L_WaitMem (sample_header 1001)\<rparr>" "sample_header 1001"])
    (simp_all add: loop_at_def oversized_run)

section \<open>Requests and replies\<close>

text \<open>
  C32. Reads of one connection are never interleaved: in every reachable state
  \<^verbatim>\<open>istream_active_parser\<close> of a connection is 1 exactly while its fiber reads a header, so the
  assertion at the start of \<^verbatim>\<open>parse_header\<close> cannot fire when the fiber starts the next message.
\<close>

theorem reads_never_interleave:
  assumes "reachable (server_init cfg) (server_step cfg) s" and "loop_at s k = Some l"
  shows "parser_of s (l_conn l) = Some (of_bool (l_pc l = L_Header)) \<and>
    (l_pc l = L_Check \<longrightarrow>
      (\<exists>c c'. conn_of s (l_conn l) = Some c \<and> parse_header_start dbg c = Inr c'))"
proof -
  note inv = wf.inv_reachable [OF assms(1)]
  obtain c where c: "conns s (l_conn l) = Some c"
    "istream_active_parser (conn c) = of_bool (l_pc l = L_Header)" by (rule loop_conn [OF inv assms(2)])
  then have "\<exists>c'. parse_header_start dbg (conn c) = Inr c'" if "l_pc l = L_Check"
    using that by (simp add: parse_header_start_def dlog_throw_if_def)
  with c show ?thesis by (auto simp: parser_of_def conn_of_def)
qed

lemma answered_reachable: "reachable (server_init sample_cfg) (server_step sample_cfg) answered_state"
proof -
  have "run (server_step sample_cfg) (request_events (sample_header 2) @ reply_events [5, 6])
     (rpc_server_new 1000 5) = Some answered_state"
    by (simp add: answered_state_def lossless_step_def only_events_def lossless_def sample_run_defs
        Let_def)
  then show ?thesis by (rule reachable_new)
qed

theorem reads_never_interleave_witness:
  "parser_of answered_state 1 = Some 0 \<and>
   (\<exists>c c'. conn_of answered_state 1 = Some c \<and> parse_header_start True c = Inr c')"
  using reads_never_interleave [OF answered_reachable, of 0 "\<lparr>l_conn = 1, l_pc = L_Check\<rparr>" True]
  by (simp add: loop_at_def answered_sel)

text \<open>
  C6. A handler runs only on requests it should see: whenever a fiber is about to run a handler, the
  handler is the one the router has for the id of a request that was received whole with the size and
  checksum its header states, and the context it gets is that request after the incoming filters,
  with no compression left on it.
\<close>

theorem handlers_see_valid_requests:
  assumes "reachable (server_init cfg) (server_step cfg) s"
    and "t \<in> set (tasks s)" and "t_pc t = T_Handler ctx h"
  shows "\<exists>a hdr b. acceptable (checksum_fn cfg) hdr b \<and>
    get_handle_for_request (routes cfg) (hdr_meta hdr) = Some h \<and>
    apply_incoming_filters cfg (received_ctx a hdr b) = Inr ctx \<and>
    hdr_compression (ctx_header ctx) = compression_flags_none"
proof -
  have "task_ok cfg t"
    using replies.inv_reachable [OF assms(1)] assms(2) by (simp add: replies_inv_def tasks_ok_def)
  then obtain ctx0 where c: "handled_by cfg ctx0 ctx h" using assms(3) by (auto simp: task_ok_def)
  then obtain a hdr b where "acceptable (checksum_fn cfg) hdr b" "ctx0 = received_ctx a hdr b"
    by (auto simp: handled_by_def request_ok_def received_ok_def)
  moreover have "request_id (received_ctx a hdr b) = hdr_meta hdr"
    by (simp add: request_id_def received_ctx_def)
  ultimately show ?thesis using c by (auto simp: handled_by_def)
qed

definition handling_state :: server where
  "handling_state = the (run (server_step sample_cfg)
     (request_events (sample_header 2) @ [Payload_read 0 (Inr [5, 6]), Filters_in 0])
     (rpc_server_new 1000 5))"

lemma handling_run:
  "run (server_step sample_cfg)
     (request_events (sample_header 2) @ [Payload_read 0 (Inr [5, 6]), Filters_in 0])
     (rpc_server_new 1000 5) = Some handling_state"
  by (simp add: handling_state_def sample_run_defs Let_def)

lemma handling_task:
  "tasks handling_state = [\<lparr>t_conn = 1, t_payload_size = 2,
     t_pc = T_Handler \<lparr>ctx_remote_address = ''peer'', ctx_header = sample_header 2, ctx_payload = [5, 6]\<rparr>
       (generated_handle (hd (gs_methods (sample_service 1 [2]))))\<rparr>]"
proof -
  have route: "get_handle_for_request (generated_routes [sample_service 1 [2]]) 3 =
      Some (generated_handle (hd (gs_methods (sample_service 1 [2]))))"
    by (simp add: get_handle_for_request_def services_generated_routes service_of_def sample_service_def)
  show ?thesis
    by (simp add: handling_state_def request_events_def loop_run_defs task_run_defs sample_cfg_def
        compression_flags_defs check_payload_def max_flatbuffers_size_def
        header_bit_flags_has_payload_headers_def rpc_checksum_payload_def sample_xxh_def
        request_id_def route apply_incoming_filters_def kHeaderSize_def Let_def)
qed

theorem handlers_see_valid_requests_witness:
  "\<exists>a hdr b. acceptable (checksum_fn sample_cfg) hdr b \<and>
    get_handle_for_request (routes sample_cfg) (hdr_meta hdr) =
      Some (generated_handle (hd (gs_methods (sample_service 1 [2])))) \<and>
    apply_incoming_filters sample_cfg (received_ctx a hdr b) =
      Inr \<lparr>ctx_remote_address = ''peer'', ctx_header = sample_header 2, ctx_payload = [5, 6]\<rparr> \<and>
    hdr_compression (ctx_header \<lparr>ctx_remote_address = ''peer'', ctx_header = sample_header 2,
      ctx_payload = [5, 6]\<rparr>) = compression_flags_none"
  by (rule handlers_see_valid_requests [OF reachable_new [OF handling_run]])
    (simp add: handling_task, simp)

text \<open>
  C3. Replies are written whole, one after the other: on a connection on which no write failed, what
  the server has sent is a sequence of complete messages, each the outgoing-filtered reply of the
  handler of a valid request, followed at most by the header of one more reply whose body is about
  to be written. However many requests of a connection are in flight, their replies never mix.
\<close>

theorem replies_never_mix:
  assumes "reachable (server_init cfg) (server_step cfg) s" and "conns s i = Some c"
    and "\<not> write_failed c"
  shows "\<exists>es part. (\<forall>e \<in> set es. answer cfg e) \<and> sent c = concat (map envelope_wire es) @ part \<and>
    (part = [] \<or> (\<exists>t e. t \<in> set (tasks s) \<and> t_conn t = i \<and> t_pc t = T_Body e \<and> answer cfg e \<and>
      part = header_to_bytes (env_header e)))"
proof -
  note inv = replies.inv_reachable [OF assms(1)]
  then have w: "wire_ok cfg s i" and ts: "tasks_ok cfg s" by (simp_all add: replies_inv_def)
  have crit: "crit i (tasks s) \<le> 1"
    using w assms(2) by (auto simp: wire_ok_def writing_of_def)
  obtain es where es: "\<forall>e \<in> set es. answer cfg e"
    "sent c = concat (map envelope_wire es) @ parts i (tasks s)"
    using w assms(2,3) by (auto simp: wire_ok_def failed_of_def sent_of_def)
  have "parts i (tasks s) = [] \<or> (\<exists>t e. t \<in> set (tasks s) \<and> t_conn t = i \<and> t_pc t = T_Body e \<and>
      parts i (tasks s) = header_to_bytes (env_header e))"
    using crit by (rule parts_one)
  then show ?thesis using es ts by (fastforce simp: tasks_ok_def task_ok_def)
qed

theorem replies_never_mix_witness:
  "\<exists>es part. (\<forall>e \<in> set es. answer sample_cfg e) \<and>
     envelope_wire (sample_envelope 7 200 [5, 6]) = concat (map envelope_wire es) @ part \<and>
     (part = [] \<or> (\<exists>t e. t \<in> set (tasks answered_state) \<and> t_conn t = 1 \<and> t_pc t = T_Body e \<and>
       answer sample_cfg e \<and> part = header_to_bytes (env_header e)))"
proof -
  obtain c where "conns answered_state 1 = Some c" "sent c = envelope_wire (sample_envelope 7 200 [5, 6])"
    "\<not> write_failed c"
    by (simp add: answered_state_def lossless_step_def only_events_def lossless_def sample_run_defs
      envelope_wire_def Let_def)
  then show ?thesis using replies_never_mix [OF answered_reachable, of 1 c] by metis
qed

text \<open>The run of a request, all the way.\<close>

lemma request_run:
  assumes "acceptable (checksum_fn cfg) h b" and "int (length b) \<le> uint mem"
    and "get_handle_for_request (routes cfg) (hdr_meta h) = Some m"
    and "apply_incoming_filters cfg (received_ctx ''peer'' h b) = Inr ctx"
    and "hdr_compression (ctx_header ctx) = compression_flags_none"
    and "m ctx = Inr r0" and "apply_outgoing_filters cfg r0 = Inr r"
    and "hdr_size (env_header r) \<noteq> 0" and "hdr_checksum (env_header r) \<noteq> 0"
  shows "\<exists>s. run (server_step cfg) (request_events h @ reply_events b) (rpc_server_new mem d) = Some s \<and>
    sent_of s 1 = Some (envelope_wire r) \<and> avail s = memory_limit s \<and> gate_count s = 0 \<and>
    tasks s = [] \<and> completed_requests (stats s) = 1 \<and> open_connections s = {1}"
proof -
  have hdr: "check_header (header_to_bytes h) = Some (received_header h)"
    using assms(1) header_describes_size [of "checksum_fn cfg" h b]
    by (auto simp: check_header_Some acceptable_def)
  have pay: "check_payload (checksum_fn cfg) ''peer'' (received_header h) b = Some (received_ctx ''peer'' h b)"
    using assms(1) by (simp add: check_payload_Some acceptable_def received_ctx_def)
  have sz: "unat (hdr_size h) = length b" "sint (hdr_size h) = int (length b)"
    using length_acceptable [OF assms(1)] check_payload_sint [OF pay] by simp_all
  have id: "request_id (received_ctx ''peer'' h b) = hdr_meta h" "hdr_meta h \<noteq> 0"
    using assms(1) by (simp_all add: request_id_def received_ctx_def acceptable_def)
  show ?thesis
    using assms(2-9)
    by (simp add: request_events_def reply_events_def accept_connection_def loop_step_def loop_at_def
        loop_check_def session_header_def session_granted_def session_payload_def dispatch_rpc_def
        parse_header_start_def parse_header_done_def parse_payload_done_def note_read_def read_fits_def
        hdr pay sz id dlog_throw_if_def upd_conn_def upd_stats_def set_loop_def remove_nth_def signal_def
        cleanup_dispatch_rpc_def conn_of_def is_valid_def has_error_def task_run_defs
        rpc_server_new_def rpc_connection_limits_new_def rpc_server_connection_new_def
        rpc_connection_new_def rpc_server_stats_new_def sent_of_def envelope_wire_def Let_def
        del: of_nat_unat)
qed

text \<open>
  A well-behaved request is answered: on a fresh server, for every message the receiver accepts
  whose payload fits the memory, whose id has a handler and which the filters and the handler process
  without an exception, the events of reading it, filtering it, handling it and writing it out are
  all enabled, and lead to a state in which exactly the bytes of the reply are on the wire, all
  memory is available again, the gate is empty and one request is counted as completed.
\<close>

theorem request_is_answered:
  assumes "acceptable (checksum_fn cfg) h b" and "int (length b) \<le> uint mem"
    and "get_handle_for_request (routes cfg) (hdr_meta h) = Some m"
    and "apply_incoming_filters cfg (received_ctx ''peer'' h b) = Inr ctx"
    and "hdr_compression (ctx_header ctx) = compression_flags_none"
    and "m ctx = Inr r0" and "apply_outgoing_filters cfg r0 = Inr r"
    and "hdr_size (env_header r) \<noteq> 0" and "hdr_checksum (env_header r) \<noteq> 0"
  shows "\<exists>s. run (server_step cfg) (request_events h @ reply_events b) (rpc_server_new mem d) = Some s \<and>
    sent_of s 1 = Some (envelope_wire r) \<and> avail s = memory_limit s \<and> gate_count s = 0 \<and>
    tasks s = [] \<and> completed_requests (stats s) = 1 \<and> open_connections s = {1}"
  using assms by (rule request_run)

lemma sample_header_acceptable: "acceptable sample_xxh (sample_header 2) [5, 6]"
  by (simp add: acceptable_def header_describes_def rpc_checksum_payload_def sample_xxh_def)

theorem request_is_answered_witness:
  "\<exists>s. run (server_step sample_cfg) (request_events (sample_header 2) @ reply_events [5, 6])
      (rpc_server_new 1000 5) = Some s \<and>
    sent_of s 1 = Some (envelope_wire (sample_envelope 7 200 [5, 6])) \<and> avail s = memory_limit s \<and>
    gate_count s = 0 \<and> tasks s = [] \<and> completed_requests (stats s) = 1 \<and> open_connections s = {1}"
proof (rule request_is_answered)
  show "acceptable (checksum_fn sample_cfg) (sample_header 2) [5, 6]"
    using sample_header_acceptable by (simp add: sample_cfg_def)
  show "get_handle_for_request (routes sample_cfg) (hdr_meta (sample_header 2)) =
      Some (generated_handle (hd (gs_methods (sample_service 1 [2]))))"
    by (simp add: sample_cfg_def get_handle_for_request_def services_generated_routes service_of_def
        sample_service_def)
  show "apply_incoming_filters sample_cfg (received_ctx ''peer'' (sample_header 2) [5, 6]) =
      Inr (received_ctx ''peer'' (sample_header 2) [5, 6])"
    by (simp add: apply_incoming_filters_def sample_cfg_def)
  show "generated_handle (hd (gs_methods (sample_service 1 [2])))
      (received_ctx ''peer'' (sample_header 2) [5, 6]) = Inr (sample_envelope 7 200 [5, 6])"
    by (simp add: sample_run_defs received_ctx_def received_header_def)
  show "apply_outgoing_filters sample_cfg (sample_envelope 7 200 [5, 6]) = Inr (sample_envelope 7 200 [5, 6])"
    by (simp add: apply_outgoing_filters_def sample_cfg_def)
qed (simp_all add: sample_defs received_ctx_def received_header_def compression_flags_defs)

text \<open>
  C31. A request that no service handles, or that carries no id, closes its connection and nothing
  else: the connection gets an error and leaves \<^verbatim>\<open>open_connections_\<close>, is disabled and shut down both
  ways and counted as bad, no fiber is started, the memory is given back and the gate is left as it
  was; every other connection is untouched.
\<close>

theorem unroutable_closes_connection:
  assumes "request_id ctx = 0 \<or> get_handle_for_request (routes cfg) (request_id ctx) = None"
    and "conns s i = Some c" and "i \<in> open_connections s" and "\<not> gate_closed s"
    and "gate_count s = length (tasks s)"
  shows "\<exists>t c'. dispatch_rpc cfg n i (Some ctx) s = (t, Inr ()) \<and> conns t = (conns s)(i \<mapsto> c') \<and>
    has_error (conn c') \<and> \<not> conn_enabled (conn c') \<and> input_shut (conn c') \<and> output_shut (conn c') \<and>
    open_connections t = open_connections s - {i} \<and> tasks t = tasks s \<and>
    gate_count t = length (tasks t) \<and> avail t = avail s + n \<and>
    bad_requests (stats t) = bad_requests (stats s) + 1"
  using assms
  by (auto simp: dispatch_rpc_def do_dispatch_rpc_def finish_dispatch_def cleanup_dispatch_rpc_def
      conn_of_def conn_set_error_def upd_conn_def upd_stats_def signal_def Let_def
      disable_def shutdown_input_def shutdown_output_def has_error_def set_error_def
      split: option.splits)

theorem unroutable_closes_connection_witness:
  "\<exists>t c'. dispatch_rpc sample_cfg 2 1 (Some (arrives ''peer'' (sample_envelope 7 99 [1, 2]))) answered_state =
      (t, Inr ()) \<and> conns t = (conns answered_state)(1 \<mapsto> c') \<and>
    has_error (conn c') \<and> \<not> conn_enabled (conn c') \<and> input_shut (conn c') \<and> output_shut (conn c') \<and>
    open_connections t = open_connections answered_state - {1} \<and> tasks t = tasks answered_state \<and>
    gate_count t = length (tasks t) \<and> avail t = avail answered_state + 2 \<and>
    bad_requests (stats t) = bad_requests (stats answered_state) + 1"
proof -
  obtain c where "conns answered_state 1 = Some c" "1 \<in> open_connections answered_state"
    "\<not> gate_closed answered_state"
    by (simp add: answered_state_def lossless_step_def only_events_def lossless_def sample_run_defs Let_def)
  moreover have "request_id (arrives ''peer'' (sample_envelope 7 99 [1, 2])) = 0 \<or>
      get_handle_for_request (routes sample_cfg)
        (request_id (arrives ''peer'' (sample_envelope 7 99 [1, 2]))) = None"
    by (simp add: sample_cfg_def get_handle_for_request_def services_generated_routes service_of_def
        sample_service_def request_id_def arrives_def received_ctx_def sample_defs)
  ultimately show ?thesis
    by (intro unroutable_closes_connection) (simp_all add: answered_sel)
qed

text \<open>
  An exception of an incoming filter ends the request, not the connection: the fiber is gone and
  its memory is given back, but no connection is closed or marked with an error, no reply is sent and
  no counter moves. (The comment in \<^verbatim>\<open>do_dispatch_rpc\<close> says such an exception interrupts the entire
  connection.)
\<close>

theorem filter_exception_keeps_connection:
  assumes "task_at s k = Some t" and "t_pc t = T_InFilters ctx h"
    and "apply_incoming_filters cfg ctx = Inl e"
  shows "\<exists>s'. server_step cfg (Filters_in k) s = Some s' \<and> conns s' = conns s \<and>
    open_connections s' = open_connections s \<and> stats s' = stats s \<and>
    tasks s' = remove_nth k (tasks s) \<and> avail s' = avail s + t_payload_size t"
  using assms
  by (simp add: task_step_def dispatch_filtered_def task_end_def finish_dispatch_def remove_task_def
      signal_def Let_def)

definition throwing_cfg :: server_cfg where
  "throwing_cfg = register_incoming_filter (\<lambda>c. Inl (Foreign ''filter'')) sample_cfg"

definition filtering_state :: server where
  "filtering_state = the (run (server_step throwing_cfg)
     (request_events (sample_header 2) @ [Payload_read 0 (Inr [5, 6])]) (rpc_server_new 1000 5))"

theorem filter_exception_keeps_connection_witness:
  "\<exists>s'. server_step throwing_cfg (Filters_in 0) filtering_state = Some s' \<and>
    conns s' = conns filtering_state \<and> open_connections s' = open_connections filtering_state \<and>
    stats s' = stats filtering_state \<and> tasks s' = remove_nth 0 (tasks filtering_state) \<and>
    avail s' = avail filtering_state + t_payload_size (tasks filtering_state ! 0)"
proof -
  obtain ctx h where "task_at filtering_state 0 = Some (tasks filtering_state ! 0)"
    "t_pc (tasks filtering_state ! 0) = T_InFilters ctx h"
    by (simp add: filtering_state_def throwing_cfg_def register_incoming_filter_def sample_run_defs
        Let_def)
  then show ?thesis
    by (rule filter_exception_keeps_connection)
      (simp add: throwing_cfg_def register_incoming_filter_def sample_cfg_def apply_incoming_filters_def)
qed

section \<open>Counters and shutdown\<close>

text \<open>
  C34. What the connection counters count: in every reachable state \<^verbatim>\<open>total_connections\<close> is the number
  of the last connection, every connection that is not open any more was counted as a bad request,
  and \<^verbatim>\<open>active_connections\<close> is, modulo \<open>2^64\<close>, the number of open connections \<^emph>\<open>minus\<close> the number of
  connection objects destroyed so far: each closed connection is subtracted twice.
\<close>

theorem connection_counters:
  assumes "reachable (server_init cfg) (server_step cfg) s"
  shows "total_connections (stats s) = connection_idx s \<and>
    bad_requests (stats s) = total_connections (stats s) - of_nat (card (open_connections s)) \<and>
    active_connections (stats s) = of_nat (card (open_connections s)) -
      (total_connections (stats s) - of_nat (card (live s)))"
  using counters.inv_reachable [OF assms] by (auto simp: stats_inv_def counts_ok_def algebra_simps)

definition closed_state :: server where
  "closed_state = the (run (server_step sample_cfg)
     [Accept ''peer'', Loop_check 0, Header_read 0 (Inr []), Loop_check 0, Destroy 1]
     (rpc_server_new 1000 5))"

lemma closed_run:
  "run (server_step sample_cfg)
     [Accept ''peer'', Loop_check 0, Header_read 0 (Inr []), Loop_check 0, Destroy 1]
     (rpc_server_new 1000 5) = Some closed_state"
  "active_connections (stats closed_state) = - 1" "open_connections closed_state = {}"
  by (simp_all add: closed_state_def loop_run_defs kHeaderSize_def referenced_def
      destroy_connection_def Let_def)

theorem connection_counters_witness:
  "active_connections (stats closed_state) = 18446744073709551615 \<and>
   total_connections (stats closed_state) = connection_idx closed_state \<and>
   bad_requests (stats closed_state) =
     total_connections (stats closed_state) - of_nat (card (open_connections closed_state))"
proof -
  have "active_connections (stats closed_state) = 18446744073709551615"
    unfolding closed_run(2) by simp
  then show ?thesis using connection_counters [OF reachable_new [OF closed_run(1)]] by blast
qed

text \<open>
  \<^verbatim>\<open>rpc_server::stop\<close> completes when, and only when, no dispatched request is left: in every
  reachable state the gate counts exactly the fibers of requests.
\<close>

theorem stop_waits_for_requests:
  assumes "reachable (server_init cfg) (server_step cfg) s"
  shows "gate_count s = length (tasks s) \<and> (stop_done s \<longleftrightarrow> gate_closed s \<and> tasks s = [])"
  using wf.inv_reachable [OF assms] by (auto simp: server_wf_def stop_done_def)

theorem stop_waits_for_requests_witness:
  "gate_count handling_state = 1 \<and>
   (stop_done handling_state \<longleftrightarrow> gate_closed handling_state \<and> tasks handling_state = [])"
  using stop_waits_for_requests [OF reachable_new [OF handling_run]] by (simp add: handling_task)

end
