(* ===== verification/Draining.thy ===== *)
theory Draining
  imports Smf_Prelude Transition
begin

text \<open>
  Progress of machines: a machine whose fibers, left to themselves, come to an end.
\<close>

text \<open>Sums over lists of fibers.\<close>

lemma sum_list_split:
  fixes f :: "'a \<Rightarrow> nat"
  assumes "k < length xs"
  shows "(\<Sum>x\<leftarrow>xs. f x) = (\<Sum>x\<leftarrow>take k xs. f x) + (f (xs ! k) + (\<Sum>x\<leftarrow>drop (Suc k) xs. f x))"
  using arg_cong [OF id_take_nth_drop [OF assms], of "\<lambda>ys. \<Sum>x\<leftarrow>ys. f x"] by simp

lemma sum_list_moved:
  fixes f :: "'a \<Rightarrow> nat"
  assumes "k < length xs" "f v < f (xs ! k)"
  shows "(\<Sum>x\<leftarrow>xs[k := v]. f x) < (\<Sum>x\<leftarrow>xs. f x)"
  using assms sum_list_split [OF assms(1), of f] by (simp add: upd_conv_take_nth_drop)

lemma sum_list_removed:
  fixes f :: "'a \<Rightarrow> nat"
  assumes "k < length xs" "0 < f (xs ! k)"
  shows "(\<Sum>x\<leftarrow>remove_nth k xs. f x) < (\<Sum>x\<leftarrow>xs. f x)"
  using assms(2) sum_list_split [OF assms(1), of f] by (simp add: remove_nth_def)

lemma sum_list_positive:
  fixes f :: "'a \<Rightarrow> nat"
  shows "0 < (\<Sum>x\<leftarrow>xs. f x) \<Longrightarrow> \<exists>k < length xs. 0 < f (xs ! k)"
proof (induction xs)
  case (Cons x xs)
  show ?case
  proof (cases "0 < f x")
    case True
    then show ?thesis by (intro exI [of _ 0]) simp
  next
    case False
    with Cons obtain k where "k < length xs" "0 < f (xs ! k)" by auto
    then show ?thesis by (intro exI [of _ "Suc k"]) simp
  qed
qed simp

lemma sum_list_zero: "(\<And>x. x \<in> set xs \<Longrightarrow> f x = 0) \<Longrightarrow> (\<Sum>x\<leftarrow>xs. f x) = (0 :: int)"
  by (induction xs) simp_all

lemma int_sum_of_bool: "int (\<Sum>x\<leftarrow>xs. of_bool (P x)) = (\<Sum>x\<leftarrow>xs. of_bool (P x))"
  by (induction xs) simp_all

lemma run_only_events:
  "run (only_events P step) es s = Some t \<longleftrightarrow> list_all P es \<and> run step es s = Some t"
  by (induction es arbitrary: s) (auto simp: only_events_def split: option.splits)

text \<open>
  A machine some of whose events use up \<open>work\<close>, and which has such an event as long as work is left: it can
  be drained, and no sequence of these events is longer than the work.
\<close>

locale draining_machine = machine_invariant init step inv
  for init :: "'c \<Rightarrow> 's \<Rightarrow> bool" and step :: "'c \<Rightarrow> 'e \<Rightarrow> 's \<Rightarrow> 's option" and inv :: "'c \<Rightarrow> 's \<Rightarrow> bool" +
  fixes draining :: "'e \<Rightarrow> bool"
    and work :: "'s \<Rightarrow> nat"
  assumes work_less: "inv c s \<Longrightarrow> step c e s = Some t \<Longrightarrow> draining e \<Longrightarrow> work t < work s"
    and work_enabled: "inv c s \<Longrightarrow> 0 < work s \<Longrightarrow> \<exists>e t. draining e \<and> step c e s = Some t"
begin

lemma drain_bounded:
  "inv c s \<Longrightarrow> run (step c) es s = Some t \<Longrightarrow> list_all draining es \<Longrightarrow> length es + work t \<le> work s"
proof (induction es arbitrary: s)
  case (Cons e es)
  then obtain u where "step c e s = Some u" "run (step c) es u = Some t" by (auto split: option.splits)
  with Cons inv_step [of c s e u] work_less [of c s e u] show ?case by fastforce
qed simp

lemma drains: "inv c s \<Longrightarrow> \<exists>es t. list_all draining es \<and> run (step c) es s = Some t \<and> work t = 0"
proof (induction "work s" arbitrary: s rule: less_induct)
  case less
  show ?case
  proof (cases "work s = 0")
    case True
    then have "list_all draining [] \<and> run (step c) [] s = Some s \<and> work s = 0" by simp
    then show ?thesis by blast
  next
    case False
    then obtain e u where e: "draining e" "step c e s = Some u" using work_enabled less.prems by blast
    with less inv_step work_less obtain es t where
      "list_all draining es" "run (step c) es u = Some t" "work t = 0" by blast
    with e have "list_all draining (e # es) \<and> run (step c) (e # es) s = Some t \<and> work t = 0" by simp
    then show ?thesis by blast
  qed
qed

end

end
