(* ===== verification/Rpc_Server_Progress.thy ===== *)
theory Rpc_Server_Progress
  imports Rpc_Server_Properties Draining
begin

text \<open>
  Progress of the server: the fibers of dispatched requests never wait for each other in a circle, and each
  step of one of them brings it closer to its end, so that they all end however they are scheduled.
\<close>

section \<open>Steps of requests\<close>

fun request_event :: "event \<Rightarrow> bool" where
  "request_event (Filters_in k) = True"
| "request_event (Handler_done k) = True"
| "request_event (Filters_out k) = True"
| "request_event (Write_granted k w) = True"
| "request_event (Body_written k w) = True"
| "request_event (Reply_flushed k w) = True"
| "request_event (Flushed k w) = True"
| "request_event _ = False"

text \<open>How many waits are ahead of a fiber, at most.\<close>

fun waits_ahead :: "task_pc \<Rightarrow> nat" where
  "waits_ahead (T_InFilters ctx h) = 7"
| "waits_ahead (T_Handler ctx h) = 6"
| "waits_ahead (T_OutFilters e) = 5"
| "waits_ahead (T_WaitWrite e) = 4"
| "waits_ahead (T_Body e) = 3"
| "waits_ahead (T_SendFlush e) = 2"
| "waits_ahead T_Flush = 1"

definition work :: "task list \<Rightarrow> nat" where
  "work ts = (\<Sum>t\<leftarrow>ts. waits_ahead (t_pc t))"

lemma waits_bounds: "0 < waits_ahead p" "waits_ahead p \<le> 7"
  by (cases p; simp)+

lemma work_bound: "work ts \<le> 7 * length ts"
  using sum_list_mono [of ts "\<lambda>t. waits_ahead (t_pc t)" "\<lambda>_. 7"] waits_bounds(2)
  by (simp add: work_def sum_list_triv)

lemma work_moved:
  assumes "k < length ts" "waits_ahead p < waits_ahead (t_pc (ts ! k))"
  shows "work (ts[k := (ts ! k)\<lparr>t_pc := p\<rparr>]) < work ts"
  using assms by (simp add: work_def sum_list_moved)

lemma work_removed: "k < length ts \<Longrightarrow> work (remove_nth k ts) < work ts"
  using waits_bounds(1) by (simp add: work_def sum_list_removed)

lemmas request_steps = dispatch_filtered_def dispatch_handled_def dispatch_reply_def send_header_def
  send_body_def send_flush_def dispatch_flush_def write_error_def

lemma request_step_works:
  assumes "server_step cfg ev s = Some t" "request_event ev"
  shows "work (tasks t) < work (tasks s)" "loops t = loops s" "gate_closed t = gate_closed s"
  using assms
  by (cases rule: server_step_cases;
      auto simp: request_steps task_at_Some work_moved work_removed set_task_def lock_writes_def
        write_out_def split: sum.splits option.splits)+

text \<open>A fiber that waits for the write lock of its connection waits for one that holds it, and that one goes on.\<close>

lemma request_enabled:
  assumes "replies_inv cfg s" "tasks s \<noteq> []"
  shows "\<exists>ev t. request_event ev \<and> server_step cfg ev s = Some t"
proof (cases "\<exists>k < length (tasks s). \<forall>e. t_pc (tasks s ! k) \<noteq> T_WaitWrite e")
  case True
  then obtain k where k: "k < length (tasks s)" "\<forall>e. t_pc (tasks s ! k) \<noteq> T_WaitWrite e" by blast
  have "\<exists>ev \<in> {Filters_in k, Handler_done k, Filters_out k, Body_written k None, Reply_flushed k None,
      Flushed k None}. \<exists>t. server_step cfg ev s = Some t"
    using k by (cases "t_pc (tasks s ! k)") (auto simp: task_step_def task_at_def)
  then obtain ev t where "ev \<in> {Filters_in k, Handler_done k, Filters_out k, Body_written k None,
      Reply_flushed k None, Flushed k None}" "server_step cfg ev s = Some t" by blast
  moreover from this(1) have "request_event ev" by auto
  ultimately show ?thesis by blast
next
  case False
  then have waiting: "\<exists>e. t_pc t = T_WaitWrite e" if "t \<in> set (tasks s)" for t
    using that by (metis in_set_conv_nth)
  obtain t ts where ts: "tasks s = t # ts" using assms(2) by (cases "tasks s") auto
  then obtain e where e: "t_pc t = T_WaitWrite e" using waiting by force
  have "t_conn t \<in> live s" using assms(1) ts by (auto simp: replies_inv_def server_wf_def)
  then obtain c where c: "conns s (t_conn t) = Some c" by (auto simp: live_def)
  have "crit (t_conn t) (tasks s) = 0"
    using waiting by (fastforce simp: crit_def critical_def filter_empty_conv)
  then have "\<not> writing c"
    using assms(1) c by (auto simp: replies_inv_def wire_ok_def writing_of_def)
  then have "server_step cfg (Write_granted 0 None) s = Some (send_header cfg 0 t e None s)"
    using ts e c by (simp add: task_step_def task_at_def)
  then show ?thesis by (metis request_event.simps(4))
qed

interpretation requests: draining_machine server_init server_step replies_inv request_event
  "\<lambda>s. work (tasks s)"
proof
  show "work (tasks t) < work (tasks s)" if "server_step cfg e s = Some t" "request_event e" for cfg e s t
    using that by (rule request_step_works)
  show "\<exists>e t. request_event e \<and> server_step cfg e s = Some t" if "replies_inv cfg s" "0 < work (tasks s)" for cfg s
    using that by (intro request_enabled) (auto simp: work_def)
qed

lemma work_0: "work ts = 0 \<longleftrightarrow> ts = []"
  using waits_bounds(1) by (cases ts) (auto simp: work_def)

lemma drain_keeps:
  "run (server_step cfg) es s = Some t \<Longrightarrow> list_all request_event es \<Longrightarrow>
     loops t = loops s \<and> gate_closed t = gate_closed s"
proof (induction es arbitrary: s)
  case (Cons e es)
  then obtain u where "server_step cfg e s = Some u" "run (server_step cfg) es u = Some t"
    by (auto split: option.splits)
  with Cons request_step_works [of cfg e s u] show ?case by fastforce
qed simp

text \<open>
  C11. Dispatched requests end. In every reachable state, as long as a request is in flight some fiber of a
  request can go on, no schedule lets these fibers take more than seven steps each, and letting them go on
  leads to a state with none: the loops of the connections are where they were, and a server that is
  being stopped has stopped.
\<close>

theorem requests_drain:
  assumes "reachable (server_init cfg) (server_step cfg) s"
  shows "(tasks s \<noteq> [] \<longrightarrow> (\<exists>e t. request_event e \<and> server_step cfg e s = Some t)) \<and>
    (\<forall>es t. list_all request_event es \<longrightarrow> run (server_step cfg) es s = Some t \<longrightarrow> length es \<le> 7 * length (tasks s)) \<and>
    (\<exists>es t. list_all request_event es \<and> run (server_step cfg) es s = Some t \<and> tasks t = [] \<and>
       gate_count t = 0 \<and> loops t = loops s \<and> (gate_closed s \<longrightarrow> stop_done t))"
proof -
  have inv: "replies_inv cfg s" by (rule replies.inv_reachable [OF assms])
  obtain es t where es: "list_all request_event es" "run (server_step cfg) es s = Some t" "tasks t = []"
    using requests.drains [OF inv] by (auto simp: work_0)
  have "gate_count t = 0"
    using replies.inv_run [OF inv es(2)] es(3) by (simp add: replies_inv_def server_wf_def)
  with es drain_keeps [OF es(2,1)] have "stop_done t = gate_closed s" "loops t = loops s" "gate_count t = 0"
    by (simp_all add: stop_done_def)
  with es have "\<exists>es t. list_all request_event es \<and> run (server_step cfg) es s = Some t \<and> tasks t = [] \<and>
       gate_count t = 0 \<and> loops t = loops s \<and> (gate_closed s \<longrightarrow> stop_done t)" by blast
  moreover have "length es \<le> 7 * length (tasks s)"
    if "list_all request_event es" "run (server_step cfg) es s = Some t" for es t
    using requests.drain_bounded [OF inv that(2,1)] work_bound [of "tasks s"] by linarith
  ultimately show ?thesis using request_enabled [OF inv] by blast
qed

theorem requests_drain_witness:
  "tasks handling_state \<noteq> [] \<and>
   (\<exists>es t. list_all request_event es \<and> run (server_step sample_cfg) es handling_state = Some t \<and>
      tasks t = [] \<and> gate_count t = 0 \<and> loops t = loops handling_state)"
  using requests_drain [OF reachable_new [OF handling_run]] by (fastforce simp: handling_task)

section \<open>Requests on an open connection\<close>












end
