(* ===== verification/Histogram.thy ===== *)
theory Histogram
  imports Complex_Main Smf_Prelude
begin

text \<open>
  Latency histograms (\<^verbatim>\<open>include/smf/histogram.h\<close>, \<^verbatim>\<open>core/histogram.cc\<close>), the adder of
  \<^verbatim>\<open>unique_histogram_adder.h\<close> and the writer of \<^verbatim>\<open>histogram_seastar_utils\<close>. The C library HdrHistogram is a
  parameter (\<open>hdr_lib\<close>): \<open>'h\<close> is its histogram, \<open>'i\<close> its iterator.
\<close>

section \<open>The library\<close>

record ('h, 'i) hdr_lib =
  hdr_init :: "int \<Rightarrow> int \<Rightarrow> int \<Rightarrow> 'h option"
  hdr_record_value :: "'h \<Rightarrow> int \<Rightarrow> 'h"
  hdr_record_values :: "'h \<Rightarrow> int \<Rightarrow> int \<Rightarrow> 'h"
  hdr_record_corrected_value :: "'h \<Rightarrow> int \<Rightarrow> int \<Rightarrow> 'h"
  hdr_add :: "'h \<Rightarrow> 'h \<Rightarrow> 'h"
  hdr_value_at_percentile :: "'h \<Rightarrow> rat \<Rightarrow> int"
  hdr_stddev :: "'h \<Rightarrow> rat"
  hdr_mean :: "'h \<Rightarrow> rat"
  hdr_get_memory_size :: "'h \<Rightarrow> nat"
  hdr_percentiles_print :: "'h \<Rightarrow> int \<Rightarrow> rat \<Rightarrow> bytes"
  hdr_iter_log_init :: "'h \<Rightarrow> int \<Rightarrow> rat \<Rightarrow> 'i"
  hdr_iter_next :: "'i \<Rightarrow> 'i \<times> bool"
  cumulative_count :: "'i \<Rightarrow> int"
  value_iterated_to :: "'i \<Rightarrow> int"

section \<open>Recording\<close>

definition kDefaultHistogramMaxValue :: int where
  "kDefaultHistogramMaxValue = 3600000000"

record 'h hist_t =
  hist :: "'h option"
  sample_count :: u64
  sample_sum :: u64

definition hist_t_new :: "('h, 'i) hdr_lib \<Rightarrow> int \<Rightarrow> 'h hist_t" where
  "hist_t_new L max_value = \<lparr>hist = hdr_init L 1 max_value 3, sample_count = 0, sample_sum = 0\<rparr>"

text \<open>
  A histogram owns its \<open>hist_t\<close> through a \<^verbatim>\<open>unique_ptr\<close>: \<open>None\<close> is one that was moved from. Using it, or
  one whose allocation failed, dereferences a null pointer: the operations return \<open>None\<close>.
\<close>

type_synonym 'h histogram = "'h hist_t option"

definition make_unique :: "('h, 'i) hdr_lib \<Rightarrow> int \<Rightarrow> 'h histogram" where
  "make_unique L max_value = Some (hist_t_new L max_value)"

definition on_hdr :: "('h \<Rightarrow> 'h) \<Rightarrow> 'h hist_t \<Rightarrow> 'h hist_t option" where
  "on_hdr f t = map_option (\<lambda>h. t\<lparr>hist := Some (f h)\<rparr>) (hist t)"

definition record_sample :: "('h, 'i) hdr_lib \<Rightarrow> u64 \<Rightarrow> 'h histogram \<Rightarrow> 'h histogram" where
  "record_sample L v h = Option.bind h (\<lambda>t.
     on_hdr (\<lambda>x. hdr_record_value L x (sint v))
       (t\<lparr>sample_count := sample_count t + 1, sample_sum := sample_sum t + v\<rparr>))"

definition record_multiple_times :: "('h, 'i) hdr_lib \<Rightarrow> u64 \<Rightarrow> u32 \<Rightarrow> 'h histogram \<Rightarrow> 'h histogram" where
  "record_multiple_times L v reps h = Option.bind h (\<lambda>t.
     on_hdr (\<lambda>x. hdr_record_values L x (sint v) (uint reps))
       (t\<lparr>sample_count := sample_count t + ucast reps, sample_sum := sample_sum t + v * ucast reps\<rparr>))"

definition record_corrected :: "('h, 'i) hdr_lib \<Rightarrow> u64 \<Rightarrow> u64 \<Rightarrow> 'h histogram \<Rightarrow> 'h histogram" where
  "record_corrected L v interval h = Option.bind h (\<lambda>t.
     on_hdr (\<lambda>x. hdr_record_corrected_value L x (sint v) (sint interval))
       (t\<lparr>sample_count := sample_count t + 1, sample_sum := sample_sum t + v\<rparr>))"

definition hist_add :: "('h, 'i) hdr_lib \<Rightarrow> 'h histogram \<Rightarrow> 'h histogram \<Rightarrow> 'h histogram" where
  "hist_add L a b = Option.bind a (\<lambda>t. Option.bind b (\<lambda>u. Option.bind (hist u) (\<lambda>y.
     on_hdr (\<lambda>x. hdr_add L x y) t)))"

text \<open>Moving: the new owner, and what is left.\<close>

definition hist_move :: "'h histogram \<Rightarrow> 'h histogram \<times> 'h histogram" where
  "hist_move h = (h, None)"

definition value_at :: "('h, 'i) hdr_lib \<Rightarrow> rat \<Rightarrow> 'h histogram \<Rightarrow> int option" where
  "value_at L percentile h =
     Option.bind h (\<lambda>t. map_option (\<lambda>x. hdr_value_at_percentile L x percentile) (hist t))"

definition stddev :: "('h, 'i) hdr_lib \<Rightarrow> 'h histogram \<Rightarrow> rat option" where
  "stddev L h = Option.bind h (\<lambda>t. map_option (hdr_stddev L) (hist t))"

definition mean :: "('h, 'i) hdr_lib \<Rightarrow> 'h histogram \<Rightarrow> rat option" where
  "mean L h = Option.bind h (\<lambda>t. map_option (hdr_mean L) (hist t))"

definition memory_size :: "('h, 'i) hdr_lib \<Rightarrow> 'h histogram \<Rightarrow> nat option" where
  "memory_size L h = Option.bind h (\<lambda>t. map_option (hdr_get_memory_size L) (hist t))"

definition hist_print :: "('h, 'i) hdr_lib \<Rightarrow> 'h histogram \<Rightarrow> bytes option" where
  "hist_print L h = Option.bind h (\<lambda>t. map_option (\<lambda>x. hdr_percentiles_print L x 5 1) (hist t))"

text \<open>\<^verbatim>\<open>histogram_measure\<close>: the time since it was made is recorded when it is destroyed.\<close>

record measure =
  ms_trace :: bool
  ms_hist :: bool
  ms_begin :: int

definition auto_measure :: "int \<Rightarrow> measure" where
  "auto_measure now = \<lparr>ms_trace = True, ms_hist = True, ms_begin = now\<rparr>"

definition measure_move :: "measure \<Rightarrow> measure \<times> measure" where
  "measure_move m = (m, m\<lparr>ms_hist := False\<rparr>)"

definition set_trace :: "bool \<Rightarrow> measure \<Rightarrow> measure" where
  "set_trace b m = m\<lparr>ms_trace := b\<rparr>"

text \<open>Times are in nanoseconds; \<^verbatim>\<open>duration_cast\<close> truncates towards zero.\<close>

definition measure_destroy :: "('h, 'i) hdr_lib \<Rightarrow> measure \<Rightarrow> int \<Rightarrow> 'h histogram \<Rightarrow> 'h histogram" where
  "measure_destroy L m now h =
     (if ms_hist m \<and> ms_trace m then
        (let d = now - ms_begin m in
         record_sample L (of_int (if 0 \<le> d then d div 1000 else - ((- d) div 1000))) h)
      else h)"

text \<open>\<^verbatim>\<open>unique_histogram_adder\<close>: the map-reduce of the histograms of several cores.\<close>

definition adder_add :: "('h, 'i) hdr_lib \<Rightarrow> 'h histogram option \<Rightarrow> 'h histogram \<Rightarrow> 'h histogram" where
  "adder_add L val res = (case val of None \<Rightarrow> res | Some h \<Rightarrow> hist_add L res h)"

section \<open>The buckets of the metrics endpoint\<close>

record bucket =
  bk_count :: int
  bk_upper_bound :: int

record seastar_histogram =
  ss_sample_count :: u64
  ss_sample_sum :: u64
  ss_buckets :: "bucket list"

definition bucket_of :: "('h, 'i) hdr_lib \<Rightarrow> 'i \<Rightarrow> bucket" where
  "bucket_of L it = \<lparr>bk_count = cumulative_count L it, bk_upper_bound = value_iterated_to L it\<rparr>"

text \<open>
  The loop over the iterator: \<open>n\<close> buckets are left to fill. The iterator advances before the index is
  compared.
\<close>

fun fill_buckets :: "('h, 'i) hdr_lib \<Rightarrow> nat \<Rightarrow> 'i \<Rightarrow> bucket list \<times> 'i" where
  "fill_buckets L 0 it = ([], fst (hdr_iter_next L it))"
| "fill_buckets L (Suc n) it =
     (case hdr_iter_next L it of
        (it1, False) \<Rightarrow> ([], it1)
      | (it1, True) \<Rightarrow> (case fill_buckets L n it1 of (bs, it2) \<Rightarrow> (bucket_of L it1 # bs, it2)))"

definition num_buckets :: nat where
  "num_buckets = 26"

definition first_value :: int where
  "first_value = 10"

definition log_base :: rat where
  "log_base = 2"

fun pad_buckets :: "nat \<Rightarrow> int \<Rightarrow> int \<Rightarrow> bucket list" where
  "pad_buckets 0 count val = []"
| "pad_buckets (Suc n) count val = \<lparr>bk_count = count, bk_upper_bound = val\<rparr> # pad_buckets n count (val * \<lfloor>log_base\<rfloor>)"

definition seastar_histogram_logform :: "('h, 'i) hdr_lib \<Rightarrow> 'h histogram \<Rightarrow> seastar_histogram option" where
  "seastar_histogram_logform L h = Option.bind h (\<lambda>t. Option.bind (hist t) (\<lambda>x.
     (let (bs, it) = fill_buckets L num_buckets (hdr_iter_log_init L x first_value log_base);
          val = (if length bs = 0 then first_value
            else if length bs < num_buckets then value_iterated_to L it * \<lfloor>log_base\<rfloor>
            else value_iterated_to L it) in
      Some \<lparr>ss_sample_count = sample_count t, ss_sample_sum = sample_sum t,
        ss_buckets = bs @ pad_buckets (num_buckets - length bs) (cumulative_count L it) val\<rparr>)))"

section \<open>Writing to a file\<close>

text \<open>
  \<^verbatim>\<open>print_histogram\<close>: \<open>stream\<close> tells whether \<^verbatim>\<open>open_memstream\<close> succeeded. \<^verbatim>\<open>write_histogram\<close>: the results of
  the file operations are parameters; what was written is the first component.
\<close>

definition print_histogram :: "('h, 'i) hdr_lib \<Rightarrow> bool \<Rightarrow> 'h histogram \<Rightarrow> bytes option fut" where
  "print_histogram L stream h = log_throw_if (\<not> stream) ''Failed to allocate filestream'' (Inr (hist_print L h))"

record file_results =
  fr_open :: "unit fut"
  fr_stream :: "unit fut"
  fr_write :: "bytes \<Rightarrow> unit fut"
  fr_flush :: "unit fut"
  fr_close :: "unit fut"

definition write_histogram ::
  "('h, 'i) hdr_lib \<Rightarrow> file_results \<Rightarrow> bool \<Rightarrow> 'h histogram \<Rightarrow> bytes option fut" where
  "write_histogram L R stream h =
     fut_then (fr_open R) (\<lambda>_. fut_then (fr_stream R) (\<lambda>_.
       fut_then (print_histogram L stream h) (\<lambda>buf.
         (case buf of
            None \<Rightarrow> Inr None
          | Some bs \<Rightarrow> fut_then (fr_write R bs) (\<lambda>_. fut_then (fr_flush R) (\<lambda>_.
              fut_then (fr_close R) (\<lambda>_. Inr (Some bs))))))))"

section \<open>Properties\<close>

lemma log_base_floor [simp]: "\<lfloor>log_base\<rfloor> = 2"
  by (simp add: log_base_def)

lemma on_hdr_Some: "hist t = Some h \<Longrightarrow> on_hdr f t = Some (t\<lparr>hist := Some (f h)\<rparr>)"
  by (simp add: on_hdr_def)

subsection \<open>Samples\<close>

text \<open>
  What a histogram promises about its samples: their number and their sum, as far as 64 bits hold them.
  The operations, and the samples each of them adds.
\<close>

datatype hist_op =
    Record u64
  | Record_multiple u64 u32
  | Record_corrected u64 u64

fun run_op :: "('h, 'i) hdr_lib \<Rightarrow> hist_op \<Rightarrow> 'h histogram \<Rightarrow> 'h histogram" where
  "run_op L (Record v) h = record_sample L v h"
| "run_op L (Record_multiple v n) h = record_multiple_times L v n h"
| "run_op L (Record_corrected v i) h = record_corrected L v i h"

fun op_samples :: "hist_op \<Rightarrow> nat list" where
  "op_samples (Record v) = [unat v]"
| "op_samples (Record_multiple v n) = replicate (unat n) (unat v)"
| "op_samples (Record_corrected v i) = [unat v]"

definition samples_of :: "'h histogram \<Rightarrow> nat list \<Rightarrow> bool" where
  "samples_of h xs \<longleftrightarrow> (\<exists>t. h = Some t \<and> hist t \<noteq> None \<and> sample_count t = of_nat (length xs) \<and>
     sample_sum t = of_nat (sum_list xs))"

lemma run_op_samples:
  assumes "samples_of h xs"
  shows "samples_of (run_op L p h) (xs @ op_samples p)"
proof -
  obtain t x where t: "h = Some t" "hist t = Some x" "sample_count t = of_nat (length xs)"
    "sample_sum t = of_nat (sum_list xs)"
    using assms by (auto simp: samples_of_def)
  then show ?thesis
    by (cases p) (simp_all add: samples_of_def record_sample_def record_multiple_times_def
        record_corrected_def on_hdr_def sum_list_replicate mult.commute)
qed

text \<open>
  C24. Whatever is recorded in a new histogram, its sample count and sum are those of the recorded values,
  modulo two to the 64.
\<close>

theorem histogram_refines_samples:
  assumes "hdr_init L 1 max_value 3 \<noteq> None"
  shows "samples_of (fold (run_op L) ops (make_unique L max_value)) (concat (map op_samples ops))"
proof (induction ops rule: rev_induct)
  case Nil
  show ?case using assms by (simp add: samples_of_def make_unique_def hist_t_new_def)
next
  case (snoc p ops)
  from run_op_samples [OF this, of L p] show ?case by simp
qed


text \<open>
  Adding a histogram to another one adds the values the library counts, but neither the sample count nor
  the sum that the metrics endpoint reports: after \<^verbatim>\<open>+=\<close> they are those of the first histogram alone.
\<close>

theorem add_drops_samples:
  assumes "samples_of a xs" "samples_of b ys"
  shows "samples_of (hist_add L a b) xs"
  using assms by (auto simp: samples_of_def hist_add_def on_hdr_def)

subsection \<open>Buckets\<close>

text \<open>
  The logarithmic iteration of the library, as documented: the \<open>k\<close>-th successful step goes to the first
  value times the \<open>k\<close>-th power of the base and has counted \<open>cs ! k\<close> values; the step that fails
  changes neither. \<open>w\<close> is the value iterated to last, \<open>c\<close> the count, \<open>v\<close> the next value.
\<close>

fun log_iteration :: "('h, 'i) hdr_lib \<Rightarrow> int \<Rightarrow> int \<Rightarrow> int \<Rightarrow> int list \<Rightarrow> 'i \<Rightarrow> bool" where
  "log_iteration L w c v [] it \<longleftrightarrow>
     (case hdr_iter_next L it of (it1, ok) \<Rightarrow> \<not> ok \<and> value_iterated_to L it1 = w \<and> cumulative_count L it1 = c)"
| "log_iteration L w c v (d # ds) it \<longleftrightarrow>
     (case hdr_iter_next L it of (it1, ok) \<Rightarrow> ok \<and> value_iterated_to L it1 = v \<and> cumulative_count L it1 = d \<and>
       log_iteration L v d (v * 2) ds it1)"

lemma upt_0_Suc: "[0..<Suc n] = 0 # map Suc [0..<n]"
  by (simp add: upt_conv_Cons map_Suc_upt del: upt_Suc)

lemma fill_buckets_log:
  assumes "log_iteration L w c v cs it"
  shows "\<exists>it'. fill_buckets L n it =
      (map (\<lambda>k. \<lparr>bk_count = cs ! k, bk_upper_bound = v * 2 ^ k\<rparr>) [0..<min n (length cs)], it') \<and>
    (length cs < n \<longrightarrow> cumulative_count L it' = last (c # cs) \<and>
       value_iterated_to L it' = (if cs = [] then w else v * 2 ^ (length cs - 1)))"
  using assms
proof (induction cs arbitrary: w c v it n)
  case Nil
  then show ?case by (cases n) (auto split: prod.splits bool.splits)
next
  case (Cons d ds)
  obtain it1 where 1: "hdr_iter_next L it = (it1, True)" "value_iterated_to L it1 = v"
    "cumulative_count L it1 = d" "log_iteration L v d (v * 2) ds it1"
    using Cons.prems by (auto split: prod.splits)
  show ?case
  proof (cases n)
    case 0
    then show ?thesis by simp
  next
    case (Suc m)
    obtain it' where 2: "fill_buckets L m it1 =
        (map (\<lambda>k. \<lparr>bk_count = ds ! k, bk_upper_bound = v * 2 * 2 ^ k\<rparr>) [0..<min m (length ds)], it')"
      "length ds < m \<longrightarrow> cumulative_count L it' = last (d # ds) \<and>
        value_iterated_to L it' = (if ds = [] then v else v * 2 * 2 ^ (length ds - 1))"
      using Cons.IH [OF 1(4)] by blast
    have "[0..<min (Suc m) (length (d # ds))] = 0 # map Suc [0..<min m (length ds)]"
      by (simp add: upt_0_Suc del: upt_Suc)
    moreover have "v * 2 * 2 ^ (length ds - 1) = v * 2 ^ length ds" if "ds \<noteq> []"
      using that by (cases ds) simp_all
    ultimately show ?thesis using 1 2 by (auto simp: Suc bucket_of_def)
  qed
qed

lemma pad_buckets_map:
  "pad_buckets n c v = map (\<lambda>k. \<lparr>bk_count = c, bk_upper_bound = v * 2 ^ k\<rparr>) [0..<n]"
proof (induction n arbitrary: v)
  case (Suc n)
  show ?case using Suc [of "v * 2"] by (simp add: upt_0_Suc del: upt_Suc)
qed simp

lemma padded_buckets:
  assumes "log_iteration L w 0 v cs it0" "fill_buckets L n it0 = (bs, it)"
  shows "bs @ pad_buckets (n - length bs) (cumulative_count L it)
      (if length bs = 0 then v else if length bs < n then value_iterated_to L it * 2 else value_iterated_to L it) =
    map (\<lambda>k. \<lparr>bk_count = (0 # cs) ! min (Suc k) (length cs), bk_upper_bound = v * 2 ^ k\<rparr>) [0..<n]"
proof -
  let ?m = "length cs"
  define h where "h = (\<lambda>k. \<lparr>bk_count = (0 # cs) ! min (Suc k) ?m, bk_upper_bound = v * 2 ^ k\<rparr>)"
  have bs: "bs = map h [0..<min n ?m]"
    and it: "?m < n \<Longrightarrow> cumulative_count L it = last (0 # cs) \<and>
       value_iterated_to L it = (if cs = [] then w else v * 2 ^ (?m - 1))"
    using fill_buckets_log [OF assms(1), of n] assms(2) by (auto simp: h_def)
  show ?thesis unfolding h_def [symmetric]
  proof (cases "?m < n")
    case True
    have pad: "pad_buckets (n - ?m) (cumulative_count L it) (v * 2 ^ ?m) = map h [?m..<n]"
      using it True
      by (intro nth_equalityI) (simp_all add: h_def pad_buckets_map power_add last_conv_nth)
    have "(if ?m = 0 then v else value_iterated_to L it * 2) = v * 2 ^ ?m"
      using it True by (cases cs) simp_all
    moreover have "map h [0..<?m] @ map h [?m..<n] = map h [0..<n]"
      using upt_add_eq_append [of 0 ?m "n - ?m"] True by (simp flip: map_append)
    ultimately show "bs @ pad_buckets (n - length bs) (cumulative_count L it)
      (if length bs = 0 then v else if length bs < n then value_iterated_to L it * 2 else value_iterated_to L it) =
      map h [0..<n]" using pad True by (cases "cs = []") (simp_all add: bs)
  next
    case False
    then show "bs @ pad_buckets (n - length bs) (cumulative_count L it)
      (if length bs = 0 then v else if length bs < n then value_iterated_to L it * 2 else value_iterated_to L it) =
      map h [0..<n]" by (simp add: bs)
  qed
qed

text \<open>
  C26. However many buckets the library reports, the metrics endpoint gets exactly 26, with upper bounds
  10, 20, 40, and so on, and with the cumulative counts of the library, repeated from its last one on. No
  bound overflows an \<^verbatim>\<open>int64_t\<close>.
\<close>

theorem logform_buckets:
  assumes "hist t = Some x" and "log_iteration L w 0 10 cs (hdr_iter_log_init L x 10 2)"
  shows "\<exists>s. seastar_histogram_logform L (Some t) = Some s \<and>
    ss_buckets s = map (\<lambda>k. \<lparr>bk_count = (0 # cs) ! min (Suc k) (length cs), bk_upper_bound = 10 * 2 ^ k\<rparr>) [0..<26] \<and>
    (\<forall>b\<in>set (ss_buckets s). bk_upper_bound b * 2 < 2 ^ 63)"
proof -
  obtain bs it where fill: "fill_buckets L num_buckets (hdr_iter_log_init L x 10 2) = (bs, it)"
    by fastforce
  obtain s where s: "seastar_histogram_logform L (Some t) = Some s"
    "ss_buckets s = map (\<lambda>k. \<lparr>bk_count = (0 # cs) ! min (Suc k) (length cs), bk_upper_bound = 10 * 2 ^ k\<rparr>) [0..<num_buckets]"
    using padded_buckets [OF assms(2) fill] fill assms(1)
    by (simp add: seastar_histogram_logform_def first_value_def log_base_def cong: if_cong)
  have "10 * 2 ^ k * 2 < (2 :: int) ^ 63" if "k < num_buckets" for k
  proof -
    have "(2 :: int) ^ k \<le> 2 ^ 26" using that by (intro power_increasing) (simp_all add: num_buckets_def)
    also have "\<dots> = 67108864" by simp
    finally show ?thesis by simp
  qed
  then have "\<forall>b\<in>set (ss_buckets s). bk_upper_bound b * 2 < 2 ^ 63" by (simp add: s(2))
  with s(1) s(2) [unfolded num_buckets_def] show ?thesis by blast
qed

text \<open>A library that keeps the recorded values in a list, and iterates over the given counts.\<close>

definition list_hdr :: "int list \<Rightarrow> (int list, int \<times> int \<times> int \<times> int list) hdr_lib" where
  "list_hdr cs = \<lparr>hdr_init = (\<lambda>_ _ _. Some []), hdr_record_value = (\<lambda>h v. v # h),
     hdr_record_values = (\<lambda>h v n. replicate (nat n) v @ h),
     hdr_record_corrected_value = (\<lambda>h v i. v # h), hdr_add = (@), hdr_value_at_percentile = (\<lambda>h p. 0),
     hdr_stddev = (\<lambda>h. 0), hdr_mean = (\<lambda>h. 0), hdr_get_memory_size = length,
     hdr_percentiles_print = (\<lambda>h n m. []), hdr_iter_log_init = (\<lambda>h v b. (0, 0, v, cs)),
     hdr_iter_next = (\<lambda>(w, c, v, ds). case ds of [] \<Rightarrow> ((w, c, v, ds), False)
       | d # es \<Rightarrow> ((v, d, v * 2, es), True)),
     cumulative_count = (\<lambda>(w, c, v, ds). c), value_iterated_to = (\<lambda>(w, c, v, ds). w)\<rparr>"

definition sample_hist :: "int list hist_t" where
  "sample_hist = \<lparr>hist = Some [4, 3], sample_count = 2, sample_sum = 7\<rparr>"

theorem histogram_refines_samples_witness:
  "samples_of (fold (run_op (list_hdr [])) [Record 3, Record_multiple 4 2] (make_unique (list_hdr []) 100)) [3, 4, 4]"
proof -
  have "concat (map op_samples [Record 3, Record_multiple 4 2]) = [3, 4, 4]" by code_simp
  moreover have "hdr_init (list_hdr []) 1 100 3 \<noteq> None" by (simp add: list_hdr_def)
  ultimately show ?thesis
    using histogram_refines_samples [of "list_hdr []" 100 "[Record 3, Record_multiple 4 2]"] by argo
qed


theorem add_drops_samples_witness:
  "samples_of (hist_add (list_hdr []) (Some sample_hist) (Some sample_hist)) [3, 4]"
  by (rule add_drops_samples [where ys = "[3, 4]"]) (simp_all add: samples_of_def sample_hist_def)

theorem logform_buckets_witness:
  "\<exists>s. seastar_histogram_logform (list_hdr [1, 2]) (Some sample_hist) = Some s \<and>
     ss_buckets s = map (\<lambda>k. \<lparr>bk_count = (0 # [1, 2]) ! min (Suc k) (length [1, 2 :: int]),
       bk_upper_bound = 10 * 2 ^ k\<rparr>) [0..<26]"
proof -
  have h: "hist sample_hist = Some [4, 3]" by (simp add: sample_hist_def)
  have "log_iteration (list_hdr [1, 2]) 0 0 10 [1, 2] (hdr_iter_log_init (list_hdr [1, 2]) [4, 3] 10 2)"
    by (simp add: list_hdr_def)
  from logform_buckets [OF h this] show ?thesis by blast
qed

end
