(* ===== verification/Rpc_Server_Start.thy ===== *)
theory Rpc_Server_Start
  imports Rpc_Server Histogram
begin

text \<open>
  The arguments of a server (\<^verbatim>\<open>rpc_server_args.h\<close>) and what its constructor and \<^verbatim>\<open>start\<close> do with them
  (\<^verbatim>\<open>rpc_server.cc\<close>), as the list of sockets it listens on; and the copy of its latency histogram.
\<close>

section \<open>Arguments\<close>

record rpc_server_args =
  sa_ip :: string
  sa_rpc_port :: u16
  sa_http_port :: u16
  sa_flags :: u32
  sa_credentials :: bool
  sa_recv_timeout :: int
  sa_memory_avail_per_core :: u64

definition rpc_server_args_new :: rpc_server_args where
  "rpc_server_args_new =
     \<lparr>sa_ip = '''', sa_rpc_port = 11225, sa_http_port = 33140, sa_flags = 0, sa_credentials = False,
      sa_recv_timeout = 60000, sa_memory_avail_per_core = 2 ^ 31\<rparr>"

definition rpc_server_flags_disable_http_server :: u32 where
  "rpc_server_flags_disable_http_server = 1"

definition rpc_server_of_args :: "rpc_server_args \<Rightarrow> server" where
  "rpc_server_of_args a = rpc_server_new (sa_memory_avail_per_core a) (sa_recv_timeout a)"

section \<open>Starting\<close>

text \<open>An \<^verbatim>\<open>ipv4_addr\<close>: without an ip, every interface.\<close>

type_synonym ipv4_addr = "string option \<times> u16"

definition listen_address :: "string \<Rightarrow> u16 \<Rightarrow> ipv4_addr" where
  "listen_address ip port = (if ip = [] then None else Some ip, port)"

datatype listening =
    Http_admin ipv4_addr
  | Rpc_plain ipv4_addr
  | Rpc_tls ipv4_addr

definition rpc_server_start :: "rpc_server_args \<Rightarrow> listening list" where
  "rpc_server_start a =
     (if (sa_flags a AND rpc_server_flags_disable_http_server) = 0
      then [Http_admin (listen_address (sa_ip a) (sa_http_port a))] else []) @
     [if \<not> sa_credentials a then Rpc_plain (listen_address (sa_ip a) (sa_rpc_port a))
      else Rpc_tls (listen_address (sa_ip a) (sa_rpc_port a))]"

definition server_copy_histogram :: "('h, 'i) hdr_lib \<Rightarrow> 'h histogram \<Rightarrow> 'h histogram" where
  "server_copy_histogram L h = hist_add L (make_unique L kDefaultHistogramMaxValue) h"

section \<open>Lemmas\<close>

text \<open>A server with credentials never listens in plain text for calls, and one without never with TLS.\<close>

lemma start_rpc_listener:
  "filter (\<lambda>l. case l of Http_admin _ \<Rightarrow> False | _ \<Rightarrow> True) (rpc_server_start a) =
     [(if sa_credentials a then Rpc_tls else Rpc_plain) (listen_address (sa_ip a) (sa_rpc_port a))]"
  by (simp add: rpc_server_start_def)

text \<open>
  The copy that a shard reports has no samples, whatever the server recorded, because
  \<^verbatim>\<open>+=\<close> leaves them out.
\<close>

lemma copied_histogram_samples:
  assumes "hdr_init L 1 kDefaultHistogramMaxValue 3 \<noteq> None" "samples_of h xs"
  shows "samples_of (server_copy_histogram L h) []"
  using assms by (auto simp: samples_of_def server_copy_histogram_def hist_add_def on_hdr_def make_unique_def
      hist_t_new_def)

end
