(* ===== verification/Rpc_Client.thy ===== *)
theory Rpc_Client
  imports Rpc_Recv Rpc_Filter Transition
begin

text \<open>
  The client (\<^verbatim>\<open>rpc_client.cc\<close>, \<^verbatim>\<open>rpc_client.h\<close>) as a state machine, like the server: a fiber per
  call (\<^verbatim>\<open>send\<close> and \<^verbatim>\<open>raw_send\<close>), a fiber per write (\<^verbatim>\<open>dispatch_write\<close>), and the reader
  (\<^verbatim>\<open>do_reads\<close> and \<^verbatim>\<open>process_one_request\<close>). Calls and work items are never removed from the model's
  lists, so that a property can speak of what a call returned. \<^verbatim>\<open>rpc_slots_\<close> is an association list
  with distinct keys. Connection objects are numbered: a reader that \<^verbatim>\<open>with_timeout\<close> gave up on
  still holds the connection it was reading.
\<close>

section \<open>State\<close>

record rpc_client_opts =
  opt_server_addr :: string
  opt_credentials :: bool
  opt_recv_timeout :: int
  opt_memory_avail_for_client :: u64

definition rpc_client_opts_new :: "string \<Rightarrow> rpc_client_opts" where
  "rpc_client_opts_new address =
     \<lparr>opt_server_addr = address, opt_credentials = False, opt_recv_timeout = 60000,
      opt_memory_avail_for_client = 1073741824\<rparr>"

text \<open>The promise of a work item, and what it was fulfilled with.\<close>

datatype promise =
    Pending
  | Fulfilled "rpc_recv_context option"
  | Broken exn

record work_item =
  work_session :: u16
  pr :: promise

text \<open>A call: where \<^verbatim>\<open>raw_send\<close> waits, or what it returned.\<close>

datatype call_pc =
    C_OutFilters rpc_envelope nat
  | C_Wait nat
  | C_InFilters rpc_recv_context
  | C_Done "rpc_recv_context option fut"

record call =
  call_session :: u16
  call_pc :: call_pc

datatype write_pc =
    W_WaitMem
  | W_WaitLock
  | W_Body nat
  | W_Flush nat

record write_fiber =
  wr_env :: rpc_envelope
  wr_pc :: write_pc

datatype read_pc =
    R_Check
  | R_Header
  | R_Payload header

record read_fiber =
  rd_conn :: nat
  rd_attached :: bool
  rd_pc :: read_pc

record client_connection =
  cc_conn :: rpc_connection
  cc_tls :: bool
  cc_out :: bytes
  cc_failed :: bool

record client_cfg =
  c_debug :: bool
  c_xxh :: xxh64
  c_in_filters :: "rpc_recv_context rpc_filter list"
  c_out_filters :: "rpc_envelope rpc_filter list"

record client =
  server_addr :: string
  c_limits :: rpc_connection_limits
  creds :: bool
  read_counter :: u64
  c_conns :: "client_connection list"
  c_conn :: "nat option"
  rpc_slots :: "(u16 \<times> nat) list"
  works :: "work_item list"
  calls :: "call list"
  writes :: "write_fiber list"
  readers :: "read_fiber list"
  dispatch_count :: nat
  dispatch_closed :: bool
  reconnecting :: bool
  connecting :: nat
  c_writing :: bool
  hist_enabled :: bool
  session_idx :: u16

definition rpc_client_new :: "rpc_client_opts \<Rightarrow> client" where
  "rpc_client_new opts =
     \<lparr>server_addr = opt_server_addr opts,
      c_limits = rpc_connection_limits_new (opt_memory_avail_for_client opts) (opt_recv_timeout opts),
      creds = opt_credentials opts, read_counter = 0, c_conns = [], c_conn = None, rpc_slots = [],
      works = [], calls = [], writes = [], readers = [], dispatch_count = 0, dispatch_closed = False,
      reconnecting = False, connecting = 0, c_writing = False, hist_enabled = False,
      session_idx = 0\<rparr>"

definition rpc_client_of_addr :: "string \<Rightarrow> client" where
  "rpc_client_of_addr address = rpc_client_new (rpc_client_opts_new address)"

definition disable_histogram_metrics :: "client \<Rightarrow> client" where
  "disable_histogram_metrics s = s\<lparr>hist_enabled := False\<rparr>"

definition enable_histogram_metrics :: "client \<Rightarrow> client" where
  "enable_histogram_metrics s = s\<lparr>hist_enabled := True\<rparr>"

definition is_histogram_enabled :: "client \<Rightarrow> bool" where
  "is_histogram_enabled s = hist_enabled s"

section \<open>Connections and slots\<close>

definition upd_cconn :: "nat \<Rightarrow> (client_connection \<Rightarrow> client_connection) \<Rightarrow> client \<Rightarrow> client" where
  "upd_cconn i f s = s\<lparr>c_conns := (c_conns s)[i := f (c_conns s ! i)]\<rparr>"

definition set_cconn :: "nat \<Rightarrow> rpc_connection \<Rightarrow> client \<Rightarrow> client" where
  "set_cconn i c = upd_cconn i (\<lambda>x. x\<lparr>cc_conn := c\<rparr>)"

definition is_conn_valid :: "client \<Rightarrow> bool" where
  "is_conn_valid s = (case c_conn s of None \<Rightarrow> False | Some i \<Rightarrow> is_valid (cc_conn (c_conns s ! i)))"

text \<open>\<^verbatim>\<open>unordered_map::insert\<close> keeps an entry that is already there.\<close>

definition slot_insert :: "u16 \<Rightarrow> nat \<Rightarrow> (u16 \<times> nat) list \<Rightarrow> (u16 \<times> nat) list" where
  "slot_insert k w m = (if map_of m k = None then m @ [(k, w)] else m)"

definition slot_erase :: "u16 \<Rightarrow> (u16 \<times> nat) list \<Rightarrow> (u16 \<times> nat) list" where
  "slot_erase k m = filter (\<lambda>(k', w). k' \<noteq> k) m"

definition set_promise :: "nat \<Rightarrow> promise \<Rightarrow> work_item list \<Rightarrow> work_item list" where
  "set_promise w p ws = ws[w := (ws ! w)\<lparr>pr := p\<rparr>]"

text \<open>The loop of \<^verbatim>\<open>fail_outstanding_futures\<close>: break the promise of the first slot, erase the slot.\<close>

fun break_slots :: "(u16 \<times> nat) list \<Rightarrow> work_item list \<Rightarrow> work_item list" where
  "break_slots [] ws = ws"
| "break_slots ((k, w) # m) ws = break_slots m (set_promise w (Broken Remote_connection_error) ws)"

definition disable_conn :: "client \<Rightarrow> client" where
  "disable_conn s =
     (case c_conn s of
        None \<Rightarrow> s
      | Some i \<Rightarrow>
         if is_valid (cc_conn (c_conns s ! i))
         then set_cconn i (shutdown_output (shutdown_input (disable (cc_conn (c_conns s ! i))))) s
         else s)"

definition fail_outstanding_futures :: "client \<Rightarrow> client" where
  "fail_outstanding_futures s =
     (let s1 = disable_conn s in
      s1\<lparr>works := break_slots (rpc_slots s1) (works s1), rpc_slots := []\<rparr>)"

section \<open>Calls\<close>

definition set_call :: "nat \<Rightarrow> call_pc \<Rightarrow> client \<Rightarrow> client" where
  "set_call i p s = s\<lparr>calls := (calls s)[i := (calls s ! i)\<lparr>call_pc := p\<rparr>]\<rparr>"

definition gate_leave :: "client \<Rightarrow> client" where
  "gate_leave s = s\<lparr>dispatch_count := dispatch_count s - 1\<rparr>"

definition finish_call :: "nat \<Rightarrow> rpc_recv_context option fut \<Rightarrow> client \<Rightarrow> client" where
  "finish_call i r s = gate_leave (set_call i (C_Done r) s)"

text \<open>
  \<^verbatim>\<open>send\<close> and \<^verbatim>\<open>raw_send\<close> up to the outgoing filters. The two counters are incremented before the
  assertion on the slot.
\<close>

definition client_send :: "client_cfg \<Rightarrow> rpc_envelope \<Rightarrow> client \<Rightarrow> client" where
  "client_send cfg e s =
     (if dispatch_closed s
      then s\<lparr>calls := calls s @ [\<lparr>call_session = 0, call_pc = C_Done (Inl Gate_closed)\<rparr>]\<rparr>
      else if \<not> is_conn_valid s
      then s\<lparr>calls := calls s @ [\<lparr>call_session = 0, call_pc = C_Done (Inl Invalid_connection_state)\<rparr>]\<rparr>
      else
        (let idx = session_idx s + 1; w = length (works s);
             s1 = s\<lparr>session_idx := idx, read_counter := read_counter s + 1\<rparr> in
         if c_debug cfg \<and> map_of (rpc_slots s1) idx \<noteq> None
         then s1\<lparr>calls := calls s1 @ [\<lparr>call_session = idx,
             call_pc = C_Done (Inl (Runtime_error ''RPC slot already allocated''))\<rparr>]\<rparr>
         else s1\<lparr>works := works s1 @ [\<lparr>work_session = idx, pr = Pending\<rparr>],
             rpc_slots := slot_insert idx w (rpc_slots s1),
             calls := calls s1 @ [\<lparr>call_session = idx,
               call_pc = C_OutFilters (mutate_session idx e) w\<rparr>],
             dispatch_count := dispatch_count s1 + 1\<rparr>))"

definition client_apply_outgoing_filters :: "client_cfg \<Rightarrow> rpc_envelope \<Rightarrow> rpc_envelope fut" where
  "client_apply_outgoing_filters cfg e = rpc_filter_apply (c_out_filters cfg) e"

definition client_apply_incoming_filters ::
  "client_cfg \<Rightarrow> rpc_recv_context \<Rightarrow> rpc_recv_context fut" where
  "client_apply_incoming_filters cfg ctx = rpc_filter_apply (c_in_filters cfg) ctx"

text \<open>\<^verbatim>\<open>dispatch_write\<close> in the background; entering a closed gate throws into the call.\<close>

definition dispatch_write :: "rpc_envelope \<Rightarrow> client \<Rightarrow> client fut" where
  "dispatch_write e s =
     (if dispatch_closed s then Inl Gate_closed
      else Inr (s\<lparr>writes := writes s @ [\<lparr>wr_env = e, wr_pc = W_WaitMem\<rparr>],
        dispatch_count := dispatch_count s + 1\<rparr>))"

definition call_filtered :: "nat \<Rightarrow> nat \<Rightarrow> rpc_envelope fut \<Rightarrow> client \<Rightarrow> client" where
  "call_filtered i w r s =
     (case r of
        Inl x \<Rightarrow> finish_call i (Inl x) s
      | Inr e \<Rightarrow>
         (case dispatch_write e s of
            Inl x \<Rightarrow> finish_call i (Inl x) s
          | Inr s1 \<Rightarrow> set_call i (C_Wait w) s1))"

definition call_response :: "nat \<Rightarrow> nat \<Rightarrow> client \<Rightarrow> client" where
  "call_response i w s =
     (case pr (works s ! w) of
        Pending \<Rightarrow> s
      | Broken x \<Rightarrow> finish_call i (Inl x) s
      | Fulfilled None \<Rightarrow> finish_call i (Inr None) s
      | Fulfilled (Some ctx) \<Rightarrow> set_call i (C_InFilters ctx) s)"

definition call_incoming :: "nat \<Rightarrow> rpc_recv_context fut \<Rightarrow> client \<Rightarrow> client" where
  "call_incoming i r s =
     finish_call i (fut_then r (\<lambda>ctx.
       log_throw_if (hdr_compression (ctx_header ctx) \<noteq> compression_flags_none)
         ''client is communicating with a server speaking different compression protocols: {}''
         (Inr (Some ctx)))) s"

section \<open>Writes\<close>

definition set_write :: "nat \<Rightarrow> write_pc \<Rightarrow> client \<Rightarrow> client" where
  "set_write j p s = s\<lparr>writes := (writes s)[j := (writes s ! j)\<lparr>wr_pc := p\<rparr>]\<rparr>"

definition take_memory :: "int \<Rightarrow> client \<Rightarrow> client" where
  "take_memory n s =
     s\<lparr>c_limits := (c_limits s)\<lparr>resources_available := resources_available (c_limits s) - n\<rparr>\<rparr>"

definition write_memory :: "nat \<Rightarrow> client \<Rightarrow> client" where
  "write_memory j s =
     set_write j W_WaitLock (take_memory (int (envelope_size (wr_env (writes s ! j)))) s)"

text \<open>The end of a write: both semaphores are released, the gate is left.\<close>

definition write_end :: "nat \<Rightarrow> client \<Rightarrow> client" where
  "write_end j s =
     gate_leave (take_memory (- int (envelope_size (wr_env (writes s ! j))))
       (s\<lparr>writes := remove_nth j (writes s)\<rparr>))"

definition client_write_error :: "nat \<Rightarrow> nat \<Rightarrow> client \<Rightarrow> client" where
  "client_write_error j i s =
     write_end j ((fail_outstanding_futures (upd_cconn i (\<lambda>c. c\<lparr>cc_failed := True\<rparr>) s))
       \<lparr>c_writing := False\<rparr>)"

definition client_write_out :: "nat \<Rightarrow> bytes \<Rightarrow> client \<Rightarrow> client" where
  "client_write_out i bs = upd_cconn i (\<lambda>c. c\<lparr>cc_out := cc_out c @ bs\<rparr>)"

text \<open>
  \<^verbatim>\<open>rpc_envelope::send\<close> under \<^verbatim>\<open>serialize_writes_\<close>, on the output stream of the connection that is
  current when it starts. Its assertions throw before there is a future for \<^verbatim>\<open>handle_exception\<close>, so
  they end the write without failing the outstanding calls.
\<close>

definition write_header :: "client_cfg \<Rightarrow> nat \<Rightarrow> exn option \<Rightarrow> client \<Rightarrow> client" where
  "write_header cfg j werr s =
     (let e = wr_env (writes s ! j) in
      case c_conn s of
        None \<Rightarrow> s
      | Some i \<Rightarrow>
         if c_debug cfg \<and> (hdr_size (env_header e) = 0 \<or> hdr_checksum (env_header e) = 0)
         then write_end j s
         else case werr of
           Some x \<Rightarrow> client_write_error j i s
         | None \<Rightarrow> set_write j (W_Body i)
             (client_write_out i (header_to_bytes (env_header e)) (s\<lparr>c_writing := True\<rparr>)))"

definition write_body :: "nat \<Rightarrow> nat \<Rightarrow> exn option \<Rightarrow> client \<Rightarrow> client" where
  "write_body j i werr s =
     (case werr of
        Some x \<Rightarrow> client_write_error j i s
      | None \<Rightarrow> set_write j (W_Flush i) (client_write_out i (env_body (wr_env (writes s ! j))) s))"

definition write_flush :: "nat \<Rightarrow> nat \<Rightarrow> exn option \<Rightarrow> client \<Rightarrow> client" where
  "write_flush j i werr s =
     (case werr of
        Some x \<Rightarrow> client_write_error j i s
      | None \<Rightarrow> write_end j (s\<lparr>c_writing := False\<rparr>))"

section \<open>Reads\<close>

definition set_reader :: "nat \<Rightarrow> read_fiber \<Rightarrow> client \<Rightarrow> client" where
  "set_reader r f s = s\<lparr>readers := (readers s)[r := f]\<rparr>"

definition remove_reader :: "nat \<Rightarrow> client \<Rightarrow> client" where
  "remove_reader r s = s\<lparr>readers := remove_nth r (readers s)\<rparr>"

text \<open>
  \<^verbatim>\<open>process_one_request\<close> has returned: the loop of \<^verbatim>\<open>do_reads\<close> goes on. A reader that was given up
  on has no loop any more.
\<close>

definition read_next :: "nat \<Rightarrow> client \<Rightarrow> client" where
  "read_next r s =
     (if rd_attached (readers s ! r) then set_reader r ((readers s ! r)\<lparr>rd_pc := R_Check\<rparr>) s
      else remove_reader r s)"

text \<open>
  \<^verbatim>\<open>process_one_request\<close> has thrown: \<^verbatim>\<open>handle_exception\<close> of \<^verbatim>\<open>do_reads\<close>, and the gate is left.
\<close>

definition read_throw :: "nat \<Rightarrow> client \<Rightarrow> client" where
  "read_throw r s =
     (if rd_attached (readers s ! r)
      then gate_leave (fail_outstanding_futures (remove_reader r s))
      else remove_reader r s)"

definition read_check :: "client_cfg \<Rightarrow> nat \<Rightarrow> client \<Rightarrow> client" where
  "read_check cfg r s =
     (if \<not> is_conn_valid s then gate_leave (remove_reader r s)
      else case c_conn s of
        None \<Rightarrow> s
      | Some i \<Rightarrow>
         (case parse_header_start (c_debug cfg) (cc_conn (c_conns s ! i)) of
            Inl x \<Rightarrow> read_throw r s
          | Inr c \<Rightarrow> set_reader r ((readers s ! r)\<lparr>rd_conn := i, rd_pc := R_Header\<rparr>) (set_cconn i c s)))"

definition read_header :: "nat \<Rightarrow> bytes fut \<Rightarrow> client \<Rightarrow> client" where
  "read_header r rd s =
     (let i = rd_conn (readers s ! r);
          (c, res) = parse_header_done rd (cc_conn (c_conns s ! i));
          s1 = set_cconn i c s in
      case res of
        Inl x \<Rightarrow> read_throw r s1
      | Inr None \<Rightarrow>
          read_next r (fail_outstanding_futures
            (set_cconn i (set_error ''Could not parse header from server'' c) s1))
      | Inr (Some hdr) \<Rightarrow> set_reader r ((readers s1 ! r)\<lparr>rd_pc := R_Payload hdr\<rparr>) s1)"

definition read_payload :: "client_cfg \<Rightarrow> nat \<Rightarrow> header \<Rightarrow> bytes fut \<Rightarrow> client \<Rightarrow> client" where
  "read_payload cfg r hdr rd s =
     (let i = rd_conn (readers s ! r);
          (c, res) = parse_payload_done (c_xxh cfg) hdr rd (cc_conn (c_conns s ! i));
          s1 = set_cconn i c s in
      case res of
        Inl x \<Rightarrow> read_throw r s1
      | Inr opt \<Rightarrow>
         if c_debug cfg \<and> read_counter s1 \<le> 0 then read_throw r s1
         else case opt of
           None \<Rightarrow>
             read_next r (fail_outstanding_futures (set_cconn i
               (set_error ''Could not parse response from server. Bad payload'' c) s1))
         | Some ctx \<Rightarrow>
            (case map_of (rpc_slots s1) (recv_session ctx) of
               None \<Rightarrow>
                 read_next r (fail_outstanding_futures
                   (set_cconn i (set_error ''Invalid session'' c) s1))
             | Some w \<Rightarrow>
                 read_next r (s1\<lparr>read_counter := read_counter s1 - 1,
                   works := set_promise w (Fulfilled (Some ctx)) (works s1),
                   rpc_slots := slot_erase (recv_session ctx) (rpc_slots s1)\<rparr>)))"

text \<open>
  The timeout of \<^verbatim>\<open>do_reads\<close> covers the wait for the header, too. The fiber it gives up on keeps
  running on its own connection.
\<close>

definition read_timeout :: "nat \<Rightarrow> client \<Rightarrow> client" where
  "read_timeout r s =
     gate_leave (fail_outstanding_futures (set_reader r ((readers s ! r)\<lparr>rd_attached := False\<rparr>) s))"

section \<open>Connecting and stopping\<close>

definition client_connect :: "client \<Rightarrow> client fut" where
  "client_connect s =
     log_throw_if (is_conn_valid s)
       ''Client already connected to server: `{}'. connect called more than once.''
       (Inr (s\<lparr>connecting := connecting s + 1\<rparr>))"

text \<open>
  The thread of \<^verbatim>\<open>connect\<close> when the socket is connected (and wrapped, when there are credentials:
  they are moved from). A closed gate throws after the connection was stored.
\<close>

definition client_connected :: "client \<Rightarrow> client" where
  "client_connected s =
     (let i = length (c_conns s);
          s1 = s\<lparr>connecting := connecting s - 1, creds := False, c_conn := Some i,
            c_conns := c_conns s @ [\<lparr>cc_conn = rpc_connection_new ''0.0.0.0'', cc_tls = creds s,
              cc_out = [], cc_failed = False\<rparr>]\<rparr> in
      if dispatch_closed s1 then s1
      else s1\<lparr>readers := readers s1 @ [\<lparr>rd_conn = i, rd_attached = True, rd_pc = R_Check\<rparr>],
             dispatch_count := dispatch_count s1 + 1\<rparr>)"

definition client_connect_failed :: "client \<Rightarrow> client" where
  "client_connect_failed s = s\<lparr>connecting := connecting s - 1\<rparr>"

definition client_stop :: "client \<Rightarrow> client" where
  "client_stop s = (fail_outstanding_futures s)\<lparr>dispatch_closed := True\<rparr>"

definition client_stopped :: "client \<Rightarrow> bool" where
  "client_stopped s \<longleftrightarrow> dispatch_closed s \<and> dispatch_count s = 0"

definition client_reconnect :: "client \<Rightarrow> client" where
  "client_reconnect s = (client_stop (fail_outstanding_futures s))\<lparr>reconnecting := True\<rparr>"

text \<open>The continuation of \<^verbatim>\<open>stop\<close> in \<^verbatim>\<open>reconnect\<close>: a new gate, no connection, \<^verbatim>\<open>connect\<close>.\<close>

definition client_reopen :: "client \<Rightarrow> client fut" where
  "client_reopen s =
     log_throw_if (\<not> dispatch_closed s)
       ''Dispatch gate is not properly closed. Unrecoverable error.''
       (client_connect (s\<lparr>dispatch_closed := False, reconnecting := False, c_conn := None\<rparr>))"

section \<open>The machine\<close>

datatype client_event =
    Connect_call
  | Connected
  | Connect_failed
  | Send rpc_envelope
  | Call_filters_out nat
  | Call_response nat
  | Call_filters_in nat
  | Write_memory nat
  | Write_header nat "exn option"
  | Write_body nat "exn option"
  | Write_flush nat "exn option"
  | Read_check nat
  | Read_header nat "bytes fut"
  | Read_payload nat "bytes fut"
  | Read_timeout nat
  | Stop_call
  | Reconnect_call
  | Reconnect_go

definition fut_state :: "client fut \<Rightarrow> client option" where
  "fut_state r = (case r of Inl _ \<Rightarrow> None | Inr s \<Rightarrow> Some s)"

definition fits :: "nat \<Rightarrow> bytes fut \<Rightarrow> bool" where
  "fits n rd = (case rd of Inl _ \<Rightarrow> True | Inr bs \<Rightarrow> length bs \<le> n)"

definition call_step :: "client_cfg \<Rightarrow> nat \<Rightarrow> client_event \<Rightarrow> client \<Rightarrow> client option" where
  "call_step cfg i ev s =
     (if length (calls s) \<le> i then None
      else case (call_pc (calls s ! i), ev) of
        (C_OutFilters e w, Call_filters_out _) \<Rightarrow>
          Some (call_filtered i w (client_apply_outgoing_filters cfg e) s)
      | (C_Wait w, Call_response _) \<Rightarrow>
          if pr (works s ! w) = Pending then None else Some (call_response i w s)
      | (C_InFilters ctx, Call_filters_in _) \<Rightarrow>
          Some (call_incoming i (client_apply_incoming_filters cfg ctx) s)
      | _ \<Rightarrow> None)"

definition write_step :: "client_cfg \<Rightarrow> nat \<Rightarrow> client_event \<Rightarrow> client \<Rightarrow> client option" where
  "write_step cfg j ev s =
     (if length (writes s) \<le> j then None
      else case (wr_pc (writes s ! j), ev) of
        (W_WaitMem, Write_memory _) \<Rightarrow>
          if int (envelope_size (wr_env (writes s ! j))) \<le> resources_available (c_limits s)
          then Some (write_memory j s) else None
      | (W_WaitLock, Write_header _ werr) \<Rightarrow>
          if c_writing s \<or> c_conn s = None then None else Some (write_header cfg j werr s)
      | (W_Body i, Write_body _ werr) \<Rightarrow> Some (write_body j i werr s)
      | (W_Flush i, Write_flush _ werr) \<Rightarrow> Some (write_flush j i werr s)
      | _ \<Rightarrow> None)"

definition read_step :: "client_cfg \<Rightarrow> nat \<Rightarrow> client_event \<Rightarrow> client \<Rightarrow> client option" where
  "read_step cfg r ev s =
     (if length (readers s) \<le> r then None
      else case (rd_pc (readers s ! r), ev) of
        (R_Check, Read_check _) \<Rightarrow> Some (read_check cfg r s)
      | (R_Header, Read_header _ rd) \<Rightarrow>
          if fits kHeaderSize rd then Some (read_header r rd s) else None
      | (R_Payload hdr, Read_payload _ rd) \<Rightarrow>
          if fits (unat (hdr_size hdr)) rd then Some (read_payload cfg r hdr rd s) else None
      | (R_Header, Read_timeout _) \<Rightarrow>
          if rd_attached (readers s ! r) then Some (read_timeout r s) else None
      | (R_Payload hdr, Read_timeout _) \<Rightarrow>
          if rd_attached (readers s ! r) then Some (read_timeout r s) else None
      | _ \<Rightarrow> None)"

fun client_step :: "client_cfg \<Rightarrow> client_event \<Rightarrow> client \<Rightarrow> client option" where
  "client_step cfg Connect_call s = fut_state (client_connect s)"
| "client_step cfg Connected s = (if connecting s = 0 then None else Some (client_connected s))"
| "client_step cfg Connect_failed s =
     (if connecting s = 0 then None else Some (client_connect_failed s))"
| "client_step cfg (Send e) s = Some (client_send cfg e s)"
| "client_step cfg (Call_filters_out i) s = call_step cfg i (Call_filters_out i) s"
| "client_step cfg (Call_response i) s = call_step cfg i (Call_response i) s"
| "client_step cfg (Call_filters_in i) s = call_step cfg i (Call_filters_in i) s"
| "client_step cfg (Write_memory j) s = write_step cfg j (Write_memory j) s"
| "client_step cfg (Write_header j w) s = write_step cfg j (Write_header j w) s"
| "client_step cfg (Write_body j w) s = write_step cfg j (Write_body j w) s"
| "client_step cfg (Write_flush j w) s = write_step cfg j (Write_flush j w) s"
| "client_step cfg (Read_check r) s = read_step cfg r (Read_check r) s"
| "client_step cfg (Read_header r rd) s = read_step cfg r (Read_header r rd) s"
| "client_step cfg (Read_payload r rd) s = read_step cfg r (Read_payload r rd) s"
| "client_step cfg (Read_timeout r) s = read_step cfg r (Read_timeout r) s"
| "client_step cfg Stop_call s = (if dispatch_closed s then None else Some (client_stop s))"
| "client_step cfg Reconnect_call s = (if dispatch_closed s then None else Some (client_reconnect s))"
| "client_step cfg Reconnect_go s =
     (if reconnecting s \<and> client_stopped s then fut_state (client_reopen s) else None)"

definition client_init :: "client_cfg \<Rightarrow> client \<Rightarrow> bool" where
  "client_init cfg s \<longleftrightarrow> (\<exists>opts. s = rpc_client_new opts)"

end
