(* ===== verification/Codec.thy ===== *)
theory Codec
  imports Smf_Prelude
begin

text \<open>
  The codecs of \<^verbatim>\<open>compression.h\<close> and \<^verbatim>\<open>compression.cc\<close>. The lz4 and zstd libraries are
  parameters: a record of the functions the code calls, each with the sizes the call passes and
  returning the destination buffer and the return code. \<open>lz4_ok\<close> and \<open>zstd_ok\<close> state what those
  libraries document: a destination of \<^verbatim>\<open>compressBound\<close> bytes is enough, and decompressing what was
  compressed, into a buffer of the original size, gives it back.
\<close>

datatype codec_type = Lz4 | Zstd
datatype compression_level = Fastest | Best

record codec =
  codec_kind :: codec_type
  codec_level :: compression_level

section \<open>zstd\<close>

record zstd_lib =
  ZSTD_CONTENTSIZE_ERROR :: u64
  ZSTD_CONTENTSIZE_UNKNOWN :: u64
  ZSTD_findDecompressedSize :: "bytes \<Rightarrow> u64"
  ZSTD_decompress :: "u64 \<Rightarrow> bytes \<Rightarrow> bytes \<times> u64"
  ZSTD_compressBound :: "nat \<Rightarrow> nat"
  ZSTD_compress :: "nat \<Rightarrow> bytes \<Rightarrow> nat \<Rightarrow> bytes \<times> u64"
  ZSTD_isError :: "u64 \<Rightarrow> bool"

definition zstd_uncompress :: "zstd_lib \<Rightarrow> bytes \<Rightarrow> bytes fut" where
  "zstd_uncompress L data =
     (let zstd_size = ZSTD_findDecompressedSize L data in
      log_throw_if (zstd_size = ZSTD_CONTENTSIZE_ERROR L)
        ''Cannot decompress. Not compressed by zstd''
      (log_throw_if (zstd_size = ZSTD_CONTENTSIZE_UNKNOWN L)
        ''Cannot decompress. Unknown payload size''
      (let (new_body, size_decompressed) = ZSTD_decompress L zstd_size data in
       log_throw_if (zstd_size \<noteq> size_decompressed)
         ''zstd decompression failed. Size expected: {}, decompressed size: {}''
         (Inr new_body))))"

definition zstd_compress :: "zstd_lib \<Rightarrow> bytes \<Rightarrow> bytes fut" where
  "zstd_compress L data =
     (let body_size = ZSTD_compressBound L (length data);
          (buf, zstd_compressed_size) = ZSTD_compress L body_size data 3 in
      log_throw_if (ZSTD_isError L zstd_compressed_size)
        ''Error compressing zstd buffer. defaulting to uncompressed. Code: {}, Desciption: {}''
        (Inr (take (unat zstd_compressed_size) buf)))"

definition zstd_ok :: "zstd_lib \<Rightarrow> bool" where
  "zstd_ok L \<longleftrightarrow>
     (\<forall>data. length data \<le> 2147483647 \<longrightarrow>
       (let (dst, n) = ZSTD_compress L (ZSTD_compressBound L (length data)) data 3;
            frame = take (unat n) dst; sz = of_nat (length data) in
        \<not> ZSTD_isError L n \<and> ZSTD_findDecompressedSize L frame = sz \<and>
        sz \<noteq> ZSTD_CONTENTSIZE_ERROR L \<and> sz \<noteq> ZSTD_CONTENTSIZE_UNKNOWN L \<and>
        ZSTD_decompress L sz frame = (data, sz)))"

section \<open>lz4\<close>

definition LZ4_MAX_INPUT_SIZE :: nat where
  "LZ4_MAX_INPUT_SIZE = 0x7E000000"

record lz4_lib =
  LZ4_compressBound :: "int \<Rightarrow> int"
  LZ4_compress_default :: "bytes \<Rightarrow> int \<Rightarrow> int \<Rightarrow> bytes \<times> int"
  LZ4_decompress_safe :: "bytes \<Rightarrow> int \<Rightarrow> int \<Rightarrow> bytes \<times> int"

text \<open>A \<^verbatim>\<open>size_t\<close> passed as \<^verbatim>\<open>int\<close>.\<close>

definition int_of_size :: "nat \<Rightarrow> int" where
  "int_of_size n = sint (of_nat n :: u32)"

definition lz4_compress :: "lz4_lib \<Rightarrow> bytes \<Rightarrow> bytes fut" where
  "lz4_compress L data =
     (let max_dst_size = LZ4_compressBound L (int_of_size (length data));
          (dst, compressed_data_size) =
            LZ4_compress_default L data (int_of_size (length data)) max_dst_size in
      log_throw_if (compressed_data_size < 0) ''''
      (log_throw_if (compressed_data_size = 0)
        ''A result of 0 means compression worked, but was stopped because the destination buffer couldn't hold all the information.''
        (Inr (word_to_le 4 (of_nat (length data) :: u32) @ take (nat compressed_data_size) dst))))"

text \<open>\<^verbatim>\<open>read_le<uint32_t>(data)\<close> reads four bytes whatever the size of the buffer is.\<close>

definition lz4_uncompress :: "lz4_lib \<Rightarrow> bytes \<Rightarrow> bytes fut" where
  "lz4_uncompress L data =
     (if length data < 4 then Inl (Undefined_behaviour ''read_le past the end of the payload'')
      else let orig = (le_to_word (take 4 data) :: u32);
               (dst, decompressed_size) =
                 LZ4_decompress_safe L (drop 4 data) (int_of_size (length data - 4)) (sint orig) in
        log_throw_if (decompressed_size < 0)
          ''A negative result from LZ4_decompress_safe indicates a failure trying to decompress the data.  See exit code {} for value returned. Expected original size: {}, compressed size: {}''
        (log_throw_if (decompressed_size = 0)
          ''I'm not sure this function can ever return 0.  Documentation in lz4.h doesn't indicate so.''
          (Inr (take (nat decompressed_size) dst))))"

definition lz4_ok :: "lz4_lib \<Rightarrow> bool" where
  "lz4_ok L \<longleftrightarrow>
     (\<forall>data. data \<noteq> [] \<and> length data \<le> LZ4_MAX_INPUT_SIZE \<longrightarrow>
       (let sz = int (length data);
            (dst, n) = LZ4_compress_default L data sz (LZ4_compressBound L sz);
            block = take (nat n) dst in
        0 < n \<and> n < 2147483648 \<and> length block = nat n \<and>
        (\<exists>out. LZ4_decompress_safe L block n sz = (out, sz) \<and> take (length data) out = data)))"

section \<open>The codec interface\<close>

record codec_libs =
  lz4_library :: lz4_lib
  zstd_library :: zstd_lib

definition codec_make_unique :: "codec_type \<Rightarrow> compression_level \<Rightarrow> codec" where
  "codec_make_unique t l = \<lparr>codec_kind = t, codec_level = l\<rparr>"

definition codec_compress :: "codec_libs \<Rightarrow> codec \<Rightarrow> bytes \<Rightarrow> bytes fut" where
  "codec_compress L c data =
     (case codec_kind c of
        Lz4 \<Rightarrow> lz4_compress (lz4_library L) data
      | Zstd \<Rightarrow> zstd_compress (zstd_library L) data)"

definition codec_uncompress :: "codec_libs \<Rightarrow> codec \<Rightarrow> bytes \<Rightarrow> bytes fut" where
  "codec_uncompress L c data =
     (case codec_kind c of
        Lz4 \<Rightarrow> lz4_uncompress (lz4_library L) data
      | Zstd \<Rightarrow> zstd_uncompress (zstd_library L) data)"

text \<open>
  What a codec promises its clients: a non-empty buffer up to the codec's limit is compressed
  without an exception, and uncompressing the result gives the buffer back.
\<close>

locale lossless_codec =
  fixes library_ok :: "'lib \<Rightarrow> bool"
    and compress :: "'lib \<Rightarrow> bytes \<Rightarrow> bytes fut"
    and uncompress :: "'lib \<Rightarrow> bytes \<Rightarrow> bytes fut"
    and limit :: nat
  assumes compress_total:
      "library_ok L \<Longrightarrow> data \<noteq> [] \<Longrightarrow> length data \<le> limit \<Longrightarrow> \<exists>z. compress L data = Inr z"
    and compress_inverse:
      "library_ok L \<Longrightarrow> data \<noteq> [] \<Longrightarrow> length data \<le> limit \<Longrightarrow> compress L data = Inr z \<Longrightarrow>
         uncompress L z = Inr data"
begin

lemma compress_uncompress:
  assumes "library_ok L" "data \<noteq> []" "length data \<le> limit"
  shows "fut_then (compress L data) (uncompress L) = Inr data"
  using compress_total [OF assms] compress_inverse [OF assms] by auto

lemma compress_injective:
  assumes "library_ok L" "data \<noteq> []" "length data \<le> limit" "data' \<noteq> []" "length data' \<le> limit"
    and "compress L data = compress L data'"
  shows "data = data'"
  using assms compress_total compress_inverse by (metis Inr_inject)

end

lemma int_of_size_small: "n < 2147483648 \<Longrightarrow> int_of_size n = int n"
  by (simp add: int_of_size_def sint_u32_small unat_of_nat_u32)

lemma zstd_compress_ok:
  assumes "zstd_ok L" and "length data \<le> 2147483647"
  shows "\<exists>z. zstd_compress L data = Inr z \<and> zstd_uncompress L z = Inr data"
proof -
  obtain dst n where c: "ZSTD_compress L (ZSTD_compressBound L (length data)) data 3 = (dst, n)"
    by fastforce
  with assms have "\<not> ZSTD_isError L n"
    "ZSTD_findDecompressedSize L (take (unat n) dst) = of_nat (length data)"
    "of_nat (length data) \<noteq> ZSTD_CONTENTSIZE_ERROR L"
    "of_nat (length data) \<noteq> ZSTD_CONTENTSIZE_UNKNOWN L"
    "ZSTD_decompress L (of_nat (length data)) (take (unat n) dst) = (data, of_nat (length data))"
    by (auto simp: zstd_ok_def Let_def)
  with c show ?thesis
    by (simp add: zstd_compress_def zstd_uncompress_def log_throw_if_def Let_def)
qed

lemma lz4_compress_ok:
  assumes "lz4_ok L" and "data \<noteq> []" and "length data \<le> LZ4_MAX_INPUT_SIZE"
  shows "\<exists>z. lz4_compress L data = Inr z \<and> lz4_uncompress L z = Inr data"
proof -
  let ?sz = "int (length data)"
  obtain dst n where c: "LZ4_compress_default L data ?sz (LZ4_compressBound L ?sz) = (dst, n)"
    by fastforce
  with assms obtain out where n: "0 < n" "n < 2147483648" "length (take (nat n) dst) = nat n"
    and d: "LZ4_decompress_safe L (take (nat n) dst) n ?sz = (out, ?sz)"
    and out: "take (length data) out = data"
    unfolding lz4_ok_def Let_def by (auto split: prod.splits)
  have small: "length data < 2147483648"
    using assms(3) by (simp add: LZ4_MAX_INPUT_SIZE_def)
  have sz: "int_of_size (length data) = ?sz" by (rule int_of_size_small [OF small])
  have nn: "int_of_size (nat n) = n" using n by (simp add: int_of_size_small)
  let ?z = "word_to_le 4 (of_nat (length data) :: u32) @ take (nat n) dst"
  have comp: "lz4_compress L data = Inr ?z"
    using c n by (simp add: lz4_compress_def sz log_throw_if_def)
  have "le_to_word (take 4 ?z) = (of_nat (length data) :: u32)"
    by (simp add: le_to_word_to_le)
  moreover have "sint (of_nat (length data) :: u32) = ?sz"
    using sz by (simp add: int_of_size_def)
  moreover have "length ?z - 4 = nat n" "drop 4 ?z = take (nat n) dst"
    using n(3) by simp_all
  ultimately have "lz4_uncompress L ?z = Inr data"
    using d nn out assms(2) n(3)
    by (simp add: lz4_uncompress_def log_throw_if_def del: length_take take_append drop_append)
  with comp show ?thesis by blast
qed

interpretation zstd_codec: lossless_codec zstd_ok zstd_compress zstd_uncompress 2147483647
  by unfold_locales (auto dest: zstd_compress_ok)

interpretation lz4_fast_codec: lossless_codec lz4_ok lz4_compress lz4_uncompress LZ4_MAX_INPUT_SIZE
  by unfold_locales (auto dest: lz4_compress_ok)

section \<open>Properties\<close>

definition codec_libs_ok :: "codec_libs \<Rightarrow> bool" where
  "codec_libs_ok L \<longleftrightarrow> lz4_ok (lz4_library L) \<and> zstd_ok (zstd_library L)"

text \<open>
  C17. Every codec \<^verbatim>\<open>codec::make_unique\<close> returns, at either level, gives back what it compressed:
  for a non-empty buffer of at most \<^verbatim>\<open>LZ4_MAX_INPUT_SIZE\<close> bytes, \<^verbatim>\<open>compress\<close> does not throw and
  \<^verbatim>\<open>uncompress\<close> of its result is the buffer, for libraries that behave as lz4 and zstd document.
\<close>

theorem codec_round_trip:
  assumes "codec_libs_ok L" and "data \<noteq> []" and "length data \<le> LZ4_MAX_INPUT_SIZE"
  shows "fut_then (codec_compress L (codec_make_unique t l) data)
    (codec_uncompress L (codec_make_unique t l)) = Inr data"
proof (cases t)
  case Lz4
  then show ?thesis
    using assms lz4_fast_codec.compress_uncompress [of "lz4_library L" data]
    by (simp add: codec_compress_def codec_uncompress_def [abs_def] codec_make_unique_def
        codec_libs_ok_def)
next
  case Zstd
  then show ?thesis
    using assms zstd_codec.compress_uncompress [of "zstd_library L" data]
    by (simp add: codec_compress_def codec_uncompress_def [abs_def] codec_make_unique_def
        codec_libs_ok_def
        LZ4_MAX_INPUT_SIZE_def)
qed

text \<open>Libraries that store their input: they satisfy what the code relies on.\<close>

definition stored_zstd :: zstd_lib where
  "stored_zstd =
     \<lparr>ZSTD_CONTENTSIZE_ERROR = - 2, ZSTD_CONTENTSIZE_UNKNOWN = - 1,
      ZSTD_findDecompressedSize = (\<lambda>bs. of_nat (length bs)),
      ZSTD_decompress = (\<lambda>n bs. (bs, n)), ZSTD_compressBound = (\<lambda>n. n),
      ZSTD_compress = (\<lambda>n bs l. (bs, of_nat (length bs))), ZSTD_isError = (\<lambda>n. n = - 1)\<rparr>"

definition stored_lz4 :: lz4_lib where
  "stored_lz4 =
     \<lparr>LZ4_compressBound = (\<lambda>n. n), LZ4_compress_default = (\<lambda>bs n m. (bs, int (length bs))),
      LZ4_decompress_safe = (\<lambda>bs n m. (bs, int (length bs)))\<rparr>"

lemma small_not_max:
  assumes "n \<le> 2147483647"
  shows "(of_nat n :: u64) \<noteq> - 1" and "(of_nat n :: u64) \<noteq> - 2"
proof -
  have "unat (of_nat (n + 1) :: u64) = n + 1" "unat (of_nat (n + 2) :: u64) = n + 2"
    using assms by (intro unat_of_nat_u64; simp)+
  then have "(of_nat (n + 1) :: u64) \<noteq> 0" "(of_nat (n + 2) :: u64) \<noteq> 0"
    by (metis unat_0_iff add_is_0 zero_neq_one zero_neq_numeral)+
  then show "(of_nat n :: u64) \<noteq> - 1" and "(of_nat n :: u64) \<noteq> - 2"
    by (auto simp: add_eq_0_iff2)
qed

lemma stored_zstd_ok: "zstd_ok stored_zstd"
  using small_not_max by (auto simp: zstd_ok_def stored_zstd_def Let_def unat_of_nat_u64)

lemma stored_lz4_ok: "lz4_ok stored_lz4"
  by (auto simp: lz4_ok_def stored_lz4_def Let_def LZ4_MAX_INPUT_SIZE_def)

theorem codec_round_trip_witness:
  "fut_then (codec_compress \<lparr>lz4_library = stored_lz4, zstd_library = stored_zstd\<rparr>
       (codec_make_unique Lz4 Fastest) [1, 2, 3])
     (codec_uncompress \<lparr>lz4_library = stored_lz4, zstd_library = stored_zstd\<rparr>
       (codec_make_unique Lz4 Fastest)) = Inr [1, 2, 3]"
  by (rule codec_round_trip)
    (simp_all add: codec_libs_ok_def stored_lz4_ok stored_zstd_ok LZ4_MAX_INPUT_SIZE_def)

end
