(* ===== verification/Compression_Filters.thy ===== *)
theory Compression_Filters
  imports Codec Rpc_Recv Rpc_Filter
begin

text \<open>
  The compression and decompression filters (\<^verbatim>\<open>zstd_filter.cc\<close>, \<^verbatim>\<open>lz4_filter.cc\<close>). Outgoing
  filters work on envelopes, incoming filters on received contexts. Each replaces the body and
  recomputes checksum and size.
\<close>

definition with_body :: "xxh64 \<Rightarrow> u8 \<Rightarrow> bytes \<Rightarrow> rpc_envelope \<Rightarrow> rpc_envelope" where
  "with_body xxh flag buf e =
     e\<lparr>letter := (letter e)\<lparr>body := buf,
        header := checksum_rpc xxh ((header (letter e))\<lparr>hdr_compression := flag\<rparr>) buf
          (of_nat (length buf))\<rparr>\<rparr>"

definition with_payload :: "xxh64 \<Rightarrow> u8 \<Rightarrow> bytes \<Rightarrow> rpc_recv_context \<Rightarrow> rpc_recv_context" where
  "with_payload xxh flag buf c =
     c\<lparr>ctx_payload := buf,
       ctx_header := checksum_rpc xxh ((ctx_header c)\<lparr>hdr_compression := flag\<rparr>) buf
         (of_nat (length buf))\<rparr>"

definition zstd_compression_filter ::
  "xxh64 \<Rightarrow> zstd_lib \<Rightarrow> u32 \<Rightarrow> rpc_envelope rpc_filter" where
  "zstd_compression_filter xxh L min_compression_size e =
     (if hdr_compression (env_header e) \<noteq> compression_flags_none then Inr e
      else if length (env_body e) \<le> unat min_compression_size then Inr e
      else fut_then (zstd_compress L (env_body e))
        (\<lambda>buf. Inr (with_body xxh compression_flags_zstd buf e)))"

definition zstd_decompression_filter :: "xxh64 \<Rightarrow> zstd_lib \<Rightarrow> rpc_recv_context rpc_filter" where
  "zstd_decompression_filter xxh L c =
     (if hdr_compression (ctx_header c) = compression_flags_zstd
      then fut_then (zstd_uncompress L (ctx_payload c))
        (\<lambda>buf. Inr (with_payload xxh compression_flags_none buf c))
      else Inr c)"

definition lz4_compression_filter ::
  "xxh64 \<Rightarrow> lz4_lib \<Rightarrow> u32 \<Rightarrow> rpc_envelope rpc_filter" where
  "lz4_compression_filter xxh L min_compression_size e =
     (if hdr_compression (env_header e) \<noteq> compression_flags_none then Inr e
      else if length (env_body e) \<le> unat min_compression_size then Inr e
      else fut_then (lz4_compress L (env_body e))
        (\<lambda>buf. Inr (with_body xxh compression_flags_lz4 buf e)))"

definition lz4_decompression_filter :: "xxh64 \<Rightarrow> lz4_lib \<Rightarrow> rpc_recv_context rpc_filter" where
  "lz4_decompression_filter xxh L c =
     (if hdr_compression (ctx_header c) = compression_flags_lz4
      then fut_then (lz4_uncompress L (ctx_payload c))
        (\<lambda>buf. Inr (with_payload xxh compression_flags_none buf c))
      else Inr c)"

section \<open>Lemmas\<close>

lemma with_body_sel [simp]:
  "env_body (with_body xxh flag buf e) = buf"
  "env_header (with_body xxh flag buf e) =
     checksum_rpc xxh ((env_header e)\<lparr>hdr_compression := flag\<rparr>) buf (of_nat (length buf))"
  by (simp_all add: with_body_def env_header_def env_body_def)

lemma with_body_wf: "length buf < 2 ^ 32 \<Longrightarrow> envelope_wf xxh (with_body xxh flag buf e)"
  by (simp add: envelope_wf_def checksum_rpc_describes)

lemma checksum_rpc_of_described:
  assumes "header_describes xxh h b"
  shows "checksum_rpc xxh h b (of_nat (length b)) = h"
proof -
  have "hdr_size h = of_nat (length b)"
    using assms unfolding header_describes_def by (metis of_nat_unat ucast_id)
  then show ?thesis
    using assms by (simp add: header_describes_def checksum_rpc_def)
qed

lemma header_restored:
  assumes "header_describes xxh h b" and "hdr_compression h = c"
  shows "h\<lparr>hdr_compression := c, hdr_checksum := rpc_checksum_payload xxh b (of_nat (length b)),
           hdr_size := of_nat (length b)\<rparr> = h"
  using checksum_rpc_of_described [OF assms(1)] assms(2)
  by (cases h) (simp add: checksum_rpc_def)

lemma none_not_disabled [simp]: "compression_flags_none \<noteq> compression_flags_disabled"
  by (simp add: compression_flags_defs)

text \<open>
  The contract of a compression scheme: its filters are the two guarded rewrites with a flag of
  their own, over a lossless codec.
\<close>

locale compression_scheme = lossless_codec library_ok compress uncompress limit
  for library_ok :: "'lib \<Rightarrow> bool" and compress uncompress limit +
  fixes flag :: u8
    and compression_filter :: "xxh64 \<Rightarrow> 'lib \<Rightarrow> u32 \<Rightarrow> rpc_envelope rpc_filter"
    and decompression_filter :: "xxh64 \<Rightarrow> 'lib \<Rightarrow> rpc_recv_context rpc_filter"
  assumes flag_distinct: "flag \<noteq> compression_flags_none" "flag \<noteq> compression_flags_disabled"
    and flag_range: "sint flag \<le> 3"
    and compression_filter_eq:
      "compression_filter xxh L m e =
        (if hdr_compression (env_header e) \<noteq> compression_flags_none \<or>
            length (env_body e) \<le> unat m then Inr e
         else fut_then (compress L (env_body e)) (\<lambda>buf. Inr (with_body xxh flag buf e)))"
    and decompression_filter_eq:
      "decompression_filter xxh L c =
        (if hdr_compression (ctx_header c) = flag
         then fut_then (uncompress L (ctx_payload c))
           (\<lambda>buf. Inr (with_payload xxh compression_flags_none buf c))
         else Inr c)"
begin

lemma filter_skips:
  "hdr_compression (env_header e) \<noteq> compression_flags_none \<or> length (env_body e) \<le> unat m \<Longrightarrow>
     compression_filter xxh L m e = Inr e"
  by (simp add: compression_filter_eq)

lemma filter_total:
  assumes "library_ok L" "length (env_body e) \<le> limit"
  shows "\<exists>e'. compression_filter xxh L m e = Inr e'"
proof (cases "hdr_compression (env_header e) \<noteq> compression_flags_none \<or> length (env_body e) \<le> unat m")
  case True
  then show ?thesis by (simp add: filter_skips)
next
  case False
  then have "env_body e \<noteq> []" by auto
  from compress_total [OF assms(1) this assms(2)] False show ?thesis
    by (auto simp: compression_filter_eq)
qed

lemma filter_idempotent:
  "compression_filter xxh L m e = Inr e' \<Longrightarrow> compression_filter xxh L m e' = Inr e'"
  using flag_distinct
  by (auto simp: compression_filter_eq fut_then_eq_Inr split: if_splits)

lemma filter_keeps:
  "compression_filter xxh L m e = Inr e' \<Longrightarrow>
     hdr_session (env_header e') = hdr_session (env_header e) \<and>
     hdr_meta (env_header e') = hdr_meta (env_header e) \<and>
     hdr_bitflags (env_header e') = hdr_bitflags (env_header e)"
  by (auto simp: compression_filter_eq fut_then_eq_Inr split: if_splits)

text \<open>
  Transparency: what the decompression filter hands on is what would have arrived had the sender
  not compressed at all.
\<close>

lemma filters_transparent:
  assumes lib: "library_ok L" and lim: "length (env_body e) \<le> limit"
    and wf: "envelope_wf xxh e" and flg: "hdr_compression (env_header e) \<noteq> flag"
    and out: "compression_filter xxh L m e = Inr e'"
  shows "decompression_filter xxh L (arrives a e') = Inr (arrives a e)"
proof (cases "hdr_compression (env_header e) \<noteq> compression_flags_none \<or> length (env_body e) \<le> unat m")
  case True
  then have "e' = e" using out by (simp add: filter_skips)
  moreover have "hdr_compression (received_header (env_header e)) \<noteq> flag"
    using flg flag_distinct by (auto simp: received_header_def)
  ultimately show ?thesis
    by (simp add: decompression_filter_eq arrives_def received_ctx_def)
next
  case False
  then obtain z where z: "compress L (env_body e) = Inr z" and e': "e' = with_body xxh flag z e"
    using out by (auto simp: compression_filter_eq fut_then_eq_Inr)
  from False have "env_body e \<noteq> []" by auto
  then have un: "uncompress L z = Inr (env_body e)"
    using compress_inverse [OF lib _ lim z] by blast
  have "with_payload xxh compression_flags_none (env_body e) (arrives a e') = arrives a e"
    using False wf flag_distinct
    by (simp add: e' with_payload_def arrives_def received_ctx_def received_header_def
        envelope_wf_def checksum_rpc_def header_restored)
  then show ?thesis
    using un flag_distinct
    by (simp add: decompression_filter_eq arrives_def received_ctx_def received_header_def e')
qed

end

interpretation zstd_filters: compression_scheme zstd_ok zstd_compress zstd_uncompress 2147483647
  compression_flags_zstd zstd_compression_filter zstd_decompression_filter
  by unfold_locales
    (auto simp: compression_flags_defs zstd_compression_filter_def zstd_decompression_filter_def)

interpretation lz4_filters: compression_scheme lz4_ok lz4_compress lz4_uncompress
  LZ4_MAX_INPUT_SIZE compression_flags_lz4 lz4_compression_filter lz4_decompression_filter
  by unfold_locales
    (auto simp: compression_flags_defs lz4_compression_filter_def lz4_decompression_filter_def)

section \<open>Properties\<close>

lemma either_filter_transparent:
  assumes "zstd_ok Z" and "lz4_ok L" and "envelope_wf xxh e"
    and "hdr_compression (env_header e) = compression_flags_none"
    and "length (env_body e) \<le> LZ4_MAX_INPUT_SIZE"
    and "out \<in> {zstd_compression_filter xxh Z m, lz4_compression_filter xxh L m}"
    and "inc \<in> {[zstd_decompression_filter xxh Z, lz4_decompression_filter xxh L],
      [lz4_decompression_filter xxh L, zstd_decompression_filter xxh Z]}"
  shows "\<exists>e'. out e = Inr e' \<and> rpc_filter_apply inc (arrives a e') = Inr (arrives a e)"
proof -
  have lim: "length (env_body e) \<le> 2147483647" using assms(5) by (simp add: LZ4_MAX_INPUT_SIZE_def)
  have none: "hdr_compression (ctx_header (arrives a e)) = compression_flags_none"
    using assms(4) by (simp add: arrives_def received_ctx_def received_header_def)
  then have skip: "zstd_decompression_filter xxh Z (arrives a e) = Inr (arrives a e)"
    "lz4_decompression_filter xxh L (arrives a e) = Inr (arrives a e)"
    by (simp_all add: zstd_decompression_filter_def lz4_decompression_filter_def compression_flags_defs)
  have flg: "hdr_compression (env_header e) \<noteq> compression_flags_zstd"
    "hdr_compression (env_header e) \<noteq> compression_flags_lz4"
    using assms(4) by (simp_all add: compression_flags_defs)
  have other: "lz4_decompression_filter xxh L (arrives a e') = Inr (arrives a e') \<or> e' = e"
    if "zstd_compression_filter xxh Z m e = Inr e'" for e'
    using that by (auto simp: zstd_compression_filter_def lz4_decompression_filter_def arrives_def
        received_ctx_def received_header_def compression_flags_defs fut_then_eq_Inr split: if_splits)
  have other': "zstd_decompression_filter xxh Z (arrives a e') = Inr (arrives a e') \<or> e' = e"
    if "lz4_compression_filter xxh L m e = Inr e'" for e'
    using that by (auto simp: lz4_compression_filter_def zstd_decompression_filter_def arrives_def
        received_ctx_def received_header_def compression_flags_defs fut_then_eq_Inr split: if_splits)
  from assms(6) consider "out = zstd_compression_filter xxh Z m" | "out = lz4_compression_filter xxh L m"
    by auto
  then show ?thesis
  proof cases
    case 1
    obtain e' where e': "zstd_compression_filter xxh Z m e = Inr e'"
      using zstd_filters.filter_total [OF assms(1) lim] by blast
    show ?thesis
      using assms(7) 1 e' skip other [OF e']
        zstd_filters.filters_transparent [OF assms(1) lim assms(3) flg(1) e'] by auto
  next
    case 2
    obtain e' where e': "lz4_compression_filter xxh L m e = Inr e'"
      using lz4_filters.filter_total [OF assms(2,5)] by blast
    show ?thesis
      using assms(7) 2 e' skip other' [OF e']
        lz4_filters.filters_transparent [OF assms(2,5,3) flg(2) e'] by auto
  qed
qed

text \<open>
  C16. Compression is transparent. When the sender's outgoing filter is either of the two compression
  filters, at any threshold, a receiver that has both decompression filters, in either order, hands
  its handler exactly the context it would have had without compression: same payload, checksum,
  size, session and meta, and no compression flag. Neither filter throws.
\<close>

theorem compression_transparent:
  assumes "zstd_ok Z" and "lz4_ok L" and "envelope_wf xxh e"
    and "hdr_compression (env_header e) = compression_flags_none"
    and "length (env_body e) \<le> LZ4_MAX_INPUT_SIZE"
    and "out \<in> {zstd_compression_filter xxh Z m, lz4_compression_filter xxh L m}"
    and "inc \<in> {[zstd_decompression_filter xxh Z, lz4_decompression_filter xxh L],
      [lz4_decompression_filter xxh L, zstd_decompression_filter xxh Z]}"
  shows "\<exists>e'. out e = Inr e' \<and> rpc_filter_apply inc (arrives a e') = Inr (arrives a e)"
  using assms by (rule either_filter_transparent)

theorem compression_transparent_witness:
  "\<exists>e'. lz4_compression_filter sample_xxh stored_lz4 2 (sample_envelope 7 42 [1, 2, 3]) = Inr e' \<and>
    rpc_filter_apply [zstd_decompression_filter sample_xxh stored_zstd,
        lz4_decompression_filter sample_xxh stored_lz4] (arrives ''peer'' e') =
      Inr (arrives ''peer'' (sample_envelope 7 42 [1, 2, 3]))"
proof -
  have "envelope_wf sample_xxh (sample_envelope 7 42 [1, 2, 3])"
    using sample_acceptable by (simp add: envelope_wf_def acceptable_def)
  moreover have "hdr_compression (env_header (sample_envelope 7 42 [1, 2, 3])) = compression_flags_none"
    "length (env_body (sample_envelope 7 42 [1, 2, 3])) \<le> LZ4_MAX_INPUT_SIZE"
    by (simp_all add: sample_defs compression_flags_defs LZ4_MAX_INPUT_SIZE_def)
  ultimately show ?thesis
    by (rule compression_transparent [OF stored_zstd_ok stored_lz4_ok]) blast+
qed

text \<open>
  A compression filter never touches a message twice: applied to its own output it returns it
  unchanged, and a message that another filter compressed, or that asked for no compression, or that
  is not larger than the threshold, passes unchanged; session and meta are kept in every case.
\<close>

theorem compression_idempotent:
  assumes "f \<in> {zstd_compression_filter xxh Z m, lz4_compression_filter xxh L m}"
    and "f e = Inr e'"
  shows "f e' = Inr e' \<and>
    (hdr_compression (env_header e) \<noteq> compression_flags_none \<or> length (env_body e) \<le> unat m \<longrightarrow> e' = e) \<and>
    hdr_session (env_header e') = hdr_session (env_header e) \<and>
    hdr_meta (env_header e') = hdr_meta (env_header e)"
  using assms zstd_filters.filter_idempotent lz4_filters.filter_idempotent
    zstd_filters.filter_skips [of e m xxh Z] lz4_filters.filter_skips [of e m xxh L]
    zstd_filters.filter_keeps lz4_filters.filter_keeps
  by (elim insertE emptyE) auto

theorem compression_idempotent_witness:
  "zstd_compression_filter sample_xxh stored_zstd 1 (sample_envelope 7 42 [1, 2, 3]) =
     Inr (with_body sample_xxh compression_flags_zstd [1, 2, 3] (sample_envelope 7 42 [1, 2, 3])) \<and>
   zstd_compression_filter sample_xxh stored_zstd 1
     (with_body sample_xxh compression_flags_zstd [1, 2, 3] (sample_envelope 7 42 [1, 2, 3])) =
     Inr (with_body sample_xxh compression_flags_zstd [1, 2, 3] (sample_envelope 7 42 [1, 2, 3]))"
proof -
  have "zstd_compression_filter sample_xxh stored_zstd 1 (sample_envelope 7 42 [1, 2, 3]) =
     Inr (with_body sample_xxh compression_flags_zstd [1, 2, 3] (sample_envelope 7 42 [1, 2, 3]))"
    by (simp add: zstd_compression_filter_def zstd_compress_def stored_zstd_def log_throw_if_def
        sample_defs compression_flags_defs)
  then show ?thesis
    using compression_idempotent [of "zstd_compression_filter sample_xxh stored_zstd 1" sample_xxh
        stored_zstd 1 stored_lz4] by blast
qed

end
