(* ===== verification/Load_Generator.thy ===== *)
theory Load_Generator
  imports Rpc_Client Compression_Filters Histogram Transition
begin

text \<open>
  The load generator (\<^verbatim>\<open>include/smf/load_generator.h\<close>, \<^verbatim>\<open>load_channel.h\<close>, \<^verbatim>\<open>load_generator_args.h\<close>,
  \<^verbatim>\<open>load_generator_duration.h\<close>): its configuration and its channels, and a benchmark as a machine of one
  fiber per channel. The callbacks of the user, and the clock, are in the events.
\<close>

section \<open>Configuration\<close>

record load_generator_args =
  la_ip :: string
  la_port :: u16
  la_num_of_req :: nat
  la_concurrency :: nat
  la_memory_per_core :: nat
  la_compression :: u8
  la_credentials :: bool

definition kMinMemory :: nat where
  "kMinMemory = 2 ^ 24"

definition load_generator_args_new ::
  "string \<Rightarrow> u16 \<Rightarrow> nat \<Rightarrow> nat \<Rightarrow> nat \<Rightarrow> u8 \<Rightarrow> load_generator_args fut" where
  "load_generator_args_new ip port num_of_req concurrency memory_per_core compression =
     log_throw_if (memory_per_core < kMinMemory \<and> concurrency > 1)
       ''Cfg error. memory < 16MB per connection.''
       (Inr \<lparr>la_ip = ip, la_port = port, la_num_of_req = num_of_req, la_concurrency = concurrency,
          la_memory_per_core = memory_per_core, la_compression = compression, la_credentials = False\<rparr>)"

section \<open>Channels\<close>

record load_channel =
  channel_id :: u64
  lc_client :: client
  lc_incoming :: "rpc_recv_context rpc_filter list"
  lc_outgoing :: "rpc_envelope rpc_filter list"

definition load_channel_new ::
  "xxh64 \<Rightarrow> zstd_lib \<Rightarrow> lz4_lib \<Rightarrow> (string \<Rightarrow> u16 \<Rightarrow> string) \<Rightarrow> u64 \<Rightarrow> string \<Rightarrow> u16 \<Rightarrow> u64 \<Rightarrow> u8 \<Rightarrow> bool \<Rightarrow>
     load_channel" where
  "load_channel_new xxh Z L addr i ip port mem compression credentials =
     \<lparr>channel_id = i,
      lc_client = enable_histogram_metrics (rpc_client_new
        ((rpc_client_opts_new (addr ip port))\<lparr>opt_memory_avail_for_client := mem, opt_credentials := credentials\<rparr>)),
      lc_incoming =
        (if compression = compression_flags_zstd then [zstd_decompression_filter xxh Z]
         else if compression = compression_flags_lz4 then [lz4_decompression_filter xxh L] else []),
      lc_outgoing =
        (if compression = compression_flags_zstd then [zstd_compression_filter xxh Z 1024]
         else if compression = compression_flags_lz4 then [lz4_compression_filter xxh L 1024] else [])\<rparr>"

text \<open>The moved-to channel: its id is left at the default.\<close>

definition load_channel_move :: "load_channel \<Rightarrow> load_channel" where
  "load_channel_move c = c\<lparr>channel_id := 0\<rparr>"

text \<open>
  The constructor: \<open>ids\<close> are the numbers it draws. A concurrency of zero makes no channel, and the
  division is not reached.
\<close>

definition load_generator_new ::
  "xxh64 \<Rightarrow> zstd_lib \<Rightarrow> lz4_lib \<Rightarrow> (string \<Rightarrow> u16 \<Rightarrow> string) \<Rightarrow> (nat \<Rightarrow> u64) \<Rightarrow> load_generator_args \<Rightarrow>
     load_channel list" where
  "load_generator_new xxh Z L addr ids a =
     map (\<lambda>i. load_channel_new xxh Z L addr (ids i) (la_ip a) (la_port a)
         (of_nat (la_memory_per_core a div la_concurrency a)) (la_compression a) (la_credentials a))
       [0..<la_concurrency a]"

text \<open>\<^verbatim>\<open>connect\<close> and \<^verbatim>\<open>stop\<close> of every channel: the client's, with what \<^verbatim>\<open>connect\<close> throws.\<close>

definition load_channel_connect :: "load_channel \<Rightarrow> load_channel fut" where
  "load_channel_connect c = fut_then (client_connect (lc_client c)) (\<lambda>s. Inr (c\<lparr>lc_client := s\<rparr>))"

definition load_channel_stop :: "load_channel \<Rightarrow> load_channel" where
  "load_channel_stop c = c\<lparr>lc_client := client_stop (lc_client c)\<rparr>"

definition load_generator_connect :: "load_channel list \<Rightarrow> load_channel fut list" where
  "load_generator_connect cs = map load_channel_connect cs"

definition load_generator_stop :: "load_channel list \<Rightarrow> load_channel list" where
  "load_generator_stop cs = map load_channel_stop cs"

text \<open>\<^verbatim>\<open>copy_histogram\<close>, given the histograms of the channels.\<close>

definition copy_histogram :: "('h, 'i) hdr_lib \<Rightarrow> 'h histogram list \<Rightarrow> 'h histogram" where
  "copy_histogram L hs = fold (\<lambda>p h. hist_add L h p) hs (make_unique L kDefaultHistogramMaxValue)"

section \<open>Durations\<close>

record load_generator_duration =
  num_of_req :: u64
  test_begin :: int
  test_end :: int
  total_bytes :: u64

definition load_generator_duration_new :: "u64 \<Rightarrow> load_generator_duration" where
  "load_generator_duration_new reqs = \<lparr>num_of_req = reqs, test_begin = 0, test_end = 0, total_bytes = 0\<rparr>"

text \<open>Times are in nanoseconds.\<close>

definition duration_in_millis :: "load_generator_duration \<Rightarrow> u64" where
  "duration_in_millis d =
     (let n = test_end d - test_begin d in of_int (if 0 \<le> n then n div 1000000 else - ((- n) div 1000000)))"

text \<open>Doubles are rationals here: their rounding is not modelled.\<close>

definition qps :: "load_generator_duration \<Rightarrow> u64" where
  "qps d =
     (let denom = max (duration_in_millis d) 1;
          queries_per_milli = (of_nat (unat (num_of_req d)) :: rat) / of_nat (unat denom) in
      of_int \<lfloor>queries_per_milli * 1000\<rfloor>)"

section \<open>A benchmark\<close>

text \<open>
  The number of requests of every channel; both operands of the division are integers, so
  \<^verbatim>\<open>std::ceil\<close> has nothing to round. Undefined for a concurrency of zero, and for a quotient that does
  not fit 32 bits.
\<close>

definition reqs_per_channel :: "nat \<Rightarrow> nat \<Rightarrow> u32 option" where
  "reqs_per_channel num concurrency =
     (if concurrency = 0 \<or> 2 ^ 32 \<le> num div concurrency then None
      else Some (max 1 (of_nat (num div concurrency))))"

text \<open>
  A channel waits for its unit of the semaphore, is about to send the next of its requests, or waits for
  the reply with some left to send; it ends after the last one or the first failure.
\<close>

datatype channel_pc =
    Ch_Waiting
  | Ch_Ready nat
  | Ch_Busy nat
  | Ch_Done

record bench =
  bn_concurrency :: nat
  bn_units :: int
  bn_channels :: "channel_pc list"
  bn_duration :: load_generator_duration
  bn_sent :: nat
  bn_failed :: bool
  bn_finished :: bool

definition bench_new :: "load_generator_args \<Rightarrow> int \<Rightarrow> bench option" where
  "bench_new a now =
     map_option (\<lambda>n. \<lparr>bn_concurrency = la_concurrency a, bn_units = int (la_concurrency a),
         bn_channels = replicate (la_concurrency a) Ch_Waiting,
         bn_duration = (load_generator_duration_new (ucast n))\<lparr>test_begin := now\<rparr>,
         bn_sent = 0, bn_failed = False, bn_finished = False\<rparr>)
       (reqs_per_channel (la_num_of_req a) (la_concurrency a))"

definition set_channel :: "nat \<Rightarrow> channel_pc \<Rightarrow> bench \<Rightarrow> bench" where
  "set_channel i pc s = s\<lparr>bn_channels := (bn_channels s)[i := pc]\<rparr>"

definition channel_at :: "nat \<Rightarrow> bench \<Rightarrow> channel_pc option" where
  "channel_at i s = (if i < length (bn_channels s) then Some (bn_channels s ! i) else None)"

text \<open>\<^verbatim>\<open>invoke\<close> of a channel; zero requests is an exception, which ends the channel.\<close>

definition bench_start :: "nat \<Rightarrow> bench \<Rightarrow> bench option" where
  "bench_start i s =
     (if channel_at i s = Some Ch_Waiting \<and> 1 \<le> bn_units s then
        (let n = unat (num_of_req (bn_duration s)) in
         Some (if n = 0 then (set_channel i Ch_Done s)\<lparr>bn_units := bn_units s - 1, bn_failed := True\<rparr>
           else (set_channel i (Ch_Ready n) s)\<lparr>bn_units := bn_units s - 1\<rparr>))
      else None)"

definition bench_send :: "nat \<Rightarrow> rpc_envelope \<Rightarrow> bench \<Rightarrow> bench option" where
  "bench_send i e s =
     (case channel_at i s of
        Some (Ch_Ready (Suc k)) \<Rightarrow>
          Some ((set_channel i (Ch_Busy k) s)\<lparr>bn_sent := bn_sent s + 1,
            bn_duration := (bn_duration s)\<lparr>total_bytes := total_bytes (bn_duration s) + of_nat (envelope_size e)\<rparr>\<rparr>)
      | _ \<Rightarrow> None)"

definition bench_reply :: "nat \<Rightarrow> unit fut \<Rightarrow> bench \<Rightarrow> bench option" where
  "bench_reply i r s =
     (case channel_at i s of
        Some (Ch_Busy k) \<Rightarrow>
          Some (case r of
             Inl x \<Rightarrow> (set_channel i Ch_Done s)\<lparr>bn_units := bn_units s + 1, bn_failed := True\<rparr>
           | Inr _ \<Rightarrow> if k = 0 then (set_channel i Ch_Done s)\<lparr>bn_units := bn_units s + 1\<rparr>
               else set_channel i (Ch_Ready k) s)
      | _ \<Rightarrow> None)"

text \<open>All channels were launched: \<^verbatim>\<open>limit.wait(args.concurrency)\<close>, then the end of the test.\<close>

definition bench_finish :: "int \<Rightarrow> bench \<Rightarrow> bench option" where
  "bench_finish now s =
     (if \<not> bn_finished s \<and> Ch_Waiting \<notin> set (bn_channels s) \<and> int (bn_concurrency s) \<le> bn_units s then
        Some (s\<lparr>bn_units := bn_units s - int (bn_concurrency s), bn_finished := True,
          bn_duration := (bn_duration s)\<lparr>test_end := now\<rparr>\<rparr>)
      else None)"

datatype bench_event =
    Bn_start nat
  | Bn_send nat rpc_envelope
  | Bn_reply nat "unit fut"
  | Bn_finish int

fun bench_step :: "load_generator_args \<Rightarrow> bench_event \<Rightarrow> bench \<Rightarrow> bench option" where
  "bench_step a (Bn_start i) s = bench_start i s"
| "bench_step a (Bn_send i e) s = bench_send i e s"
| "bench_step a (Bn_reply i r) s = bench_reply i r s"
| "bench_step a (Bn_finish now) s = bench_finish now s"

definition bench_init :: "load_generator_args \<Rightarrow> bench \<Rightarrow> bool" where
  "bench_init a s \<longleftrightarrow> (\<exists>now. bench_new a now = Some s)"

section \<open>Invariants\<close>

definition requests_of :: "load_generator_args \<Rightarrow> nat" where
  "requests_of a = max 1 (la_num_of_req a div la_concurrency a)"

fun pc_left :: "nat \<Rightarrow> channel_pc \<Rightarrow> int" where
  "pc_left n Ch_Waiting = int n"
| "pc_left n (Ch_Ready k) = int k"
| "pc_left n (Ch_Busy k) = int k"
| "pc_left n Ch_Done = 0"

fun pc_active :: "channel_pc \<Rightarrow> int" where
  "pc_active Ch_Waiting = 0"
| "pc_active (Ch_Ready k) = 1"
| "pc_active (Ch_Busy k) = 1"
| "pc_active Ch_Done = 0"

definition left_of :: "load_generator_args \<Rightarrow> bench \<Rightarrow> int" where
  "left_of a s = (\<Sum>pc\<leftarrow>bn_channels s. pc_left (requests_of a) pc)"

definition active_of :: "bench \<Rightarrow> int" where
  "active_of s = (\<Sum>pc\<leftarrow>bn_channels s. pc_active pc)"

definition bench_inv :: "load_generator_args \<Rightarrow> bench \<Rightarrow> bool" where
  "bench_inv a s \<longleftrightarrow> length (bn_channels s) = la_concurrency a \<and> bn_concurrency s = la_concurrency a \<and>
     unat (num_of_req (bn_duration s)) = requests_of a \<and>
     bn_units s + active_of s = (if bn_finished s then 0 else int (la_concurrency a)) \<and>
     (bn_finished s \<longrightarrow> set (bn_channels s) \<subseteq> {Ch_Done}) \<and>
     int (bn_sent s) + left_of a s \<le> int (la_concurrency a * requests_of a) \<and>
     (\<not> bn_failed s \<longrightarrow> int (bn_sent s) + left_of a s = int (la_concurrency a * requests_of a))"

lemma set_channel_sums:
  assumes "channel_at i s = Some pc"
  shows "left_of a (set_channel i pc' s) = left_of a s - pc_left (requests_of a) pc + pc_left (requests_of a) pc'"
    "active_of (set_channel i pc' s) = active_of s - pc_active pc + pc_active pc'"
  using assms by (auto simp: channel_at_def left_of_def active_of_def set_channel_def map_update
      sum_list_list_update split: if_splits)

lemma set_channel_simps [simp]:
  "length (bn_channels (set_channel i pc s)) = length (bn_channels s)"
  "bn_concurrency (set_channel i pc s) = bn_concurrency s" "bn_units (set_channel i pc s) = bn_units s"
  "bn_duration (set_channel i pc s) = bn_duration s" "bn_sent (set_channel i pc s) = bn_sent s"
  "bn_failed (set_channel i pc s) = bn_failed s" "bn_finished (set_channel i pc s) = bn_finished s"
  by (simp_all add: set_channel_def)

lemma sums_frame [simp]:
  "left_of a (s\<lparr>bn_units := u\<rparr>) = left_of a s" "left_of a (s\<lparr>bn_sent := n\<rparr>) = left_of a s"
  "left_of a (s\<lparr>bn_failed := b\<rparr>) = left_of a s" "left_of a (s\<lparr>bn_finished := b\<rparr>) = left_of a s"
  "left_of a (s\<lparr>bn_duration := d\<rparr>) = left_of a s" "active_of (s\<lparr>bn_units := u\<rparr>) = active_of s"
  "active_of (s\<lparr>bn_sent := n\<rparr>) = active_of s" "active_of (s\<lparr>bn_failed := b\<rparr>) = active_of s"
  "active_of (s\<lparr>bn_finished := b\<rparr>) = active_of s" "active_of (s\<lparr>bn_duration := d\<rparr>) = active_of s"
  by (simp_all add: left_of_def active_of_def)

text \<open>A channel that is not done moves only before the benchmark is finished.\<close>

lemma unfinished:
  assumes "bench_inv a s" "channel_at i s = Some pc" "pc \<noteq> Ch_Done"
  shows "\<not> bn_finished s"
proof
  assume "bn_finished s"
  then have "set (bn_channels s) \<subseteq> {Ch_Done}" using assms(1) by (simp add: bench_inv_def)
  moreover have "pc \<in> set (bn_channels s)" using assms(2) by (auto simp: channel_at_def split: if_splits)
  ultimately show False using assms(3) by blast
qed

lemma pc_active_nonneg [simp]: "0 \<le> pc_active pc"
  by (cases pc) simp_all

lemma active_nonneg: "0 \<le> active_of s"
  unfolding active_of_def
proof (rule sum_list_nonneg)
  show "0 \<le> x" if "x \<in> set (map pc_active (bn_channels s))" for x
    using that by auto
qed

lemma inactive_done:
  assumes "active_of s \<le> 0" "Ch_Waiting \<notin> set (bn_channels s)"
  shows "set (bn_channels s) \<subseteq> {Ch_Done}"
proof
  fix pc assume pc: "pc \<in> set (bn_channels s)"
  have "pc_active pc \<le> active_of s"
    unfolding active_of_def by (rule sum_list_member_le [OF _ pc]) simp
  then show "pc \<in> {Ch_Done}" using assms pc by (cases pc) auto
qed

lemma reqs_per_channel_Some:
  assumes "reqs_per_channel n c = Some r"
  shows "unat r = max 1 (n div c)"
  using assms by (auto simp: reqs_per_channel_def max_def word_le_nat_alt unat_of_nat_u32 split: if_splits)

lemma unat_ucast_u64: "unat (ucast (w :: u32) :: u64) = unat w"
proof -
  have "unat w < 4294967296" using unsigned_less [of w] by simp
  then show ?thesis by (simp add: unsigned_ucast_eq take_bit_nat_eq_self)
qed

lemma bench_new_inv: "bench_new a now = Some s \<Longrightarrow> bench_inv a s"
  using reqs_per_channel_Some [of "la_num_of_req a" "la_concurrency a"]
  by (auto simp: bench_new_def bench_inv_def left_of_def active_of_def requests_of_def
      load_generator_duration_new_def sum_list_replicate unat_ucast_u64)

lemma bench_start_inv:
  assumes "bench_inv a s" "bench_start i s = Some t"
  shows "bench_inv a t"
proof -
  have w: "channel_at i s = Some Ch_Waiting" and n: "unat (num_of_req (bn_duration s)) = requests_of a"
    using assms by (auto simp: bench_start_def bench_inv_def split: if_splits)
  have t: "t = (set_channel i (Ch_Ready (requests_of a)) s)\<lparr>bn_units := bn_units s - 1\<rparr>"
    using assms(2) n by (auto simp: bench_start_def requests_of_def Let_def split: if_splits)
  show ?thesis
    using assms(1) unfinished [OF assms(1) w] by (auto simp: t bench_inv_def set_channel_sums [OF w])
qed

lemma bench_send_inv:
  assumes "bench_inv a s" "bench_send i e s = Some t"
  shows "bench_inv a t"
proof -
  obtain k where w: "channel_at i s = Some (Ch_Ready (Suc k))"
    using assms(2) by (auto simp: bench_send_def split: option.splits channel_pc.splits nat.splits)
  show ?thesis
    using assms unfinished [OF assms(1) w] by (auto simp: bench_send_def w bench_inv_def set_channel_sums [OF w])
qed

lemma bench_reply_inv:
  assumes "bench_inv a s" "bench_reply i r s = Some t"
  shows "bench_inv a t"
proof -
  obtain k where w: "channel_at i s = Some (Ch_Busy k)"
    using assms(2) by (auto simp: bench_reply_def split: option.splits channel_pc.splits)
  show ?thesis
    using assms unfinished [OF assms(1) w]
    by (auto simp: bench_reply_def w bench_inv_def set_channel_sums [OF w] split: sum.splits if_splits)
qed

lemma bench_finish_inv:
  assumes "bench_inv a s" "bench_finish now s = Some t"
  shows "bench_inv a t"
proof -
  have "active_of s \<le> 0 \<and> Ch_Waiting \<notin> set (bn_channels s)"
    using assms by (auto simp: bench_finish_def bench_inv_def split: if_splits)
  then show ?thesis
    using assms inactive_done [of s] active_nonneg [of s]
    by (auto simp: bench_finish_def bench_inv_def split: if_splits)
qed

interpretation bench: machine_invariant bench_init bench_step bench_inv
proof
  show "bench_inv a s" if "bench_init a s" for a s
    using that by (auto simp: bench_init_def intro: bench_new_inv)
  show "bench_inv a t" if "bench_inv a s" "bench_step a ev s = Some t" for a s ev t
    using that by (cases ev) (auto intro: bench_start_inv bench_send_inv bench_reply_inv bench_finish_inv)
qed

section \<open>Properties\<close>










end
