(* ===== verification/Smfc_Printer.thy ===== *)
theory Smfc_Printer
  imports Smf_Prelude
begin

text \<open>
  The printer of the code generator (\<^verbatim>\<open>smfc/smf_printer.h\<close>). A generator only ever calls its printer,
  and no call depends on what was printed before, so a generator function is modelled by the list of
  calls it makes, and \<open>emit\<close> runs them. The substitution loop of \<^verbatim>\<open>print\<close> scans its own output again;
  it need not end, and \<open>subst_vars\<close> is \<open>None\<close> when it does not.
\<close>

section \<open>Substitution\<close>

type_synonym vars = "string \<rightharpoonup> string"

text \<open>\<^verbatim>\<open>s.find(c, pos)\<close>.\<close>

definition find_char :: "char \<Rightarrow> nat \<Rightarrow> string \<Rightarrow> nat option" where
  "find_char c pos s =
     (let n = length (takeWhile (\<lambda>x. x \<noteq> c) (drop pos s)) in
      if pos + n < length s then Some (pos + n) else None)"

text \<open>\<^verbatim>\<open>s.replace(pos, n, v)\<close>.\<close>

definition str_replace :: "nat \<Rightarrow> nat \<Rightarrow> string \<Rightarrow> string \<Rightarrow> string" where
  "str_replace pos n v s = take pos s @ v @ drop (pos + n) s"

partial_function (option) subst_vars :: "char \<Rightarrow> vars \<Rightarrow> string \<Rightarrow> string option" where
  "subst_vars esc vars s =
     (case find_char esc 0 s of
        None \<Rightarrow> Some s
      | Some pos \<Rightarrow>
         (case find_char esc (pos + 1) s of
            None \<Rightarrow> Some s
          | Some pos2 \<Rightarrow>
             (case vars (take (pos2 - pos - 1) (drop (pos + 1) s)) of
                None \<Rightarrow> Some s
              | Some v \<Rightarrow> subst_vars esc vars (str_replace pos (pos2 - pos + 1) v s))))"

section \<open>The printer\<close>

record smf_printer =
  escape_char :: char
  out :: string
  indent_level :: int
  indent_char :: char
  indent_step :: u16

definition smf_printer_new :: smf_printer where
  "smf_printer_new =
     \<lparr>escape_char = CHR ''$'', out = '''', indent_level = 0, indent_char = CHR '' '', indent_step = 2\<rparr>"

definition set_indent_char :: "char \<Rightarrow> smf_printer \<Rightarrow> smf_printer" where
  "set_indent_char c p = p\<lparr>indent_char := c\<rparr>"

definition set_indent_step :: "u16 \<Rightarrow> smf_printer \<Rightarrow> smf_printer" where
  "set_indent_step n p = p\<lparr>indent_step := n\<rparr>"

abbreviation LF :: char where
  "LF \<equiv> CHR 0x0A"

text \<open>The loop of \<^verbatim>\<open>print\<close> over the lines of its argument, each one indented by \<open>pad\<close>.\<close>

function print_lines :: "string \<Rightarrow> string \<Rightarrow> string" where
  "print_lines pad s =
     (case dropWhile (\<lambda>c. c \<noteq> LF) s of
        [] \<Rightarrow> pad @ s
      | _ # rest \<Rightarrow>
         pad @ takeWhile (\<lambda>c. c \<noteq> LF) s @ [LF] @ (if rest = [] then [] else print_lines pad rest))"
  by pat_completeness auto
termination
proof (relation "measure (\<lambda>(pad, s). length s)")
  fix pad s :: string and c rest
  assume "dropWhile (\<lambda>c. c \<noteq> LF) s = c # rest"
  then have "length rest < length (dropWhile (\<lambda>c. c \<noteq> LF) s)" by simp
  also have "\<dots> \<le> length s" by (rule length_dropWhile_le)
  finally show "((pad, rest), (pad, s)) \<in> measure (\<lambda>(pad, s). length s)" by simp
qed simp

declare print_lines.simps [simp del]

text \<open>Why a generator may stop without a result.\<close>

datatype gen_stop =
    Diverges
  | Abort string

type_synonym 'a gen = "gen_stop + 'a"

text \<open>
  \<^verbatim>\<open>out_.insert(end, n, c)\<close> with a negative \<open>n\<close> throws. A C string ends at its first NUL.
\<close>

definition print :: "string \<Rightarrow> smf_printer \<Rightarrow> smf_printer gen" where
  "print s p =
     (let n = indent_level p * uint (indent_step p) in
      if n < 0 then Inl (Abort ''length_error'')
      else Inr (p\<lparr>out := out p @ print_lines (replicate (nat n) (indent_char p)) s\<rparr>))"

definition c_str :: "string \<Rightarrow> string" where
  "c_str s = takeWhile (\<lambda>c. c \<noteq> CHR 0x00) s"

definition print_vars :: "vars \<Rightarrow> string \<Rightarrow> smf_printer \<Rightarrow> smf_printer gen" where
  "print_vars vars s p =
     (case subst_vars (escape_char p) vars s of
        None \<Rightarrow> Inl Diverges
      | Some t \<Rightarrow> print (c_str t) p)"

definition indent :: "smf_printer \<Rightarrow> smf_printer" where
  "indent p = p\<lparr>indent_level := indent_level p + 1\<rparr>"

definition outdent :: "smf_printer \<Rightarrow> smf_printer gen" where
  "outdent p =
     (let p1 = p\<lparr>indent_level := indent_level p - 1\<rparr> in
      if 0 \<le> indent_level p1 then Inr p1 else Inl (Abort ''indent_ >= 0''))"

definition contents :: "smf_printer \<Rightarrow> string" where
  "contents p = out p"

section \<open>Calls\<close>

datatype printer_call =
    Print string
  | Print_vars vars string
  | Indent
  | Outdent

fun call_printer :: "printer_call \<Rightarrow> smf_printer \<Rightarrow> smf_printer gen" where
  "call_printer (Print s) p = print s p"
| "call_printer (Print_vars vars s) p = print_vars vars s p"
| "call_printer Indent p = Inr (indent p)"
| "call_printer Outdent p = outdent p"

fun emit :: "printer_call list \<Rightarrow> smf_printer \<Rightarrow> smf_printer gen" where
  "emit [] p = Inr p"
| "emit (c # cs) p = (case call_printer c p of Inl e \<Rightarrow> Inl e | Inr q \<Rightarrow> emit cs q)"

text \<open>Lines of a template.\<close>

definition lns :: "string list \<Rightarrow> string" where
  "lns ls = concat (map (\<lambda>l. l @ [LF]) ls)"

section \<open>Substitution in one pass\<close>

text \<open>
  The reference for the loop: placeholders are replaced from left to right, and the values are not
  looked at again.
\<close>

function fill :: "char \<Rightarrow> vars \<Rightarrow> string \<Rightarrow> string" where
  "fill esc vars s =
     (case dropWhile (\<lambda>c. c \<noteq> esc) s of
        [] \<Rightarrow> s
      | _ # r \<Rightarrow>
         (case dropWhile (\<lambda>c. c \<noteq> esc) r of
            [] \<Rightarrow> s
          | _ # rest \<Rightarrow>
             (case vars (takeWhile (\<lambda>c. c \<noteq> esc) r) of
                None \<Rightarrow> s
              | Some v \<Rightarrow> takeWhile (\<lambda>c. c \<noteq> esc) s @ v @ fill esc vars rest)))"
  by pat_completeness auto
termination
proof (relation "measure (\<lambda>(esc, vars, s). length s)")
  fix esc :: char and vars :: vars and s r rest :: string and c d v
  assume "dropWhile (\<lambda>c. c \<noteq> esc) s = c # r" "dropWhile (\<lambda>c. c \<noteq> esc) r = d # rest"
  then have "length r < length s" "length rest < length r"
    using length_dropWhile_le [of "\<lambda>c. c \<noteq> esc" s] length_dropWhile_le [of "\<lambda>c. c \<noteq> esc" r] by simp_all
  then show "((esc, vars, rest), (esc, vars, s)) \<in> measure (\<lambda>(esc, vars, s). length s)" by simp
qed simp

declare fill.simps [simp del]

lemma not_in_takeWhile_neq: "c \<notin> set (takeWhile (\<lambda>x. x \<noteq> c) s)"
  by (auto dest: set_takeWhileD)

lemma dropWhile_neq_Cons: "dropWhile (\<lambda>x. x \<noteq> c) s = d # r \<Longrightarrow> d = c \<and> s = takeWhile (\<lambda>x. x \<noteq> c) s @ c # r"
  using dropWhile_eq_Cons_conv [of "\<lambda>x. x \<noteq> c" s d r] by blast

lemma takeWhile_neq_append: "c \<notin> set a \<Longrightarrow> takeWhile (\<lambda>x. x \<noteq> c) (a @ b) = a @ takeWhile (\<lambda>x. x \<noteq> c) b"
  by (induction a) auto

lemma find_char_split:
  assumes "c \<notin> set b"
  shows "find_char c (length a) (a @ b @ c # r) = Some (length a + length b)"
  using assms by (simp add: find_char_def takeWhile_neq_append)

lemma find_char_absent: "c \<notin> set b \<Longrightarrow> find_char c (length a) (a @ b) = None"
proof -
  assume "c \<notin> set b"
  then have "takeWhile (\<lambda>x. x \<noteq> c) b = b" by (induction b) auto
  then show ?thesis by (simp add: find_char_def Let_def del: takeWhile_eq_all_conv)
qed

lemma find_char_first: "c \<notin> set a \<Longrightarrow> find_char c 0 (a @ c # r) = Some (length a)"
  using find_char_split [of c a "[]" r] by simp

lemma find_char_none: "c \<notin> set a \<Longrightarrow> find_char c 0 a = None"
  using find_char_absent [of c a "[]"] by simp

text \<open>One round of the loop, when the text in front of the placeholder is done.\<close>

lemma round_body:
  assumes "esc \<notin> set a" "esc \<notin> set n"
  shows "(case find_char esc 0 (a @ esc # n @ esc # rest) of
        None \<Rightarrow> Some (a @ esc # n @ esc # rest)
      | Some pos \<Rightarrow>
         (case find_char esc (pos + 1) (a @ esc # n @ esc # rest) of
            None \<Rightarrow> Some (a @ esc # n @ esc # rest)
          | Some pos2 \<Rightarrow>
             (case vars (take (pos2 - pos - 1) (drop (pos + 1) (a @ esc # n @ esc # rest))) of
                None \<Rightarrow> Some (a @ esc # n @ esc # rest)
              | Some v \<Rightarrow> f (str_replace pos (pos2 - pos + 1) v (a @ esc # n @ esc # rest))))) =
    (case vars n of None \<Rightarrow> Some (a @ esc # n @ esc # rest) | Some v \<Rightarrow> f (a @ v @ rest))"
proof -
  let ?s = "a @ esc # n @ esc # rest"
  have 1: "find_char esc 0 ?s = Some (length a)" using assms(1) by (rule find_char_first)
  have 2: "find_char esc (length a + 1) ?s = Some (length a + 1 + length n)"
    using find_char_split [OF assms(2), of "a @ [esc]" rest] by simp
  have 3: "take (length a + 1 + length n - length a - 1) (drop (length a + 1) ?s) = n" by simp
  have 4: "str_replace (length a) (length a + 1 + length n - length a + 1) v ?s = a @ v @ rest" for v
    by (simp add: str_replace_def)
  show ?thesis by (simp only: 1 2 3 4 option.case)
qed

lemma subst_round:
  assumes "esc \<notin> set a" "esc \<notin> set n"
  shows "subst_vars esc vars (a @ esc # n @ esc # rest) =
    (case vars n of None \<Rightarrow> Some (a @ esc # n @ esc # rest) | Some v \<Rightarrow> subst_vars esc vars (a @ v @ rest))"
  using round_body [OF assms] by (subst subst_vars.simps)

lemma subst_done:
  assumes "esc \<notin> set a" "esc \<notin> set n"
  shows "subst_vars esc vars a = Some a" "subst_vars esc vars (a @ esc # n) = Some (a @ esc # n)"
proof -
  show "subst_vars esc vars a = Some a"
    using assms(1) by (subst subst_vars.simps) (simp add: find_char_none)
  have "find_char esc (length a + 1) (a @ esc # n) = None"
    using find_char_absent [OF assms(2), of "a @ [esc]"] by simp
  then show "subst_vars esc vars (a @ esc # n) = Some (a @ esc # n)"
    using find_char_first [OF assms(1), of n] by (subst subst_vars.simps) simp
qed

lemma subst_fill_from:
  assumes "\<And>n v. vars n = Some v \<Longrightarrow> esc \<notin> set v" "esc \<notin> set a"
  shows "subst_vars esc vars (a @ s) = Some (a @ fill esc vars s)"
  using assms(2)
proof (induction s arbitrary: a rule: length_induct)
  case (1 s)
  let ?t = "takeWhile (\<lambda>c. c \<noteq> esc) s"
  have t: "esc \<notin> set (a @ ?t)" using 1(2) not_in_takeWhile_neq [of esc s] by simp
  show ?case
  proof (cases "dropWhile (\<lambda>c. c \<noteq> esc) s")
    case Nil
    then have "?t = s" by (metis append_Nil2 takeWhile_dropWhile_id)
    then have "esc \<notin> set (a @ s)" using t by metis
    from subst_done(1) [OF this this] show ?thesis by (simp add: fill.simps [of esc vars s] Nil)
  next
    case (Cons c r)
    let ?n = "takeWhile (\<lambda>c. c \<noteq> esc) r"
    have s: "s = ?t @ esc # r" using dropWhile_neq_Cons [OF Cons] by simp
    have n: "esc \<notin> set ?n" by (rule not_in_takeWhile_neq)
    show ?thesis
    proof (cases "dropWhile (\<lambda>c. c \<noteq> esc) r")
      case Nil
      then have "?n = r" by (metis append_Nil2 takeWhile_dropWhile_id)
      then have "subst_vars esc vars ((a @ ?t) @ esc # r) = Some ((a @ ?t) @ esc # r)"
        using subst_done(2) [OF t n] by (simp del: takeWhile_eq_all_conv)
      then show ?thesis using s by (simp add: fill.simps [of esc vars s] Cons Nil)
    next
      case Cons2: (Cons d rest)
      have r: "r = ?n @ esc # rest" using dropWhile_neq_Cons [OF Cons2] by simp
      have sub: "subst_vars esc vars (a @ s) = (case vars ?n of None \<Rightarrow> Some (a @ s)
          | Some v \<Rightarrow> subst_vars esc vars ((a @ ?t @ v) @ rest))"
      proof -
        have "a @ s = (a @ ?t) @ esc # ?n @ esc # rest" using s r by (metis append_assoc)
        then show ?thesis using subst_round [OF t n, of vars rest] by (simp only: append_assoc)
      qed
      have len: "length rest < length s"
        using arg_cong [OF s, of length] arg_cong [OF r, of length] by simp
      show ?thesis
      proof (cases "vars ?n")
        case None
        then show ?thesis using sub by (simp add: fill.simps [of esc vars s] Cons Cons2)
      next
        case (Some v)
        have "esc \<notin> set (a @ ?t @ v)" using t assms(1) [OF Some] by simp
        then have "subst_vars esc vars ((a @ ?t @ v) @ rest) = Some ((a @ ?t @ v) @ fill esc vars rest)"
          using 1(1) len by blast
        then show ?thesis using sub Some by (simp add: fill.simps [of esc vars s] Cons Cons2)
      qed
    qed
  qed
qed

text \<open>
  C23. Substitution ends, and is the one-pass substitution, whenever no value contains the escape
  character: the loop of \<^verbatim>\<open>print\<close> then returns for every template, unclosed and unknown placeholders
  included, with each known placeholder replaced once.
\<close>

theorem substitution_ends:
  assumes "\<forall>n v. vars n = Some v \<longrightarrow> esc \<notin> set v"
  shows "subst_vars esc vars s = Some (fill esc vars s)"
  using subst_fill_from [of vars esc "[]" s] assms by simp

theorem substitution_ends_witness:
  "subst_vars CHR ''$'' [''Service'' \<mapsto> ''Echo''] ''class $Service$: $''
     = Some ''class Echo: $''"
proof -
  have "fill CHR ''$'' [''Service'' \<mapsto> ''Echo''] ''class $Service$: $'' = ''class Echo: $''"
    by (simp add: fill.simps)
  then show ?thesis
    using substitution_ends [of "[''Service'' \<mapsto> ''Echo'']" "CHR ''$''" "''class $Service$: $''"] by simp
qed

lemma subst_never_stuck:
  assumes "subst_vars esc vars s = Some y" "vars n = Some (esc # n @ [esc])" "esc \<notin> set a" "esc \<notin> set n"
  shows "s \<noteq> a @ esc # n @ esc # rest"
proof -
  have "vars n = Some (esc # n @ [esc]) \<longrightarrow> esc \<notin> set a \<longrightarrow> esc \<notin> set n \<longrightarrow> s \<noteq> a @ esc # n @ esc # rest"
  proof (rule subst_vars.raw_induct [where P = "\<lambda>esc vars s y. vars n = Some (esc # n @ [esc]) \<longrightarrow>
        esc \<notin> set a \<longrightarrow> esc \<notin> set n \<longrightarrow> s \<noteq> a @ esc # n @ esc # rest", OF _ assms(1)])
    fix f :: "char \<Rightarrow> vars \<Rightarrow> string \<Rightarrow> string option" and esc vars s y
    assume IH: "\<And>esc vars s y. f esc vars s = Some y \<Longrightarrow> vars n = Some (esc # n @ [esc]) \<longrightarrow>
        esc \<notin> set a \<longrightarrow> esc \<notin> set n \<longrightarrow> s \<noteq> a @ esc # n @ esc # rest"
      and body: "(case find_char esc 0 s of None \<Rightarrow> Some s
        | Some pos \<Rightarrow> (case find_char esc (pos + 1) s of None \<Rightarrow> Some s
          | Some pos2 \<Rightarrow> (case vars (take (pos2 - pos - 1) (drop (pos + 1) s)) of None \<Rightarrow> Some s
            | Some v \<Rightarrow> f esc vars (str_replace pos (pos2 - pos + 1) v s)))) = Some y"
    show "vars n = Some (esc # n @ [esc]) \<longrightarrow> esc \<notin> set a \<longrightarrow> esc \<notin> set n \<longrightarrow> s \<noteq> a @ esc # n @ esc # rest"
    proof (intro impI notI)
      assume v: "vars n = Some (esc # n @ [esc])" and a: "esc \<notin> set a" "esc \<notin> set n"
        and s: "s = a @ esc # n @ esc # rest"
      have "f esc vars (a @ (esc # n @ [esc]) @ rest) = Some y"
        using body round_body [OF a, where vars = vars and f = "f esc vars" and rest = rest] v unfolding s by simp
      then show False using IH [of esc vars s y] v a s by simp
    qed
  qed
  then show ?thesis using assms by blast
qed

text \<open>
  With a value that mentions its own placeholder the loop never returns, whatever stands around
  the placeholder: no result exists for the substitution, and no generator using such a name ends.
\<close>

theorem substitution_diverges:
  assumes "vars n = Some (esc # n @ [esc])" and "esc \<notin> set a" and "esc \<notin> set n"
  shows "subst_vars esc vars (a @ esc # n @ esc # rest) = None"
  using subst_never_stuck [of esc vars "a @ esc # n @ esc # rest" _ n a rest] assms
  by (cases "subst_vars esc vars (a @ esc # n @ esc # rest)") auto

theorem substitution_diverges_witness:
  "subst_vars CHR ''$'' [''Service'' \<mapsto> ''$Service$''] ''class $Service$;'' = None"
  using substitution_diverges [of "[''Service'' \<mapsto> ''$Service$'']" "''Service''" "CHR ''$''" "''class ''" "'';''"]
  by simp

section \<open>What a list of calls prints\<close>

text \<open>Characters and names that can go into a template without being taken for something else.\<close>

definition plain_char :: "char \<Rightarrow> bool" where
  "plain_char c \<longleftrightarrow>
     c \<notin> {CHR ''$'', CHR 0x00, LF, CHR ''{'', CHR ''}'', CHR ''('', CHR '')''}"

definition plain :: "string \<Rightarrow> bool" where
  "plain s \<longleftrightarrow> list_all plain_char s"

definition plain_vars :: "vars \<Rightarrow> bool" where
  "plain_vars vars \<longleftrightarrow> (\<forall>n v. vars n = Some v \<longrightarrow> plain v)"

lemma plain_simps [simp]:
  "plain []" "plain (c # s) \<longleftrightarrow> plain_char c \<and> plain s" "plain (s @ t) \<longleftrightarrow> plain s \<and> plain t"
  by (simp_all add: plain_def)

lemma plain_not_in:
  "plain s \<Longrightarrow> c \<in> {CHR ''$'', CHR 0x00, LF, CHR ''{'', CHR ''}'', CHR ''('', CHR '')''} \<Longrightarrow> c \<notin> set s"
  by (auto simp: plain_def plain_char_def list_all_iff)

lemma plain_vars_simps [simp]:
  "plain_vars Map.empty" "plain v \<Longrightarrow> plain_vars vars \<Longrightarrow> plain_vars (vars(n \<mapsto> v))"
  by (auto simp: plain_vars_def)

text \<open>The text of a call, before indentation, when its names are plain.\<close>

fun call_text :: "printer_call \<Rightarrow> string" where
  "call_text (Print s) = s"
| "call_text (Print_vars vars s) = c_str (fill CHR ''$'' vars s)"
| "call_text Indent = []"
| "call_text Outdent = []"

fun plain_call :: "printer_call \<Rightarrow> bool" where
  "plain_call (Print_vars vars s) = plain_vars vars"
| "plain_call c = True"

text \<open>The indentation after some calls; \<open>None\<close> when the assertion of \<^verbatim>\<open>outdent\<close> fails.\<close>

fun depth :: "nat \<Rightarrow> printer_call list \<Rightarrow> nat option" where
  "depth n [] = Some n"
| "depth n (Indent # cs) = depth (Suc n) cs"
| "depth n (Outdent # cs) = (case n of 0 \<Rightarrow> None | Suc m \<Rightarrow> depth m cs)"
| "depth n (Print s # cs) = depth n cs"
| "depth n (Print_vars v s # cs) = depth n cs"

fun layout :: "(nat \<Rightarrow> string) \<Rightarrow> nat \<Rightarrow> printer_call list \<Rightarrow> string" where
  "layout pad n [] = []"
| "layout pad n (Indent # cs) = layout pad (Suc n) cs"
| "layout pad n (Outdent # cs) = layout pad (n - 1) cs"
| "layout pad n (c # cs) = print_lines (pad n) (call_text c) @ layout pad n cs"

definition padding :: "smf_printer \<Rightarrow> nat \<Rightarrow> string" where
  "padding p n = replicate (n * unat (indent_step p)) (indent_char p)"

lemma depth_append: "depth n (cs @ ds) = (case depth n cs of None \<Rightarrow> None | Some m \<Rightarrow> depth m ds)"
  by (induction n cs rule: depth.induct) (auto split: nat.splits)

lemma layout_append:
  "depth n cs = Some m \<Longrightarrow> layout pad n (cs @ ds) = layout pad n cs @ layout pad m ds"
  by (induction n cs rule: depth.induct) (auto split: nat.splits)

lemma padding_out [simp]:
  "padding (p\<lparr>out := s\<rparr>) = padding p" "padding (p\<lparr>indent_level := i\<rparr>) = padding p"
  by (simp_all add: padding_def fun_eq_iff)

lemma print_padding:
  "indent_level p = int n \<Longrightarrow> print s p = Inr (p\<lparr>out := out p @ print_lines (padding p n) s\<rparr>)"
  by (simp add: print_def padding_def nat_mult_distrib Let_def mult_less_0_iff not_less)

text \<open>Running plain calls that keep the indentation non-negative returns, and prints their layout.\<close>

lemma emit_layout:
  assumes "\<And>c. c \<in> set cs \<Longrightarrow> plain_call c" "depth n cs = Some m"
    "indent_level p = int n" "escape_char p = CHR ''$''"
  shows "emit cs p = Inr (p\<lparr>out := out p @ layout (padding p) n cs, indent_level := int m\<rparr>)"
  using assms
proof (induction n cs arbitrary: p rule: depth.induct)
  case (2 n cs)
  have "emit cs (indent p) =
      Inr ((indent p)\<lparr>out := out (indent p) @ layout (padding (indent p)) (Suc n) cs, indent_level := int m\<rparr>)"
    using 2 by (intro "2.IH") (simp_all add: indent_def)
  then show ?case by (simp add: indent_def)
next
  case (3 n cs)
  then obtain k where k: "n = Suc k" "depth k cs = Some m" by (auto split: nat.splits)
  have "emit cs (p\<lparr>indent_level := int k\<rparr>) =
      Inr ((p\<lparr>indent_level := int k\<rparr>)\<lparr>out := out p @ layout (padding p) k cs, indent_level := int m\<rparr>)"
    using 3 k "3.IH" [of k "p\<lparr>indent_level := int k\<rparr>"] by simp
  then show ?case using 3(4) k by (simp add: outdent_def Let_def)
next
  case (4 n s cs)
  let ?q = "p\<lparr>out := out p @ print_lines (padding p n) s\<rparr>"
  have "emit cs ?q = Inr (?q\<lparr>out := out ?q @ layout (padding ?q) n cs, indent_level := int m\<rparr>)"
    using 4 by (intro "4.IH") simp_all
  moreover have "print s p = Inr ?q" using 4(4) by (simp add: print_padding)
  ultimately show ?case by simp
next
  case (5 n v s cs)
  let ?q = "p\<lparr>out := out p @ print_lines (padding p n) (c_str (fill CHR ''$'' v s))\<rparr>"
  have "plain_vars v" using 5(2) [of "Print_vars v s"] by simp
  then have "subst_vars (escape_char p) v s = Some (fill CHR ''$'' v s)"
    using subst_fill_from [of v "CHR ''$''" "[]" s] plain_not_in [of _ "CHR ''$''"] 5(5)
    by (auto simp: plain_vars_def)
  then have "print_vars v s p = Inr ?q" using 5(4) by (simp add: print_vars_def print_padding)
  moreover have "emit cs ?q = Inr (?q\<lparr>out := out ?q @ layout (padding ?q) n cs, indent_level := int m\<rparr>)"
    using 5 by (intro "5.IH") simp_all
  ultimately show ?case by simp
qed simp

text \<open>The characters of the layout are those of the texts, and of the indentation.\<close>

lemma count_print_lines:
  assumes "x \<notin> set pad"
  shows "count_list (print_lines pad s) x = count_list s x"
proof (induction s rule: length_induct)
  case (1 s)
  show ?case
  proof (cases "dropWhile (\<lambda>c. c \<noteq> LF) s")
    case Nil
    show ?thesis using assms by (simp add: print_lines.simps [of pad s] Nil)
  next
    case (Cons c rest)
    let ?t = "takeWhile (\<lambda>c. c \<noteq> LF) s"
    have s: "s = ?t @ LF # rest" using dropWhile_neq_Cons [OF Cons] by simp
    have "length rest < length s" using arg_cong [OF s, of length] by simp
    then have "count_list (print_lines pad rest) x = count_list rest x" using 1 by blast
    then have "count_list (print_lines pad s) x = count_list (?t @ LF # rest) x"
      using assms by (simp add: print_lines.simps [of pad s] Cons)
    then show ?thesis using s by metis
  qed
qed

lemma count_layout:
  assumes "\<And>n. x \<notin> set (pad n)"
  shows "count_list (layout pad n cs) x = (\<Sum>c\<leftarrow>cs. count_list (call_text c) x)"
  using assms by (induction pad n cs rule: layout.induct) (auto simp: count_print_lines)

lemma count_padding: "indent_char p \<noteq> x \<Longrightarrow> x \<notin> set (padding p n)"
  by (auto simp: padding_def)

text \<open>
  Filling plain names into a template does not change how often a brace occurs in it; so braces can be
  counted in the templates.
\<close>

lemma count_fill:
  assumes "plain_vars vars" and x: "x \<in> {CHR ''{'', CHR ''}'', CHR ''('', CHR '')''}"
    and "\<And>n. x \<in> set n \<Longrightarrow> vars n = None"
  shows "count_list (fill CHR ''$'' vars s) x = count_list s x"
proof (induction s rule: length_induct)
  case (1 s)
  let ?e = "CHR ''$''"
  let ?t = "takeWhile (\<lambda>c. c \<noteq> ?e) s"
  show ?case
  proof (cases "dropWhile (\<lambda>c. c \<noteq> ?e) s")
    case Nil
    show ?thesis by (simp add: fill.simps [of ?e vars s] Nil)
  next
    case (Cons c r)
    let ?n = "takeWhile (\<lambda>c. c \<noteq> ?e) r"
    have s: "s = ?t @ ?e # r" using dropWhile_neq_Cons [OF Cons] by simp
    show ?thesis
    proof (cases "dropWhile (\<lambda>c. c \<noteq> ?e) r")
      case Nil
      show ?thesis by (simp add: fill.simps [of ?e vars s] Cons Nil)
    next
      case Cons2: (Cons d rest)
      have r: "r = ?n @ ?e # rest" using dropWhile_neq_Cons [OF Cons2] by simp
      have "length rest < length s"
        using arg_cong [OF s, of length] arg_cong [OF r, of length] by simp
      then have IH: "count_list (fill ?e vars rest) x = count_list rest x" using 1 by blast
      show ?thesis
      proof (cases "vars ?n")
        case None
        then show ?thesis by (simp add: fill.simps [of ?e vars s] Cons Cons2)
      next
        case (Some v)
        have "x \<notin> set v" using assms(1) Some x plain_not_in [of v x] by (auto simp: plain_vars_def)
        moreover have "x \<notin> set ?n" using assms(3) [of ?n] Some by auto
        ultimately have c: "count_list (?t @ v @ fill ?e vars rest) x = count_list (?t @ ?e # ?n @ ?e # rest) x"
          using IH x by auto
        have "s = ?t @ ?e # ?n @ ?e # rest" using s r by metis
        from c [folded this] show ?thesis by (simp add: fill.simps [of ?e vars s] Cons Cons2 Some)
      qed
    qed
  qed
qed

section \<open>Generators\<close>

text \<open>
  A well-behaved call: its names are plain, its template has no NUL and resolves completely, and the
  names of its variables have no braces.
\<close>

fun template :: "printer_call \<Rightarrow> string" where
  "template (Print s) = s"
| "template (Print_vars vars s) = s"
| "template Indent = []"
| "template Outdent = []"

definition plain_dom :: "vars \<Rightarrow> bool" where
  "plain_dom vars \<longleftrightarrow> (\<forall>n. vars n \<noteq> None \<longrightarrow> plain n)"

lemma plain_dom_simps [simp]:
  "plain_dom Map.empty" "plain n \<Longrightarrow> plain_dom vars \<Longrightarrow> plain_dom (vars(n \<mapsto> v))"
  by (auto simp: plain_dom_def)

fun good_call :: "printer_call \<Rightarrow> bool" where
  "good_call (Print_vars vars s) \<longleftrightarrow> plain_vars vars \<and> plain_dom vars \<and> CHR 0x00 \<notin> set s \<and>
     CHR ''$'' \<notin> set (fill CHR ''$'' vars s)"
| "good_call c \<longleftrightarrow> CHR ''$'' \<notin> set (template c)"

lemma set_fill: "set (fill esc vars s) \<subseteq> set s \<union> \<Union> (set ` ran vars)"
proof (induction s rule: length_induct)
  case (1 s)
  show ?case
  proof (cases "dropWhile (\<lambda>c. c \<noteq> esc) s")
    case Nil
    show ?thesis by (simp add: fill.simps [of esc vars s] Nil)
  next
    case (Cons c r)
    let ?t = "takeWhile (\<lambda>c. c \<noteq> esc) s"
    let ?n = "takeWhile (\<lambda>c. c \<noteq> esc) r"
    have s: "s = ?t @ esc # r" using dropWhile_neq_Cons [OF Cons] by simp
    show ?thesis
    proof (cases "dropWhile (\<lambda>c. c \<noteq> esc) r")
      case Nil
      show ?thesis by (simp add: fill.simps [of esc vars s] Cons Nil)
    next
      case Cons2: (Cons d rest)
      have r: "r = ?n @ esc # rest" using dropWhile_neq_Cons [OF Cons2] by simp
      have "length rest < length s" "set rest \<subseteq> set s" "set ?t \<subseteq> set s"
        using arg_cong [OF s, of length] arg_cong [OF r, of length] arg_cong [OF s, of set]
          arg_cong [OF r, of set] by auto
      moreover have "set (fill esc vars rest) \<subseteq> set rest \<union> \<Union> (set ` ran vars)"
        using 1 \<open>length rest < length s\<close> by blast
      ultimately show ?thesis
        by (cases "vars ?n") (auto simp: fill.simps [of esc vars s] Cons Cons2 ran_def)
    qed
  qed
qed

lemma c_str_id: "CHR 0x00 \<notin> set s \<Longrightarrow> c_str s = s"
  unfolding c_str_def by (induction s) auto

lemma good_call_text:
  assumes "good_call c"
  shows "plain_call c" "CHR ''$'' \<notin> set (call_text c)"
    and "x \<in> {CHR ''{'', CHR ''}'', CHR ''('', CHR '')''} \<Longrightarrow>
      count_list (call_text c) x = count_list (template c) x"
proof -
  show "plain_call c" using assms by (cases c) simp_all
  show "CHR ''$'' \<notin> set (call_text c)"
    using assms by (cases c) (auto simp: c_str_def dest: set_takeWhileD)
  assume x: "x \<in> {CHR ''{'', CHR ''}'', CHR ''('', CHR '')''}"
  show "count_list (call_text c) x = count_list (template c) x"
  proof (cases c)
    case (Print_vars vars s)
    have p: "plain_vars vars" "\<And>n. vars n \<noteq> None \<Longrightarrow> plain n" "CHR 0x00 \<notin> set s"
      using assms by (simp_all add: Print_vars plain_dom_def)
    have "CHR 0x00 \<notin> set (fill CHR ''$'' vars s)"
      using set_fill [of "CHR ''$''" vars s] p(1,3) plain_not_in [of _ "CHR 0x00"]
      by (fastforce simp: plain_vars_def ran_def)
    moreover have "vars n = None" if "x \<in> set n" for n
      using p(2) [of n] plain_not_in [of n x] x that by (cases "vars n") auto
    ultimately show ?thesis
      using count_fill [OF p(1) x, of s] by (simp add: Print_vars c_str_id)
  qed simp_all
qed

text \<open>Indentation and brace balance of composed lists of calls.\<close>

lemma depth_concat:
  "(\<And>cs. cs \<in> set css \<Longrightarrow> depth n cs = Some n) \<Longrightarrow> depth n (concat css) = Some n"
  by (induction css) (simp_all add: depth_append)

lemma depth_prints:
  "(\<And>c. c \<in> set cs \<Longrightarrow> c \<noteq> Indent \<and> c \<noteq> Outdent) \<Longrightarrow> depth n cs = Some n"
proof (induction cs)
  case (Cons c cs)
  have "c \<noteq> Indent" "c \<noteq> Outdent" using Cons.prems [of c] by simp_all
  moreover have "depth n cs = Some n" using Cons.prems by (intro Cons.IH) simp
  ultimately show ?case by (cases c) simp_all
qed simp

definition net :: "char \<Rightarrow> char \<Rightarrow> printer_call list \<Rightarrow> int" where
  "net x y cs = (\<Sum>c\<leftarrow>cs. int (count_list (template c) x) - int (count_list (template c) y))"

lemma net_simps [simp]:
  "net x y [] = 0"
  "net x y (c # cs) = int (count_list (template c) x) - int (count_list (template c) y) + net x y cs"
  "net x y (cs @ ds) = net x y cs + net x y ds"
  by (simp_all add: net_def)

lemma net_concat: "(\<And>cs. cs \<in> set css \<Longrightarrow> net x y cs = 0) \<Longrightarrow> net x y (concat css) = 0"
  by (induction css) simp_all

lemma net_map:
  "net x y (map (\<lambda>a. Print_vars (f a) t) as) = int (length as) * (int (count_list t x) - int (count_list t y))"
  by (induction as) (simp_all add: algebra_simps)

lemma net_sum:
  "net x y cs = int (\<Sum>c\<leftarrow>cs. count_list (template c) x) - int (\<Sum>c\<leftarrow>cs. count_list (template c) y)"
  by (induction cs) simp_all

text \<open>Calls that are well behaved, give back their indentation and balance braces and parentheses.\<close>

definition well_printed :: "printer_call list \<Rightarrow> bool" where
  "well_printed cs \<longleftrightarrow> list_all good_call cs \<and> (\<forall>n. depth n cs = Some n) \<and>
     net (CHR ''{'') (CHR ''}'') cs = 0 \<and> net (CHR ''('') (CHR '')'') cs = 0"

lemma well_printed_append [simp]: "well_printed cs \<Longrightarrow> well_printed ds \<Longrightarrow> well_printed (cs @ ds)"
  by (simp add: well_printed_def depth_append)

lemma well_printed_concat: "(\<And>cs. cs \<in> set css \<Longrightarrow> well_printed cs) \<Longrightarrow> well_printed (concat css)"
  by (induction css) (simp_all add: well_printed_def depth_append)

lemma well_printed_map: "(\<And>x. x \<in> set xs \<Longrightarrow> well_printed [f x]) \<Longrightarrow> well_printed (map f xs)"
  using well_printed_concat [of "map (\<lambda>x. [f x]) xs"] by (auto simp: concat_map_singleton)

text \<open>A block of calls between a prefix and a suffix.\<close>

lemma well_printed_block:
  assumes "well_printed cs" "well_printed (pre @ post)"
  shows "well_printed (pre @ cs @ post)"
proof -
  have "depth n (pre @ cs @ post) = depth n (pre @ post)" for n
    using assms(1) by (cases "depth n pre") (simp_all add: depth_append well_printed_def)
  then show ?thesis using assms by (auto simp: well_printed_def)
qed

text \<open>What a generator has printed when it saves its file.\<close>

definition printed :: "printer_call list gen \<Rightarrow> smf_printer \<Rightarrow> string gen" where
  "printed calls p =
     (case calls of
        Inl e \<Rightarrow> Inl e
      | Inr cs \<Rightarrow> (case emit cs p of Inl e \<Rightarrow> Inl e | Inr q \<Rightarrow> Inr (contents q)))"

text \<open>A text in which every placeholder is replaced, and braces and parentheses balance.\<close>

definition complete_text :: "string \<Rightarrow> bool" where
  "complete_text t \<longleftrightarrow> CHR ''$'' \<notin> set t \<and>
     count_list t (CHR ''{'') = count_list t (CHR ''}'') \<and>
     count_list t (CHR ''('') = count_list t (CHR '')'')"

text \<open>
  A generator: for well-formed schemas it gets as far as its calls, and they are well printed.
\<close>

locale printing_generator =
  fixes calls :: "'g \<Rightarrow> printer_call list gen"
    and wf :: "'g \<Rightarrow> bool"
    and printer :: smf_printer
  assumes fresh: "escape_char printer = CHR ''$''" "indent_level printer = 0" "out printer = []"
      "indent_char printer \<notin> {CHR ''$'', CHR ''{'', CHR ''}'', CHR ''('', CHR '')''}"
    and calls_printed: "wf g \<Longrightarrow> \<exists>cs. calls g = Inr cs \<and> well_printed cs"
begin

lemma layout_count:
  assumes "x \<in> {CHR ''$'', CHR ''{'', CHR ''}'', CHR ''('', CHR '')''}"
  shows "count_list (layout (padding printer) 0 cs) x = (\<Sum>c\<leftarrow>cs. count_list (call_text c) x)"
  using fresh(4) assms by (intro count_layout count_padding) auto

lemma layout_complete:
  assumes "well_printed cs"
  shows "complete_text (layout (padding printer) 0 cs)"
proof -
  have good: "good_call c" if "c \<in> set cs" for c
    using assms that by (simp add: well_printed_def list_all_iff)
  have "(\<Sum>c\<leftarrow>cs. count_list (call_text c) (CHR ''$'')) = 0"
    using good good_call_text(2) by (auto simp: sum_list_eq_0_iff count_list_0_iff)
  moreover have "(\<Sum>c\<leftarrow>cs. count_list (call_text c) x) = (\<Sum>c\<leftarrow>cs. count_list (template c) x)"
    if "x \<in> {CHR ''{'', CHR ''}'', CHR ''('', CHR '')''}" for x
    using good good_call_text(3) [OF _ that] by (intro arg_cong [where f = sum_list] map_cong) auto
  ultimately show ?thesis
    using assms by (simp add: complete_text_def layout_count well_printed_def net_sum
        flip: count_list_0_iff)
qed

lemma returns:
  assumes "wf g"
  shows "\<exists>t. printed (calls g) printer = Inr t \<and> complete_text t"
proof -
  obtain cs where cs: "calls g = Inr cs" "well_printed cs" using calls_printed [OF assms] by blast
  then have "emit cs printer =
      Inr (printer\<lparr>out := out printer @ layout (padding printer) 0 cs, indent_level := int 0\<rparr>)"
    using good_call_text(1) fresh by (intro emit_layout) (auto simp: well_printed_def list_all_iff)
  then show ?thesis
    using layout_complete [OF cs(2)] cs(1) fresh(3) by (simp add: printed_def contents_def)
qed

end

end
