(* ===== verification/Smfc_Service.thy ===== *)
theory Smfc_Service
  imports Smfc_Printer
begin

text \<open>
  Services and methods as the generators see them (\<^verbatim>\<open>smfc/smf_service.h\<close>, \<^verbatim>\<open>smf_method.h\<close>,
  \<^verbatim>\<open>language.h\<close>, \<^verbatim>\<open>crc.h\<close>, \<^verbatim>\<open>generator.h\<close>). What the flatbuffers parser knows is a record; boost's CRC
  (\<open>crc\<close>) and the file name functions of flatbuffers are parameters.
\<close>

section \<open>What the parser knows\<close>

record struct_def =
  sd_name :: string
  sd_namespace :: "string list"

record rpc_call_def =
  rc_name :: string
  rc_request :: struct_def
  rc_response :: struct_def

record service_def =
  sv_name :: string
  sv_namespace :: "string list"
  sv_calls :: "rpc_call_def list"
  sv_generated :: bool

text \<open>
  \<open>ps_package\<close> is \<^verbatim>\<open>current_namespace_->GetFullyQualifiedName("")\<close>; \<open>ps_included\<close> the keys of
  \<^verbatim>\<open>included_files_\<close>, in order.
\<close>

record fbs_parser =
  ps_services :: "service_def list"
  ps_package :: string
  ps_components :: "string list"
  ps_included :: "string list"
  ps_error :: string

record fb_lib =
  StripPath :: "string \<Rightarrow> string"
  StripExtension :: "string \<Rightarrow> string"
  StripFileName :: "string \<Rightarrow> string"
  crc32 :: "string \<Rightarrow> u32"

section \<open>Names\<close>

datatype language = L_none | L_cpp | L_go | L_python | L_all

fun join :: "string \<Rightarrow> string list \<Rightarrow> string" where
  "join sep [] = []"
| "join sep [s] = s"
| "join sep (s # t # ss) = s @ sep @ join sep (t # ss)"

definition cpp_type :: "struct_def \<Rightarrow> string" where
  "cpp_type sd = join ''::'' (sd_namespace sd @ [sd_name sd])"

definition python_type :: "struct_def \<Rightarrow> string" where
  "python_type sd = join ''.'' (sd_namespace sd @ [sd_name sd, sd_name sd])"

definition type_of :: "language \<Rightarrow> struct_def \<Rightarrow> string gen" where
  "type_of lang sd =
     (case lang of
        L_cpp \<Rightarrow> Inr (cpp_type sd)
      | L_go \<Rightarrow> Inr (sd_name sd)
      | L_python \<Rightarrow> Inr (python_type sd)
      | _ \<Rightarrow> Inl (Abort ''Unknown language for the method.h''))"

section \<open>Methods and services\<close>

record smf_method =
  m_call :: rpc_call_def
  m_service_name :: string
  m_service_id :: u32
  m_id :: u32

definition smf_method_new :: "fb_lib \<Rightarrow> rpc_call_def \<Rightarrow> string \<Rightarrow> u32 \<Rightarrow> smf_method" where
  "smf_method_new F c service_name service_id =
     \<lparr>m_call = c, m_service_name = service_name, m_service_id = service_id,
      m_id = crc32 F (rc_name c @ '':'' @ cpp_type (rc_request c) @ '':'' @ cpp_type (rc_response c))\<rparr>"

definition m_name :: "smf_method \<Rightarrow> string" where
  "m_name m = rc_name (m_call m)"

definition input_type_name :: "smf_method \<Rightarrow> string" where
  "input_type_name m = cpp_type (rc_request (m_call m))"

definition output_type_name :: "smf_method \<Rightarrow> string" where
  "output_type_name m = cpp_type (rc_response (m_call m))"

definition go_input_type_name :: "smf_method \<Rightarrow> string" where
  "go_input_type_name m = sd_name (rc_request (m_call m))"

definition go_output_type_name :: "smf_method \<Rightarrow> string" where
  "go_output_type_name m = sd_name (rc_response (m_call m))"

definition python_output_type_name :: "smf_method \<Rightarrow> string" where
  "python_output_type_name m = python_type (rc_response (m_call m))"

text \<open>The type names of a method are those of \<^verbatim>\<open>type\<close> for each language.\<close>

lemma type_of_names:
  "type_of L_cpp (rc_request (m_call m)) = Inr (input_type_name m)"
  "type_of L_cpp (rc_response (m_call m)) = Inr (output_type_name m)"
  "type_of L_go (rc_request (m_call m)) = Inr (go_input_type_name m)"
  "type_of L_go (rc_response (m_call m)) = Inr (go_output_type_name m)"
  "type_of L_python (rc_response (m_call m)) = Inr (python_output_type_name m)"
  by (simp_all add: type_of_def input_type_name_def output_type_name_def go_input_type_name_def
      go_output_type_name_def python_output_type_name_def)

record smf_service =
  s_def :: service_def
  s_id :: u32
  s_methods :: "smf_method list"

definition s_name :: "smf_service \<Rightarrow> string" where
  "s_name s = sv_name (s_def s)"

definition smf_service_new :: "fb_lib \<Rightarrow> service_def \<Rightarrow> smf_service" where
  "smf_service_new F d =
     (let i = crc32 F (sv_name d) in
      \<lparr>s_def = d, s_id = i, s_methods = map (\<lambda>c. smf_method_new F c (sv_name d) i) (sv_calls d)\<rparr>)"

text \<open>\<^verbatim>\<open>std::to_string\<close> of an id and of a size.\<close>

abbreviation to_string :: "u32 \<Rightarrow> string" where
  "to_string w \<equiv> dec_nat (unat w)"

section \<open>Generators\<close>

record generator =
  g_parser :: fbs_parser
  g_input_filename :: string
  g_output_dir :: string
  g_services :: "smf_service list"

text \<open>Services of included files are marked as generated and skipped.\<close>

definition generator_new :: "fb_lib \<Rightarrow> fbs_parser \<Rightarrow> string \<Rightarrow> string \<Rightarrow> generator" where
  "generator_new F p ifname out_dir =
     \<lparr>g_parser = p, g_input_filename = ifname, g_output_dir = out_dir,
      g_services = map (smf_service_new F) (filter (\<lambda>s. \<not> sv_generated s) (ps_services p))\<rparr>"

definition package :: "generator \<Rightarrow> string" where
  "package g = ps_package (g_parser g)"

definition package_parts :: "generator \<Rightarrow> string list" where
  "package_parts g = ps_components (g_parser g)"

definition input_filename_without_path :: "fb_lib \<Rightarrow> generator \<Rightarrow> string" where
  "input_filename_without_path F g = StripPath F (g_input_filename g)"

definition input_filename_without_ext :: "fb_lib \<Rightarrow> generator \<Rightarrow> string" where
  "input_filename_without_ext F g = StripExtension F (input_filename_without_path F g)"

text \<open>
  Saving a file: what \<^verbatim>\<open>boost::filesystem\<close> and \<^verbatim>\<open>flatbuffers::SaveFile\<close> do to the file system \<open>'f\<close> is
  a parameter.
\<close>

record 'f file_ops =
  exists_op :: "string \<Rightarrow> 'f \<Rightarrow> bool"
  remove_op :: "string \<Rightarrow> 'f \<Rightarrow> 'f"
  save_op :: "string \<Rightarrow> string \<Rightarrow> 'f \<Rightarrow> 'f \<times> bool"
  load_op :: "string \<Rightarrow> 'f \<Rightarrow> string option"
  mkdirs_op :: "string \<Rightarrow> 'f \<Rightarrow> 'f option"
  canonical_op :: "string \<Rightarrow> 'f \<Rightarrow> string option"
  dir_exists_op :: "string \<Rightarrow> 'f \<Rightarrow> bool"

definition save_contents_to_file :: "'f file_ops \<Rightarrow> string \<Rightarrow> string \<Rightarrow> 'f \<Rightarrow> 'f \<times> string option" where
  "save_contents_to_file X outname text fs =
     (let fs1 = (if exists_op X outname fs then remove_op X outname fs else fs);
          (fs2, ok) = save_op X outname text fs1 in
      (fs2, if ok then None else Some (''Could not create filename: '' @ outname)))"

section \<open>Plain names\<close>

text \<open>
  What flatbuffers accepts as identifiers, and file names without characters that mean something in a
  template, are plain.
\<close>

definition is_upper :: "char \<Rightarrow> bool" where
  "is_upper c \<longleftrightarrow> 65 \<le> (of_char c :: nat) \<and> (of_char c :: nat) \<le> 90"

definition is_lower :: "char \<Rightarrow> bool" where
  "is_lower c \<longleftrightarrow> 97 \<le> (of_char c :: nat) \<and> (of_char c :: nat) \<le> 122"

definition is_digit :: "char \<Rightarrow> bool" where
  "is_digit c \<longleftrightarrow> 48 \<le> (of_char c :: nat) \<and> (of_char c :: nat) \<le> 57"

definition is_alnum :: "char \<Rightarrow> bool" where
  "is_alnum c \<longleftrightarrow> is_upper c \<or> is_lower c \<or> is_digit c"

definition to_upper :: "char \<Rightarrow> char" where
  "to_upper c = (if is_lower c then char_of ((of_char c :: nat) - 32) else c)"

definition to_lower :: "char \<Rightarrow> char" where
  "to_lower c = (if is_upper c then char_of ((of_char c :: nat) + 32) else c)"

definition ident :: "string \<Rightarrow> bool" where
  "ident s \<longleftrightarrow> s \<noteq> [] \<and> list_all (\<lambda>c. is_alnum c \<or> c = CHR ''_'') s"

lemma of_char_inj: "(of_char c :: nat) = of_char d \<longleftrightarrow> c = d"
  by (metis char_of_char)

lemma plain_char_code:
  "plain_char c \<longleftrightarrow> (of_char c :: nat) \<notin> {36, 0, 10, 123, 125, 40, 41}"
proof -
  have "(of_char c :: nat) = of_char d \<longleftrightarrow> c = d" for d by (rule of_char_inj)
  from this [of "CHR ''$''"] this [of "CHR 0x00"] this [of LF] this [of "CHR ''{''"] this [of "CHR ''}''"]
    this [of "CHR ''(''"] this [of "CHR '')''"]
  show ?thesis by (simp add: plain_char_def)
qed

lemma plain_alnum: "is_alnum c \<Longrightarrow> plain_char c"
  by (auto simp: plain_char_code is_alnum_def is_upper_def is_lower_def is_digit_def)

lemma plain_chars [simp]:
  "plain_char (CHR ''_'')" "plain_char (CHR '':'')" "plain_char (CHR ''.'')" "plain_char (CHR ''/'')"
  "plain_char (CHR ''-'')"
  by (simp_all add: plain_char_def)

lemma plain_ident: "ident s \<Longrightarrow> plain s"
  by (auto simp: ident_def plain_def list_all_iff plain_alnum)

lemma of_char_char_of: "n < 256 \<Longrightarrow> (of_char (char_of n) :: nat) = n"
  by (simp add: of_char_of)

lemma plain_to_upper: "plain_char c \<Longrightarrow> plain_char (to_upper c)"
  by (auto simp: to_upper_def plain_char_code is_lower_def of_char_char_of)

lemma plain_to_lower: "plain_char c \<Longrightarrow> plain_char (to_lower c)"
  by (auto simp: to_lower_def plain_char_code is_upper_def of_char_char_of)

lemma plain_map_case:
  "plain s \<Longrightarrow> plain (map to_lower s)" "plain s \<Longrightarrow> plain (map to_upper s)"
  by (auto simp: plain_def list_all_iff plain_to_lower plain_to_upper)

lemma plain_dec_nat [simp]: "plain (dec_nat n)"
proof (induction n rule: dec_nat.induct)
  case (1 n)
  have "plain_char (char_of (k + 48))" if "k < 10" for k :: nat
    using that by (simp add: plain_char_code of_char_char_of)
  then show ?case using 1 by (subst dec_nat.simps) simp
qed

lemma plain_join: "plain sep \<Longrightarrow> list_all plain ss \<Longrightarrow> plain (join sep ss)"
  by (induction sep ss rule: join.induct) auto

lemma plain_types:
  "list_all ident (sd_namespace sd) \<Longrightarrow> ident (sd_name sd) \<Longrightarrow> plain (cpp_type sd)"
  "list_all ident (sd_namespace sd) \<Longrightarrow> ident (sd_name sd) \<Longrightarrow> plain (python_type sd)"
  by (auto simp: cpp_type_def python_type_def list_all_iff plain_ident intro!: plain_join)

text \<open>Schemas: every name is an identifier.\<close>

definition wf_struct :: "struct_def \<Rightarrow> bool" where
  "wf_struct sd \<longleftrightarrow> list_all ident (sd_namespace sd) \<and> ident (sd_name sd)"

definition wf_method :: "smf_method \<Rightarrow> bool" where
  "wf_method m \<longleftrightarrow> ident (m_name m) \<and> ident (m_service_name m) \<and>
     wf_struct (rc_request (m_call m)) \<and> wf_struct (rc_response (m_call m))"

definition wf_service :: "smf_service \<Rightarrow> bool" where
  "wf_service s \<longleftrightarrow> ident (s_name s) \<and> list_all ident (sv_namespace (s_def s)) \<and>
     list_all wf_method (s_methods s)"

definition wf_generator :: "fb_lib \<Rightarrow> generator \<Rightarrow> bool" where
  "wf_generator F g \<longleftrightarrow> list_all wf_service (g_services g) \<and> list_all ident (package_parts g) \<and>
     plain (g_input_filename g) \<and> plain (input_filename_without_ext F g) \<and>
     list_all plain (ps_included (g_parser g))"

lemma wf_method_plain [simp]:
  assumes "wf_method m"
  shows "plain (m_name m)" "plain (m_service_name m)" "plain (input_type_name m)"
    "plain (output_type_name m)" "plain (go_input_type_name m)" "plain (go_output_type_name m)"
    "plain (python_output_type_name m)"
  using assms by (auto simp: wf_method_def wf_struct_def input_type_name_def output_type_name_def
      go_input_type_name_def go_output_type_name_def python_output_type_name_def plain_ident
      plain_types)

lemma plain_no_dollar [simp]: "plain s \<Longrightarrow> CHR ''$'' \<notin> set s"
  by (simp add: plain_not_in)

lemma wf_service_simps [simp]:
  assumes "wf_service s"
  shows "plain (s_name s)" "i < length (s_methods s) \<Longrightarrow> wf_method (s_methods s ! i)"
    "m \<in> set (s_methods s) \<Longrightarrow> wf_method m"
    "plain (join ''::'' (sv_namespace (s_def s) @ [s_name s]))"
  using assms by (auto simp: wf_service_def plain_ident list_all_iff intro!: plain_join)

lemmas call_simps = well_printed_def lns_def fill.simps plain_char_def Let_def

lemma wf_generator_simps [simp]:
  assumes "wf_generator F g"
  shows "plain (g_input_filename g)" "plain (input_filename_without_ext F g)"
    "f \<in> set (ps_included (g_parser g)) \<Longrightarrow> plain f"
    "p \<in> set (package_parts g) \<Longrightarrow> plain p"
    "srv \<in> set (g_services g) \<Longrightarrow> wf_service srv"
  using assms by (auto simp: wf_generator_def list_all_iff plain_ident)

text \<open>The schema of the demo: one service, with one method.\<close>

definition sample_lib :: fb_lib where
  "sample_lib = \<lparr>StripPath = (\<lambda>s. s), StripExtension = takeWhile (\<lambda>c. c \<noteq> CHR ''.''),
     StripFileName = (\<lambda>s. ''''), crc32 = (\<lambda>s. of_nat (length s))\<rparr>"

definition demo_schema :: service_def where
  "demo_schema = \<lparr>sv_name = ''SmfStorage'', sv_namespace = [''demo''],
     sv_calls = [\<lparr>rc_name = ''Get'', rc_request = \<lparr>sd_name = ''Request'', sd_namespace = [''demo'']\<rparr>,
       rc_response = \<lparr>sd_name = ''Response'', sd_namespace = [''demo'']\<rparr>\<rparr>], sv_generated = False\<rparr>"

definition sample_generator :: generator where
  "sample_generator = generator_new sample_lib
     \<lparr>ps_services = [demo_schema], ps_package = ''demo'', ps_components = [''demo''],
      ps_included = [''demo.fbs''], ps_error = ''''\<rparr> ''demo.fbs'' ''out''"

lemma sample_generator_wf: "wf_generator sample_lib sample_generator"
  by code_simp

definition no_files :: "unit file_ops" where
  "no_files = \<lparr>exists_op = (\<lambda>_ _. False), remove_op = (\<lambda>_ fs. fs), save_op = (\<lambda>_ _ fs. (fs, True)),
     load_op = (\<lambda>_ _. Some []), mkdirs_op = (\<lambda>_ fs. Some fs),
     canonical_op = (\<lambda>p _. Some p), dir_exists_op = (\<lambda>_ _. True)\<rparr>"

end
