(* ===== verification/Demo_Apps.thy ===== *)
theory Demo_Apps
  imports Rpc_Server_Progress Rpc_Server_Start Load_Generator Smfc_Service
begin

text \<open>
  The demo applications (\<^verbatim>\<open>demo_apps/cpp/server/main.cc\<close>, \<^verbatim>\<open>demo_apps/cpp/client/main.cc\<close>): the service that
  echoes names, the server it is registered with, and the requests the client's load generator makes. The
  service is the one smfc generates from \<^verbatim>\<open>demo_service.fbs\<close>. Flatbuffers packs and reads the tables
  (\<open>pack\<close>, \<open>GetRoot\<close>); a string that a table does not have is a null pointer, \<open>None\<close>.
\<close>

section \<open>The schema\<close>

record demo_table =
  fb_name :: "string option"

record demo_native =
  nt_name :: string

definition storage_call :: "string \<Rightarrow> rpc_call_def" where
  "storage_call n =
     \<lparr>rc_name = n, rc_request = \<lparr>sd_name = ''Request'', sd_namespace = [''smf_gen'', ''demo'']\<rparr>,
      rc_response = \<lparr>sd_name = ''Response'', sd_namespace = [''smf_gen'', ''demo'']\<rparr>\<rparr>"

definition storage_schema :: service_def where
  "storage_schema =
     \<lparr>sv_name = ''SmfStorage'', sv_namespace = [''smf_gen'', ''demo''],
      sv_calls = map storage_call [''Get'', ''Put'', ''Fire'', ''Forget'', ''SomethingElse''],
      sv_generated = False\<rparr>"

section \<open>The server\<close>

text \<open>\<^verbatim>\<open>data.data->name = rec->name()->c_str()\<close>: a missing name is dereferenced.\<close>

definition storage_Get :: "demo_table rpc_recv_typed_context \<Rightarrow> demo_native rpc_typed_envelope fut" where
  "storage_Get rec =
     (let d = rpc_typed_envelope_new \<lparr>nt_name = ''''\<rparr> in
      fut_then
        (if typed_bool rec then
           (case typed_cache rec of
              None \<Rightarrow> Inl (Undefined_behaviour ''rec->'')
            | Some v \<Rightarrow>
               (case fb_name v of
                  None \<Rightarrow> Inl (Undefined_behaviour ''rec->name()->c_str()'')
                | Some n \<Rightarrow> Inr (d\<lparr>data := Some \<lparr>nt_name = c_str n\<rparr>\<rparr>)))
         else Inr d)
        (\<lambda>d. Inr (d\<lparr>envelope := set_status 200 (envelope d)\<rparr>)))"

definition storage_method ::
  "xxh64 \<Rightarrow> (bytes \<Rightarrow> demo_table) \<Rightarrow> (demo_native \<Rightarrow> bytes) \<Rightarrow> smf_method \<Rightarrow> generated_method" where
  "storage_method xxh GetRoot pack m =
     \<lparr>gm_name = m_name m, gm_id = m_id m,
      gm_raw = generated_raw xxh GetRoot pack
        (if m_name m = ''Get'' then storage_Get else generated_default_method \<lparr>nt_name = ''''\<rparr>)\<rparr>"

definition storage_service ::
  "fb_lib \<Rightarrow> xxh64 \<Rightarrow> (bytes \<Rightarrow> demo_table) \<Rightarrow> (demo_native \<Rightarrow> bytes) \<Rightarrow> generated_service" where
  "storage_service F xxh GetRoot pack =
     (let s = smf_service_new F storage_schema in
      \<lparr>gs_name = s_name s, gs_id = s_id s, gs_methods = map (storage_method xxh GetRoot pack) (s_methods s)\<rparr>)"

text \<open>
  The command line of the server, with the memory of a shard; nine tenths of it are given to payloads (the
  rounding of doubles is not modelled). TLS is used when both a key and a certificate are given.
\<close>

record server_options =
  so_ip :: string
  so_port :: u16
  so_httpport :: u16
  so_key :: string
  so_cert :: string

definition server_options_new :: server_options where
  "server_options_new =
     \<lparr>so_ip = ''127.0.0.1'', so_port = 20776, so_httpport = 20777, so_key = '''', so_cert = ''''\<rparr>"

definition demo_server_args :: "server_options \<Rightarrow> nat \<Rightarrow> rpc_server_args" where
  "demo_server_args opts total_memory =
     rpc_server_args_new\<lparr>sa_ip := c_str (so_ip opts), sa_rpc_port := so_port opts, sa_http_port := so_httpport opts,
       sa_memory_avail_per_core := of_nat (9 * total_memory div 10),
       sa_credentials := so_key opts \<noteq> '''' \<and> so_cert opts \<noteq> ''''\<rparr>"

definition demo_server_cfg ::
  "bool \<Rightarrow> fb_lib \<Rightarrow> xxh64 \<Rightarrow> zstd_lib \<Rightarrow> (bytes \<Rightarrow> demo_table) \<Rightarrow> (demo_native \<Rightarrow> bytes) \<Rightarrow> server_cfg" where
  "demo_server_cfg dbg F xxh Z GetRoot pack =
     register_incoming_filter (zstd_decompression_filter xxh Z)
       \<lparr>debug_build = dbg, checksum_fn = xxh,
        routes = register_service (service_of (storage_service F xxh GetRoot pack)) rpc_handle_router_new,
        in_filters = [], out_filters = []\<rparr>"

definition demo_server :: "server_options \<Rightarrow> nat \<Rightarrow> listening list \<times> server" where
  "demo_server opts total_memory =
     (let a = demo_server_args opts total_memory in (rpc_server_start a, rpc_server_of_args a))"

section \<open>The client\<close>

definition kPayload1Kbytes :: string where
  "kPayload1Kbytes = replicate 1000 (CHR ''x'')"

definition demo_generator :: "xxh64 \<Rightarrow> (demo_native \<Rightarrow> bytes) \<Rightarrow> rpc_envelope fut" where
  "demo_generator xxh pack =
     (let req = rpc_typed_envelope_new \<lparr>nt_name = ''''\<rparr> in
      serialize_data xxh pack (req\<lparr>data := Some \<lparr>nt_name = kPayload1Kbytes\<rparr>\<rparr>))"

text \<open>The stub that \<^verbatim>\<open>method_callback\<close> calls; the response is dropped.\<close>

definition method_callback :: "fb_lib \<Rightarrow> rpc_envelope \<Rightarrow> rpc_envelope" where
  "method_callback F e =
     (let s = smf_service_new F storage_schema in generated_client_call (s_id s) (m_id (s_methods s ! 0)) e)"

definition demo_load_args :: "string \<Rightarrow> u16 \<Rightarrow> u32 \<Rightarrow> u32 \<Rightarrow> string \<Rightarrow> nat \<Rightarrow> load_generator_args fut" where
  "demo_load_args ip port req_num concurrency ca_cert total_memory =
     fut_then (load_generator_args_new (c_str ip) port (unat req_num) (unat concurrency) (9 * total_memory div 10)
         compression_flags_none)
       (\<lambda>a. Inr (a\<lparr>la_credentials := (if ca_cert \<noteq> '''' then True else la_credentials a)\<rparr>))"

definition demo_load ::
  "xxh64 \<Rightarrow> zstd_lib \<Rightarrow> lz4_lib \<Rightarrow> (string \<Rightarrow> u16 \<Rightarrow> string) \<Rightarrow> (nat \<Rightarrow> u64) \<Rightarrow> load_generator_args \<Rightarrow>
     load_channel fut list" where
  "demo_load xxh Z L addr ids a = load_generator_connect (load_generator_new xxh Z L addr ids a)"

section \<open>Properties\<close>

lemma c_str_plain: "CHR 0x00 \<notin> set n \<Longrightarrow> c_str n = n"
  by (auto simp: c_str_def takeWhile_eq_all_conv)

lemma storage_methods:
  "gs_methods (storage_service F xxh GetRoot pack) =
     map (storage_method xxh GetRoot pack) (s_methods (smf_service_new F storage_schema))"
  "s_methods (smf_service_new F storage_schema) ! 0 \<in> set (s_methods (smf_service_new F storage_schema))"
  "m_name (s_methods (smf_service_new F storage_schema) ! 0) = ''Get''"
  "gs_id (storage_service F xxh GetRoot pack) = s_id (smf_service_new F storage_schema)"
  by (simp_all add: storage_service_def smf_service_new_def storage_schema_def smf_method_new_def m_name_def
      storage_call_def Let_def)

lemma storage_Get_echoes:
  assumes "GetRoot (ctx_payload c) = \<lparr>fb_name = Some n\<rparr>" "CHR 0x00 \<notin> set n"
    and "length (pack \<lparr>nt_name = n\<rparr>) < 2 ^ 32"
  shows "\<exists>r. generated_raw xxh GetRoot pack storage_Get c = Inr r \<and> hdr_meta (env_header r) = 200 \<and>
    env_body r = pack \<lparr>nt_name = n\<rparr> \<and> envelope_wf xxh r"
  using assms checksum_rpc_describes [of "pack \<lparr>nt_name = n\<rparr>" xxh]
  by (simp add: generated_raw_def storage_Get_def rpc_recv_typed_context_new_def typed_bool_def c_str_plain
      serialize_data_def Let_def rpc_typed_envelope_new_def envelope_wf_def env_header_def env_body_def
      rpc_envelope_new_def rpc_letter_new_def set_status_def env_with_def)

text \<open>
  C20. The demo echoes. When the five methods of the schema have different ids, and flatbuffers reads back the
  name it packed, then what the load generator of the demo client makes and its stub addresses is
  found by the router of the demo server, and the method it finds answers with status 200, the
  thousand bytes of the request's name and the request's session.
\<close>

theorem demo_echo:
  assumes "distinct (request_ids [storage_service F xxh GetRoot pack])"
    and "GetRoot (pack_req \<lparr>nt_name = kPayload1Kbytes\<rparr>) = \<lparr>fb_name = Some kPayload1Kbytes\<rparr>"
    and "length (pack_req \<lparr>nt_name = kPayload1Kbytes\<rparr>) < 2 ^ 32" "length (pack \<lparr>nt_name = kPayload1Kbytes\<rparr>) < 2 ^ 32"
  shows "\<exists>e h r. demo_generator xxh pack_req = Inr e \<and>
    get_handle_for_request (routes (demo_server_cfg dbg F xxh Z GetRoot pack))
      (hdr_meta (env_header (method_callback F e))) = Some h \<and>
    h (arrives a (mutate_session k (method_callback F e))) = Inr r \<and>
    hdr_meta (env_header r) = 200 \<and> env_body r = pack \<lparr>nt_name = kPayload1Kbytes\<rparr> \<and> hdr_session (env_header r) = k"
proof -
  let ?g = "storage_service F xxh GetRoot pack" and ?m = "s_methods (smf_service_new F storage_schema) ! 0"
  let ?n = "\<lparr>nt_name = kPayload1Kbytes\<rparr>"
  obtain e where e: "demo_generator xxh pack_req = Inr e" "env_body e = pack_req ?n"
    using serialize_data_wf [of xxh pack_req "rpc_typed_envelope_new ?n" _ ?n] assms(3)
    by (auto simp: demo_generator_def rpc_typed_envelope_new_def serialize_data_def Let_def)
  have m: "storage_method xxh GetRoot pack ?m \<in> set (gs_methods ?g)"
    using storage_methods by auto
  have route: "get_handle_for_request (routes (demo_server_cfg dbg F xxh Z GetRoot pack)) (gs_id ?g XOR gm_id (storage_method xxh GetRoot pack ?m)) =
      Some (generated_handle (storage_method xxh GetRoot pack ?m))"
    using find_generated [of ?g "[?g]", OF _ m assms(1)]
    by (simp add: demo_server_cfg_def register_incoming_filter_def register_service_def rpc_handle_router_new_def
        get_handle_for_request_def)
  define ctx where "ctx = arrives a (mutate_session k (method_callback F e))"
  have ctx: "ctx_payload ctx = pack_req ?n" "recv_session ctx = k"
    using e(2) by (simp_all add: ctx_def arrives_def received_ctx_def method_callback_def generated_client_call_def
        set_request_id_def mutate_session_def env_with_def env_body_def env_header_def recv_session_def Let_def)
  obtain r where r: "generated_raw xxh GetRoot pack storage_Get ctx = Inr r" "hdr_meta (env_header r) = 200"
    "env_body r = pack ?n"
    using storage_Get_echoes [of GetRoot ctx kPayload1Kbytes pack xxh] assms(2,4) ctx(1)
    by (auto simp: kPayload1Kbytes_def)
  have "generated_handle (storage_method xxh GetRoot pack ?m) ctx = Inr (mutate_session k r)"
    using r(1) ctx(2) storage_methods(3) by (simp add: generated_handle_def storage_method_def)
  moreover have "hdr_meta (env_header (method_callback F e)) = gs_id ?g XOR gm_id (storage_method xxh GetRoot pack ?m)"
    using storage_methods(4) by (simp add: method_callback_def generated_client_call_def storage_method_def Let_def)
  ultimately show ?thesis using e(1) route r(2,3) by (auto simp: ctx_def)
qed

definition demo_lib :: fb_lib where
  "demo_lib = sample_lib\<lparr>crc32 := (\<lambda>s. 256 * of_nat (length s) + of_nat (of_char (hd s)))\<rparr>"

definition demo_pack :: "demo_native \<Rightarrow> bytes" where
  "demo_pack n = replicate (length (nt_name n)) 120"

definition demo_root :: "bytes \<Rightarrow> demo_table" where
  "demo_root bs = \<lparr>fb_name = Some (replicate (length bs) (CHR ''x''))\<rparr>"

lemma demo_ids: "distinct (request_ids [storage_service demo_lib sample_xxh demo_root demo_pack])"
proof -
  have "distinct (map m_id (s_methods (smf_service_new demo_lib storage_schema)))"
    by (simp add: demo_lib_def sample_lib_def smf_service_new_def storage_schema_def storage_call_def smf_method_new_def
        cpp_type_def Let_def)
  then show ?thesis
    by (simp add: request_ids_def storage_service_def storage_method_def distinct_map inj_on_def xor_u32_cancel
        Let_def comp_def)
qed

theorem demo_echo_witness:
  "\<exists>e h r. demo_generator sample_xxh demo_pack = Inr e \<and>
    get_handle_for_request (routes (demo_server_cfg True demo_lib sample_xxh stored_zstd demo_root demo_pack))
      (hdr_meta (env_header (method_callback demo_lib e))) = Some h \<and>
    h (arrives ''peer'' (mutate_session 7 (method_callback demo_lib e))) = Inr r \<and>
    hdr_meta (env_header r) = 200 \<and> env_body r = replicate 1000 120 \<and> hdr_session (env_header r) = 7"
  using demo_echo [OF demo_ids, of demo_pack True stored_zstd "''peer''" 7]
  by (simp add: demo_pack_def demo_root_def kPayload1Kbytes_def)

text \<open>
  With its default options the demo server listens on the loopback interface, for calls and for the admin
  pages, in plain text.
\<close>

lemma demo_server_listens:
  "fst (demo_server server_options_new total_memory) =
     [Http_admin (Some ''127.0.0.1'', 20777), Rpc_plain (Some ''127.0.0.1'', 20776)]"
  by (simp add: demo_server_def demo_server_args_def server_options_new_def rpc_server_args_new_def
      rpc_server_start_def listen_address_def rpc_server_flags_disable_http_server_def c_str_def Let_def)

text \<open>Every channel of the demo client is connecting: a new client has no connection yet.\<close>

lemma demo_load_connects:
  "length (demo_load xxh Z L addr ids a) = la_concurrency a \<and>
   list_all (\<lambda>r. \<exists>c. r = Inr c \<and> connecting (lc_client c) = 1 \<and> lc_incoming c = []) (demo_load xxh Z L addr ids
     (a\<lparr>la_compression := compression_flags_none\<rparr>))"
  by (simp add: demo_load_def load_generator_connect_def load_generator_new_def load_channel_connect_def
      load_channel_new_def client_connect_def rpc_client_new_def is_conn_valid_def enable_histogram_metrics_def
      log_throw_if_def list_all_iff compression_flags_defs)

text \<open>A request without a name, which flatbuffers accepts, makes the service dereference a null pointer.\<close>

theorem demo_null_name:
  assumes "GetRoot (ctx_payload c) = \<lparr>fb_name = None\<rparr>"
  shows "generated_raw xxh GetRoot pack storage_Get c = Inl (Undefined_behaviour ''rec->name()->c_str()'')"
  using assms
  by (simp add: generated_raw_def storage_Get_def rpc_recv_typed_context_new_def typed_bool_def Let_def)

end
