(* ===== verification/Rpc_Client_Invariants.thy ===== *)
theory Rpc_Client_Invariants
  imports Rpc_Client
begin

text \<open>
  Invariants of the client: the book of sessions, work items and calls is consistent
  (\<open>client_wf\<close>), and the gate counts the fibers (\<open>gate_inv\<close>).
\<close>

section \<open>The cases of a step\<close>

lemma client_step_cases [consumes 1, case_names connect connected connect_failed sent filtered
    response incoming memory hdr_written body_written flushed check hdr_read payload timed_out stop
    reconnect reopen]:
  assumes "client_step cfg ev s = Some s'"
  obtains "client_connect s = Inr s'" "ev = Connect_call"
  | "s' = client_connected s" "ev = Connected" "connecting s \<noteq> 0"
  | "s' = client_connect_failed s" "ev = Connect_failed"
  | e where "s' = client_send cfg e s" "ev = Send e"
  | i e w where "i < length (calls s)" "call_pc (calls s ! i) = C_OutFilters e w"
    "s' = call_filtered i w (client_apply_outgoing_filters cfg e) s" "ev = Call_filters_out i"
  | i w where "i < length (calls s)" "call_pc (calls s ! i) = C_Wait w"
    "pr (works s ! w) \<noteq> Pending" "s' = call_response i w s" "ev = Call_response i"
  | i ctx where "i < length (calls s)" "call_pc (calls s ! i) = C_InFilters ctx"
    "s' = call_incoming i (client_apply_incoming_filters cfg ctx) s" "ev = Call_filters_in i"
  | j where "j < length (writes s)" "wr_pc (writes s ! j) = W_WaitMem" "s' = write_memory j s"
    "ev = Write_memory j"
    "int (envelope_size (wr_env (writes s ! j))) \<le> resources_available (c_limits s)"
  | j i w where "j < length (writes s)" "wr_pc (writes s ! j) = W_WaitLock" "\<not> c_writing s"
    "c_conn s = Some i" "s' = write_header cfg j w s" "ev = Write_header j w"
  | j i w where "j < length (writes s)" "wr_pc (writes s ! j) = W_Body i" "s' = write_body j i w s"
    "ev = Write_body j w"
  | j i w where "j < length (writes s)" "wr_pc (writes s ! j) = W_Flush i" "s' = write_flush j i w s"
    "ev = Write_flush j w"
  | r where "r < length (readers s)" "rd_pc (readers s ! r) = R_Check" "s' = read_check cfg r s"
    "ev = Read_check r"
  | r rd where "r < length (readers s)" "rd_pc (readers s ! r) = R_Header" "fits kHeaderSize rd"
    "s' = read_header r rd s" "ev = Read_header r rd"
  | r hdr rd where "r < length (readers s)" "rd_pc (readers s ! r) = R_Payload hdr"
    "fits (unat (hdr_size hdr)) rd" "s' = read_payload cfg r hdr rd s" "ev = Read_payload r rd"
  | r where "r < length (readers s)" "rd_pc (readers s ! r) \<noteq> R_Check" "rd_attached (readers s ! r)"
    "s' = read_timeout r s" "ev = Read_timeout r"
  | "\<not> dispatch_closed s" "s' = client_stop s" "ev = Stop_call"
  | "\<not> dispatch_closed s" "s' = client_reconnect s" "ev = Reconnect_call"
  | "reconnecting s" "client_stopped s" "client_reopen s = Inr s'" "ev = Reconnect_go"
proof (cases ev)
  case (Read_timeout r)
  with assms that(15) [of r] show ?thesis
    by (auto simp: read_step_def not_le split: read_pc.splits if_splits)
qed (use assms that in \<open>auto simp: call_step_def write_step_def read_step_def fut_state_def not_le
      split: call_pc.splits write_pc.splits read_pc.splits if_splits sum.splits\<close>)

section \<open>Frames\<close>

lemma upd_cconn_sel [simp]:
  "c_limits (upd_cconn i f s) = c_limits s" "creds (upd_cconn i f s) = creds s"
  "read_counter (upd_cconn i f s) = read_counter s" "c_conn (upd_cconn i f s) = c_conn s"
  "rpc_slots (upd_cconn i f s) = rpc_slots s" "works (upd_cconn i f s) = works s"
  "calls (upd_cconn i f s) = calls s" "writes (upd_cconn i f s) = writes s"
  "readers (upd_cconn i f s) = readers s" "dispatch_count (upd_cconn i f s) = dispatch_count s"
  "dispatch_closed (upd_cconn i f s) = dispatch_closed s"
  "reconnecting (upd_cconn i f s) = reconnecting s" "connecting (upd_cconn i f s) = connecting s"
  "c_writing (upd_cconn i f s) = c_writing s" "session_idx (upd_cconn i f s) = session_idx s"
  "length (c_conns (upd_cconn i f s)) = length (c_conns s)"
  by (simp_all add: upd_cconn_def)

lemma map_cconns_upd:
  "(\<And>c. g (f c) = g c) \<Longrightarrow> map g (c_conns (upd_cconn i f s)) = map g (c_conns s)"
  by (simp add: upd_cconn_def map_list_update_same)

lemma disable_conn_sel [simp]:
  "c_limits (disable_conn s) = c_limits s" "creds (disable_conn s) = creds s"
  "read_counter (disable_conn s) = read_counter s" "c_conn (disable_conn s) = c_conn s"
  "rpc_slots (disable_conn s) = rpc_slots s" "works (disable_conn s) = works s"
  "calls (disable_conn s) = calls s" "writes (disable_conn s) = writes s"
  "readers (disable_conn s) = readers s" "dispatch_count (disable_conn s) = dispatch_count s"
  "dispatch_closed (disable_conn s) = dispatch_closed s"
  "reconnecting (disable_conn s) = reconnecting s" "connecting (disable_conn s) = connecting s"
  "c_writing (disable_conn s) = c_writing s" "session_idx (disable_conn s) = session_idx s"
  "length (c_conns (disable_conn s)) = length (c_conns s)"
  "map cc_out (c_conns (disable_conn s)) = map cc_out (c_conns s)"
  "map cc_failed (c_conns (disable_conn s)) = map cc_failed (c_conns s)"
  "map cc_tls (c_conns (disable_conn s)) = map cc_tls (c_conns s)"
  by (simp_all add: disable_conn_def set_cconn_def map_cconns_upd split: option.splits)

lemma fail_sel [simp]:
  "c_limits (fail_outstanding_futures s) = c_limits s" "creds (fail_outstanding_futures s) = creds s"
  "read_counter (fail_outstanding_futures s) = read_counter s"
  "c_conn (fail_outstanding_futures s) = c_conn s" "rpc_slots (fail_outstanding_futures s) = []"
  "works (fail_outstanding_futures s) = break_slots (rpc_slots s) (works s)"
  "calls (fail_outstanding_futures s) = calls s" "writes (fail_outstanding_futures s) = writes s"
  "readers (fail_outstanding_futures s) = readers s"
  "dispatch_count (fail_outstanding_futures s) = dispatch_count s"
  "dispatch_closed (fail_outstanding_futures s) = dispatch_closed s"
  "reconnecting (fail_outstanding_futures s) = reconnecting s"
  "connecting (fail_outstanding_futures s) = connecting s"
  "c_writing (fail_outstanding_futures s) = c_writing s"
  "session_idx (fail_outstanding_futures s) = session_idx s"
  "length (c_conns (fail_outstanding_futures s)) = length (c_conns s)"
  "map cc_out (c_conns (fail_outstanding_futures s)) = map cc_out (c_conns s)"
  "map cc_failed (c_conns (fail_outstanding_futures s)) = map cc_failed (c_conns s)"
  "map cc_tls (c_conns (fail_outstanding_futures s)) = map cc_tls (c_conns s)"
  by (simp_all add: fail_outstanding_futures_def Let_def)

lemma fail_not_valid:
  "c_conn s = Some i \<Longrightarrow> i < length (c_conns s) \<Longrightarrow> \<not> is_conn_valid (fail_outstanding_futures s)"
  by (auto simp: fail_outstanding_futures_def disable_conn_def is_conn_valid_def set_cconn_def
      upd_cconn_def Let_def is_valid_def shutdown_input_def shutdown_output_def disable_def
      has_error_def)

section \<open>Sessions, work items and calls\<close>

definition slots_inv :: "(u16 \<times> nat) list \<Rightarrow> work_item list \<Rightarrow> bool" where
  "slots_inv m ws \<longleftrightarrow> distinct (map fst m) \<and>
     (\<forall>(k, w) \<in> set m. w < length ws \<and> pr (ws ! w) = Pending \<and> work_session (ws ! w) = k)"

definition pending_inv :: "(u16 \<times> nat) list \<Rightarrow> work_item list \<Rightarrow> bool" where
  "pending_inv m ws \<longleftrightarrow>
     (\<forall>w < length ws. pr (ws ! w) = Pending \<longrightarrow> (work_session (ws ! w), w) \<in> set m)"

definition work_ok :: "client_cfg \<Rightarrow> work_item \<Rightarrow> bool" where
  "work_ok cfg w = (case pr w of
     Fulfilled None \<Rightarrow> False
   | Fulfilled (Some ctx) \<Rightarrow> recv_session ctx = work_session w \<and> received_ok (c_xxh cfg) ctx
   | _ \<Rightarrow> True)"

definition book_ok :: "client_cfg \<Rightarrow> (u16 \<times> nat) list \<Rightarrow> work_item list \<Rightarrow> bool" where
  "book_ok cfg m ws \<longleftrightarrow> slots_inv m ws \<and> (\<forall>w \<in> set ws. work_ok cfg w) \<and>
     (c_debug cfg \<longrightarrow> pending_inv m ws)"

lemma set_promise_sel [simp]:
  "length (set_promise w p ws) = length ws"
  "map work_session (set_promise w p ws) = map work_session ws"
  "v < length ws \<Longrightarrow> set_promise w p ws ! v = (if v = w then (ws ! v)\<lparr>pr := p\<rparr> else ws ! v)"
  by (simp_all add: set_promise_def map_list_update_same nth_list_update)

lemma break_slots_sel [simp]:
  "length (break_slots m ws) = length ws"
  "map work_session (break_slots m ws) = map work_session ws"
  by (induction m ws rule: break_slots.induct) simp_all

lemma work_session_nth: "map work_session ws = map work_session vs \<Longrightarrow> w < length vs \<Longrightarrow>
    work_session (ws ! w) = work_session (vs ! w)"
  by (metis length_map nth_map)

lemma break_slots_nth:
  "\<forall>(k, w) \<in> set m. w < length ws \<Longrightarrow> v < length ws \<Longrightarrow>
     pr (break_slots m ws ! v) =
       (if v \<in> snd ` set m then Broken Remote_connection_error else pr (ws ! v))"
proof (induction m ws rule: break_slots.induct)
  case (2 k w m ws)
  then show ?case by (auto simp: case_prod_beta)
qed simp

lemma work_ok_cong: "pr v = pr w \<Longrightarrow> work_session v = work_session w \<Longrightarrow> work_ok cfg v = work_ok cfg w"
  by (auto simp: work_ok_def split: promise.splits option.splits)

lemma work_ok_broken: "pr w = Broken x \<Longrightarrow> work_ok cfg w"
  by (simp add: work_ok_def)

lemma book_ok_break:
  assumes "book_ok cfg m ws"
  shows "book_ok cfg [] (break_slots m ws)"
proof -
  have m: "\<forall>(k, w) \<in> set m. w < length ws" using assms by (auto simp: book_ok_def slots_inv_def)
  note nth = break_slots_nth [OF m] and sess = work_session_nth [OF break_slots_sel(2) [of m ws]]
  have "work_ok cfg w" if "w \<in> set (break_slots m ws)" for w
  proof -
    from that obtain v where v: "v < length ws" "w = break_slots m ws ! v"
      by (auto simp: in_set_conv_nth)
    have "work_ok cfg (ws ! v)" using assms v(1) by (simp add: book_ok_def)
    then show ?thesis
      using v(2) nth [OF v(1)] sess [OF v(1)] work_ok_cong work_ok_broken by (metis (full_types))
  qed
  moreover have "pending_inv [] (break_slots m ws)" if "pending_inv m ws"
    unfolding pending_inv_def
  proof (intro allI impI)
    fix v
    assume "v < length (break_slots m ws)" and p: "pr (break_slots m ws ! v) = Pending"
    then have v: "v < length ws" by simp
    with p nth [OF v] have "v \<notin> snd ` set m" "pr (ws ! v) = Pending" by (auto split: if_splits)
    with that v show "(work_session (break_slots m ws ! v), v) \<in> set []"
      by (force simp: pending_inv_def)
  qed
  ultimately show ?thesis using assms by (auto simp: book_ok_def slots_inv_def)
qed

lemma book_ok_new:
  assumes "book_ok cfg m ws" and "c_debug cfg \<Longrightarrow> map_of m k = None"
  shows "book_ok cfg (slot_insert k (length ws) m) (ws @ [\<lparr>work_session = k, pr = Pending\<rparr>])"
proof -
  have "slots_inv (slot_insert k (length ws) m) (ws @ [\<lparr>work_session = k, pr = Pending\<rparr>])"
    using assms(1)
    by (fastforce simp: book_ok_def slots_inv_def slot_insert_def nth_append map_of_eq_None_iff)
  moreover have "pending_inv (slot_insert k (length ws) m) (ws @ [\<lparr>work_session = k, pr = Pending\<rparr>])"
    if "c_debug cfg"
    using assms that
    by (auto simp: book_ok_def pending_inv_def slot_insert_def nth_append less_Suc_eq)
  ultimately show ?thesis using assms(1) by (auto simp: book_ok_def work_ok_def)
qed

lemma book_ok_fulfil:
  assumes ok: "book_ok cfg m ws" and w: "map_of m (recv_session ctx) = Some w"
    and ctx: "received_ok (c_xxh cfg) ctx"
  shows "book_ok cfg (slot_erase (recv_session ctx) m) (set_promise w (Fulfilled (Some ctx)) ws)"
proof -
  let ?k = "recv_session ctx"
  have s: "slots_inv m ws" using ok by (simp add: book_ok_def)
  have kw: "(?k, w) \<in> set m" using w by (rule map_of_SomeD)
  then have wl: "w < length ws" "work_session (ws ! w) = ?k" using s by (auto simp: slots_inv_def)
  have other: "w' \<noteq> w" if "(k', w') \<in> set m" "k' \<noteq> ?k" for k' w'
    using s that wl(2) by (auto simp: slots_inv_def)
  have "slots_inv (slot_erase ?k m) (set_promise w (Fulfilled (Some ctx)) ws)"
    using s other by (auto simp: slots_inv_def slot_erase_def distinct_map_filter case_prod_beta)
  moreover have "work_ok cfg v" if "v \<in> set (set_promise w (Fulfilled (Some ctx)) ws)" for v
  proof -
    have "v = (ws ! w)\<lparr>pr := Fulfilled (Some ctx)\<rparr> \<or> v \<in> set ws"
      using that set_update_subset_insert by (fastforce simp: set_promise_def)
    then show ?thesis using ok ctx wl by (auto simp: book_ok_def work_ok_def)
  qed
  moreover have "pending_inv (slot_erase ?k m) (set_promise w (Fulfilled (Some ctx)) ws)"
    if "pending_inv m ws"
  proof -
    have "v = w" if "(?k, v) \<in> set m" for v
      using s kw that by (auto simp: slots_inv_def dest: eq_key_imp_eq_value)
    with that show ?thesis by (auto simp: pending_inv_def slot_erase_def)
  qed
  ultimately show ?thesis using ok by (auto simp: book_ok_def)
qed

text \<open>What a call holds, given the sessions of the work items.\<close>

definition call_ok :: "client_cfg \<Rightarrow> u16 list \<Rightarrow> call \<Rightarrow> bool" where
  "call_ok cfg ss c = (case call_pc c of
     C_OutFilters e w \<Rightarrow> w < length ss \<and> ss ! w = call_session c \<and>
       hdr_session (env_header e) = call_session c
   | C_Wait w \<Rightarrow> w < length ss \<and> ss ! w = call_session c
   | C_InFilters ctx \<Rightarrow> recv_session ctx = call_session c \<and> received_ok (c_xxh cfg) ctx
   | C_Done (Inr None) \<Rightarrow> False
   | C_Done (Inr (Some ctx)) \<Rightarrow>
       (\<exists>ctx0. received_ok (c_xxh cfg) ctx0 \<and> recv_session ctx0 = call_session c \<and>
          client_apply_incoming_filters cfg ctx0 = Inr ctx \<and>
          hdr_compression (ctx_header ctx) = compression_flags_none)
   | C_Done (Inl _) \<Rightarrow> True)"

definition readers_ok :: "client \<Rightarrow> bool" where
  "readers_ok s \<longleftrightarrow> (\<forall>f \<in> set (readers s). \<forall>hdr. rd_pc f = R_Payload hdr \<longrightarrow> header_checked hdr)"

definition calls_ok :: "client_cfg \<Rightarrow> client \<Rightarrow> bool" where
  "calls_ok cfg s \<longleftrightarrow> (\<forall>c \<in> set (calls s). call_ok cfg (map work_session (works s)) c)"

definition client_wf :: "client_cfg \<Rightarrow> client \<Rightarrow> bool" where
  "client_wf cfg s \<longleftrightarrow> book_ok cfg (rpc_slots s) (works s) \<and> calls_ok cfg s \<and> readers_ok s"

lemma call_ok_more: "call_ok cfg ss c \<Longrightarrow> call_ok cfg (ss @ ts) c"
  by (auto simp: call_ok_def nth_append split: call_pc.splits sum.splits option.splits)

lemma client_wf_cong:
  "client_wf cfg s \<Longrightarrow> rpc_slots s' = rpc_slots s \<Longrightarrow> works s' = works s \<Longrightarrow> calls s' = calls s \<Longrightarrow>
     readers s' = readers s \<Longrightarrow> client_wf cfg s'"
  by (simp add: client_wf_def calls_ok_def readers_ok_def)

lemma wf_fail:
  assumes "client_wf cfg s"
  shows "client_wf cfg (fail_outstanding_futures s)"
  using assms book_ok_break by (auto simp: client_wf_def calls_ok_def readers_ok_def)

lemma wf_call:
  assumes wf: "client_wf cfg s" and "rpc_slots s' = rpc_slots s" "works s' = works s"
    "readers s' = readers s" and cs: "calls s' = (calls s)[i := (calls s ! i)\<lparr>call_pc := p\<rparr>]"
    and ok: "call_ok cfg (map work_session (works s)) ((calls s ! i)\<lparr>call_pc := p\<rparr>)"
  shows "client_wf cfg s'"
  using wf ok set_update_subset_insert [of "calls s" i "(calls s ! i)\<lparr>call_pc := p\<rparr>"] assms(2-4)
  by (auto simp: client_wf_def calls_ok_def readers_ok_def cs)

lemma wf_readers:
  assumes wf: "client_wf cfg s" "rpc_slots s' = rpc_slots s" "works s' = works s" "calls s' = calls s"
    and rs: "readers s' = remove_nth r (readers s) \<or>
      (\<exists>f. readers s' = (readers s)[r := f] \<and> (\<forall>hdr. rd_pc f = R_Payload hdr \<longrightarrow> header_checked hdr))"
  shows "client_wf cfg s'"
proof -
  have "readers_ok s'"
    using rs
  proof
    assume "readers s' = remove_nth r (readers s)"
    then show ?thesis
      using wf(1) set_remove_nth [of _ r "readers s"] by (auto simp: client_wf_def readers_ok_def)
  next
    assume "\<exists>f. readers s' = (readers s)[r := f] \<and>
      (\<forall>hdr. rd_pc f = R_Payload hdr \<longrightarrow> header_checked hdr)"
    then obtain f where f: "readers s' = (readers s)[r := f]"
      "\<forall>hdr. rd_pc f = R_Payload hdr \<longrightarrow> header_checked hdr" by blast
    have "g = f \<or> g \<in> set (readers s)" if "g \<in> set (readers s')" for g
      using that set_update_subset_insert [of "readers s" r f] f(1) by auto
    then show ?thesis using wf(1) f(2) by (auto simp: client_wf_def readers_ok_def)
  qed
  then show ?thesis using wf by (simp add: client_wf_def calls_ok_def)
qed

lemma call_ok_done [simp]:
  "call_ok cfg ss (c\<lparr>call_pc := C_Done (Inl x)\<rparr>)"
  by (simp add: call_ok_def)

lemma wf_finish_error: "client_wf cfg s \<Longrightarrow> client_wf cfg (finish_call i (Inl x) s)"
  by (rule wf_call [where s = s and i = i and p = "C_Done (Inl x)"])
    (simp_all add: finish_call_def gate_leave_def set_call_def)

lemma wf_send:
  assumes wf: "client_wf cfg s"
  shows "client_wf cfg (client_send cfg e s)"
proof -
  have more: "call_ok cfg (map work_session (works s) @ [k]) c" if "c \<in> set (calls s)" for c k
    using wf that by (simp add: client_wf_def calls_ok_def call_ok_more)
  have new: "call_ok cfg (map work_session (works s) @ [k])
      \<lparr>call_session = k, call_pc = C_OutFilters (mutate_session k e) (length (works s))\<rparr>" for k
    by (simp add: call_ok_def nth_append)
  have fin: "call_ok cfg ss \<lparr>call_session = k, call_pc = C_Done (Inl x)\<rparr>" for ss k x
    by (simp add: call_ok_def)
  show ?thesis
    using wf more new fin
    by (auto simp: client_send_def client_wf_def calls_ok_def readers_ok_def Let_def
        intro!: book_ok_new)
qed

lemma wf_filtered:
  assumes wf: "client_wf cfg s" and i: "i < length (calls s)" "call_pc (calls s ! i) = C_OutFilters e w"
  shows "client_wf cfg (call_filtered i w r s)"
proof -
  have "call_ok cfg (map work_session (works s)) (calls s ! i)"
    using wf i(1) by (simp add: client_wf_def calls_ok_def)
  then have "call_ok cfg (map work_session (works s)) ((calls s ! i)\<lparr>call_pc := C_Wait w\<rparr>)"
    by (simp add: call_ok_def i(2))
  then show ?thesis
    using wf by (auto simp: call_filtered_def dispatch_write_def set_call_def split: sum.splits
        intro!: wf_finish_error wf_call [OF wf])
qed

lemma wf_response:
  assumes wf: "client_wf cfg s" and i: "i < length (calls s)" "call_pc (calls s ! i) = C_Wait w"
  shows "client_wf cfg (call_response i w s)"
proof -
  have c: "call_ok cfg (map work_session (works s)) (calls s ! i)"
    using wf i(1) by (simp add: client_wf_def calls_ok_def)
  then have w: "w < length (works s)" "work_session (works s ! w) = call_session (calls s ! i)"
    by (auto simp: call_ok_def i(2))
  then have ok: "work_ok cfg (works s ! w)" using wf by (simp add: client_wf_def book_ok_def)
  show ?thesis
  proof (cases "pr (works s ! w)")
    case (Fulfilled opt)
    with ok obtain ctx where ctx: "opt = Some ctx" "recv_session ctx = work_session (works s ! w)"
      "received_ok (c_xxh cfg) ctx" by (auto simp: work_ok_def split: option.splits)
    then have "call_ok cfg (map work_session (works s)) ((calls s ! i)\<lparr>call_pc := C_InFilters ctx\<rparr>)"
      using w by (simp add: call_ok_def)
    then show ?thesis
      by (auto simp: call_response_def Fulfilled ctx(1) set_call_def intro!: wf_call [OF wf])
  qed (simp_all add: call_response_def wf wf_finish_error)
qed

lemma wf_incoming:
  assumes wf: "client_wf cfg s" and i: "i < length (calls s)" "call_pc (calls s ! i) = C_InFilters ctx"
  shows "client_wf cfg (call_incoming i (client_apply_incoming_filters cfg ctx) s)"
proof -
  let ?r = "fut_then (client_apply_incoming_filters cfg ctx) (\<lambda>ctx.
       log_throw_if (hdr_compression (ctx_header ctx) \<noteq> compression_flags_none)
         ''client is communicating with a server speaking different compression protocols: {}''
         (Inr (Some ctx)))"
  have c: "call_ok cfg (map work_session (works s)) (calls s ! i)"
    using wf i(1) by (simp add: client_wf_def calls_ok_def)
  then have "call_ok cfg (map work_session (works s)) ((calls s ! i)\<lparr>call_pc := C_Done ?r\<rparr>)"
    by (cases "client_apply_incoming_filters cfg ctx")
      (auto simp: call_ok_def i(2) log_throw_if_def)
  then show ?thesis
    by (auto simp: call_incoming_def finish_call_def gate_leave_def set_call_def
        intro!: wf_call [OF wf])
qed

text \<open>Readers.\<close>

lemma set_cconn_wf [simp]: "client_wf cfg (set_cconn i c s) = client_wf cfg s"
  by (simp add: set_cconn_def client_wf_def calls_ok_def readers_ok_def)

lemma gate_leave_wf [simp]: "client_wf cfg (gate_leave s) = client_wf cfg s"
  by (simp add: gate_leave_def client_wf_def calls_ok_def readers_ok_def)

lemma wf_remove_reader: "client_wf cfg s \<Longrightarrow> client_wf cfg (remove_reader r s)"
  by (rule wf_readers [where s = s and r = r]) (simp_all add: remove_reader_def)

lemma wf_set_reader:
  "client_wf cfg s \<Longrightarrow> (\<And>hdr. rd_pc f = R_Payload hdr \<Longrightarrow> header_checked hdr) \<Longrightarrow>
     client_wf cfg (set_reader r f s)"
  by (rule wf_readers [where s = s and r = r]) (auto simp: set_reader_def)

lemma wf_read_next: "client_wf cfg s \<Longrightarrow> client_wf cfg (read_next r s)"
  by (auto simp: read_next_def intro!: wf_remove_reader wf_set_reader)

lemma wf_read_throw: "client_wf cfg s \<Longrightarrow> client_wf cfg (read_throw r s)"
  by (simp add: read_throw_def wf_remove_reader wf_fail)

lemma wf_read_check: "client_wf cfg s \<Longrightarrow> client_wf cfg (read_check cfg r s)"
  by (auto simp: read_check_def wf_remove_reader wf_read_throw split: option.splits sum.splits
      intro!: wf_set_reader)

lemma wf_read_header: "client_wf cfg s \<Longrightarrow> client_wf cfg (read_header r rd s)"
  by (auto simp: read_header_def Let_def wf_read_throw wf_read_next wf_fail parse_header_done_def
      fut_then_eq_Inr split: sum.splits option.splits intro!: wf_set_reader check_header_checked)

lemma wf_read_payload:
  assumes wf: "client_wf cfg s" and r: "r < length (readers s)" "rd_pc (readers s ! r) = R_Payload hdr"
  shows "client_wf cfg (read_payload cfg r hdr rd s)"
proof -
  let ?c = "cc_conn (c_conns s ! rd_conn (readers s ! r))"
  have hdr: "header_checked hdr" using wf r by (auto simp: client_wf_def readers_ok_def)
  have fulfil: "client_wf cfg (s1\<lparr>read_counter := n,
      works := set_promise w (Fulfilled (Some ctx)) (works s1),
      rpc_slots := slot_erase (recv_session ctx) (rpc_slots s1)\<rparr>)"
    if "client_wf cfg s1" "map_of (rpc_slots s1) (recv_session ctx) = Some w"
      "check_payload (c_xxh cfg) (remote_address ?c) hdr bs = Some ctx" for s1 n w ctx bs
    using that book_ok_fulfil [OF _ that(2) checked_received_ok [OF hdr that(3)]]
    by (simp add: client_wf_def calls_ok_def readers_ok_def)
  show ?thesis
    using wf fulfil
    by (auto simp: read_payload_def parse_payload_done_def Let_def wf_read_throw wf_fail
        fut_then_eq_Inr split: sum.splits option.splits intro!: wf_read_next)
qed

text \<open>Writes.\<close>

lemma write_ops_book [simp]:
  "rpc_slots (write_end j s) = rpc_slots s" "works (write_end j s) = works s"
  "calls (write_end j s) = calls s" "readers (write_end j s) = readers s"
  "rpc_slots (set_write j p s) = rpc_slots s" "works (set_write j p s) = works s"
  "calls (set_write j p s) = calls s" "readers (set_write j p s) = readers s"
  "rpc_slots (take_memory n s) = rpc_slots s" "works (take_memory n s) = works s"
  "calls (take_memory n s) = calls s" "readers (take_memory n s) = readers s"
  by (simp_all add: write_end_def gate_leave_def take_memory_def set_write_def)

lemma wf_write_error: "client_wf cfg s \<Longrightarrow> client_wf cfg (client_write_error j i s)"
  by (rule client_wf_cong [OF wf_fail [of cfg "upd_cconn i (\<lambda>c. c\<lparr>cc_failed := True\<rparr>) s"]])
    (simp_all add: client_write_error_def client_wf_def calls_ok_def readers_ok_def)

lemma wf_writes:
  assumes "client_wf cfg s"
  shows "client_wf cfg (write_memory j s)" "client_wf cfg (write_header cfg j w s)"
    "client_wf cfg (write_body j i w s)" "client_wf cfg (write_flush j i w s)"
  using assms wf_write_error [OF assms]
  by (auto simp: write_memory_def write_header_def write_body_def write_flush_def
      client_write_out_def Let_def split: option.splits intro: client_wf_cong)

interpretation book: machine_invariant client_init client_step client_wf
proof
  fix cfg s
  assume "client_init cfg s"
  then show "client_wf cfg s"
    by (auto simp: client_init_def rpc_client_new_def client_wf_def book_ok_def slots_inv_def
        pending_inv_def calls_ok_def readers_ok_def)
next
  fix cfg s e t
  assume wf: "client_wf cfg s" and "client_step cfg e s = Some t"
  from this(2) show "client_wf cfg t"
  proof (cases rule: client_step_cases)
    case connect
    with wf show ?thesis by (auto simp: client_connect_def intro: client_wf_cong)
  next
    case connected
    with wf show ?thesis
      by (auto simp: client_connected_def Let_def client_wf_def calls_ok_def readers_ok_def)
  next
    case connect_failed
    with wf show ?thesis by (auto simp: client_connect_failed_def intro: client_wf_cong)
  next
    case (timed_out r)
    have "client_wf cfg (set_reader r ((readers s ! r)\<lparr>rd_attached := False\<rparr>) s)"
      using wf timed_out(1) by (intro wf_set_reader) (auto simp: client_wf_def readers_ok_def)
    with timed_out show ?thesis by (simp add: read_timeout_def wf_fail)
  next
    case stop
    then show ?thesis
      using wf_fail [OF wf] by (auto simp: client_stop_def intro: client_wf_cong)
  next
    case reconnect
    then show ?thesis
      using wf_fail [OF wf_fail [OF wf]]
      by (auto simp: client_reconnect_def client_stop_def intro: client_wf_cong)
  next
    case reopen
    with wf show ?thesis
      by (auto simp: client_reopen_def client_connect_def intro: client_wf_cong)
  qed (simp_all add: wf wf_send wf_filtered wf_response wf_incoming wf_writes wf_read_check
      wf_read_header wf_read_payload)
qed

section \<open>The gate\<close>

definition call_active :: "call \<Rightarrow> bool" where
  "call_active c = (case call_pc c of C_Done _ \<Rightarrow> False | _ \<Rightarrow> True)"

text \<open>The fibers inside \<^verbatim>\<open>dispatch_gate_\<close>: calls, writes, and readers not given up on.\<close>

definition busy :: "client \<Rightarrow> int" where
  "busy s = (\<Sum>c\<leftarrow>calls s. of_bool (call_active c)) + int (length (writes s)) +
     (\<Sum>f\<leftarrow>readers s. of_bool (rd_attached f))"

definition gate_inv :: "client_cfg \<Rightarrow> client \<Rightarrow> bool" where
  "gate_inv cfg s \<longleftrightarrow> int (dispatch_count s) = busy s \<and>
     (\<forall>f \<in> set (readers s). rd_pc f = R_Check \<longrightarrow> rd_attached f)"

lemma of_bool_sum_nonneg: "0 \<le> (\<Sum>x\<leftarrow>xs. of_bool (P x) :: int)"
  by (intro sum_list_nonneg) auto

lemma of_bool_sum_pos: "x \<in> set xs \<Longrightarrow> P x \<Longrightarrow> 1 \<le> (\<Sum>x\<leftarrow>xs. of_bool (P x) :: int)"
  using sum_list_member_le [of xs "\<lambda>x. of_bool (P x)" x] by simp

lemma busy_sums:
  "i < length (calls s) \<Longrightarrow> (\<Sum>c\<leftarrow>(calls s)[i := d]. of_bool (call_active c) :: int) =
     (\<Sum>c\<leftarrow>calls s. of_bool (call_active c)) - of_bool (call_active (calls s ! i)) +
     of_bool (call_active d)"
  "r < length (readers s) \<Longrightarrow> (\<Sum>f\<leftarrow>(readers s)[r := g]. of_bool (rd_attached f) :: int) =
     (\<Sum>f\<leftarrow>readers s. of_bool (rd_attached f)) - of_bool (rd_attached (readers s ! r)) +
     of_bool (rd_attached g)"
  "r < length (readers s) \<Longrightarrow> (\<Sum>f\<leftarrow>remove_nth r (readers s). of_bool (rd_attached f) :: int) =
     (\<Sum>f\<leftarrow>readers s. of_bool (rd_attached f)) - of_bool (rd_attached (readers s ! r))"
  by (simp_all add: map_update map_remove_nth sum_list_list_update sum_list_remove_nth)

text \<open>A fiber inside the gate makes the count positive.\<close>

lemma gate_positive:
  assumes "gate_inv cfg s"
  shows "i < length (calls s) \<Longrightarrow> call_active (calls s ! i) \<Longrightarrow> 0 < dispatch_count s"
    and "j < length (writes s) \<Longrightarrow> 0 < dispatch_count s"
    and "r < length (readers s) \<Longrightarrow> rd_attached (readers s ! r) \<Longrightarrow> 0 < dispatch_count s"
proof -
  have b: "int (dispatch_count s) = busy s" using assms by (simp add: gate_inv_def)
  have nn: "0 \<le> (\<Sum>c\<leftarrow>calls s. of_bool (call_active c) :: int)"
    "0 \<le> (\<Sum>f\<leftarrow>readers s. of_bool (rd_attached f) :: int)" by (rule of_bool_sum_nonneg)+
  show "i < length (calls s) \<Longrightarrow> call_active (calls s ! i) \<Longrightarrow> 0 < dispatch_count s"
    using b nn of_bool_sum_pos [of "calls s ! i" "calls s" call_active] by (simp add: busy_def)
  show "j < length (writes s) \<Longrightarrow> 0 < dispatch_count s"
    using b nn by (simp add: busy_def)
  show "r < length (readers s) \<Longrightarrow> rd_attached (readers s ! r) \<Longrightarrow> 0 < dispatch_count s"
    using b nn of_bool_sum_pos [of "readers s ! r" "readers s" rd_attached] by (simp add: busy_def)
qed

lemma gate_cong:
  "gate_inv cfg s \<Longrightarrow> calls s' = calls s \<Longrightarrow> length (writes s') = length (writes s) \<Longrightarrow>
     readers s' = readers s \<Longrightarrow> dispatch_count s' = dispatch_count s \<Longrightarrow> gate_inv cfg s'"
  by (simp add: gate_inv_def busy_def)

lemma gate_fail: "gate_inv cfg s \<Longrightarrow> gate_inv cfg (fail_outstanding_futures s)"
  by (erule gate_cong) simp_all

lemma gate_set_cconn: "gate_inv cfg s \<Longrightarrow> gate_inv cfg (set_cconn i c s)"
  by (erule gate_cong) (simp_all add: set_cconn_def)

lemma active_pcs [simp]:
  "call_pc c = C_OutFilters e w \<Longrightarrow> call_active c" "call_pc c = C_Wait w \<Longrightarrow> call_active c"
  "call_pc c = C_InFilters ctx \<Longrightarrow> call_active c" "call_pc c = C_Done r \<Longrightarrow> \<not> call_active c"
  by (simp_all add: call_active_def)

lemma gate_finish_call:
  assumes g: "gate_inv cfg s" and i: "i < length (calls s)" "call_active (calls s ! i)"
  shows "gate_inv cfg (finish_call i r s)"
proof -
  have "int (dispatch_count s - 1) = int (dispatch_count s) - 1"
    using gate_positive(1) [OF g i] by simp
  then show ?thesis
    using g i by (simp add: gate_inv_def busy_def finish_call_def gate_leave_def set_call_def
        busy_sums)
qed

lemma gate_set_call:
  assumes "gate_inv cfg s" "i < length (calls s)" "call_active (calls s ! i)"
    "call_active ((calls s ! i)\<lparr>call_pc := p\<rparr>)"
  shows "gate_inv cfg (set_call i p s)"
  using assms by (simp add: gate_inv_def busy_def set_call_def busy_sums)

lemma gate_calls:
  assumes g: "gate_inv cfg s" and i: "i < length (calls s)" "call_active (calls s ! i)"
  shows "gate_inv cfg (call_filtered i w re s)" "gate_inv cfg (call_response i w s)"
    "gate_inv cfg (call_incoming i rc s)"
proof -
  have "gate_inv cfg (set_call i (C_Wait w) (s\<lparr>writes := writes s @ [\<lparr>wr_env = e, wr_pc = W_WaitMem\<rparr>],
      dispatch_count := dispatch_count s + 1\<rparr>))" for e
    using g i by (simp add: gate_inv_def busy_def set_call_def busy_sums)
  then show "gate_inv cfg (call_filtered i w re s)"
    using gate_finish_call [OF g i]
    by (auto simp: call_filtered_def dispatch_write_def split: sum.splits)
  show "gate_inv cfg (call_response i w s)"
    using g gate_finish_call [OF g i] gate_set_call [OF g i]
    by (auto simp: call_response_def split: promise.splits option.splits)
  show "gate_inv cfg (call_incoming i rc s)"
    by (simp add: call_incoming_def gate_finish_call [OF g i])
qed

lemma gate_send: "gate_inv cfg s \<Longrightarrow> gate_inv cfg (client_send cfg e s)"
  by (simp add: client_send_def Let_def gate_inv_def busy_def)

lemma gate_write_end:
  assumes g: "gate_inv cfg s" and j: "j < length (writes s)"
  shows "gate_inv cfg (write_end j s)"
proof -
  have "int (dispatch_count s - 1) = int (dispatch_count s) - 1"
    "int (length (writes s) - 1) = int (length (writes s)) - 1"
    using gate_positive(2) [OF g j] j by simp_all
  then show ?thesis
    using g j by (simp add: gate_inv_def busy_def write_end_def gate_leave_def take_memory_def)
qed

lemma gate_writes:
  assumes g: "gate_inv cfg s" and j: "j < length (writes s)"
  shows "gate_inv cfg (write_memory j s)" "gate_inv cfg (write_header cfg j w s)"
    "gate_inv cfg (write_body j i w s)" "gate_inv cfg (write_flush j i w s)"
proof -
  have err: "gate_inv cfg (client_write_error j i' s)" for i'
    unfolding client_write_error_def using g j
    by (intro gate_write_end) (auto simp: gate_inv_def busy_def)
  have out: "gate_inv cfg (set_write j p (client_write_out i' bs s'))"
    if "calls s' = calls s" "writes s' = writes s" "readers s' = readers s"
      "dispatch_count s' = dispatch_count s" for p i' bs s'
    using g that by (auto simp: set_write_def client_write_out_def intro: gate_cong)
  show "gate_inv cfg (write_memory j s)"
    by (rule gate_cong [OF g]) (simp_all add: write_memory_def set_write_def take_memory_def)
  show "gate_inv cfg (write_header cfg j w s)"
    using g err out gate_write_end [OF g j]
    by (auto simp: write_header_def Let_def split: option.splits)
  show "gate_inv cfg (write_body j i w s)"
    using err out by (auto simp: write_body_def split: option.splits)
  show "gate_inv cfg (write_flush j i w s)"
    using err j gate_cong [OF g, of "s\<lparr>c_writing := False\<rparr>"]
    by (auto simp: write_flush_def split: option.splits intro!: gate_write_end)
qed

text \<open>Readers: an attached one is inside the gate.\<close>

lemma gate_read_next:
  assumes g: "gate_inv cfg s" and r: "r < length (readers s)"
  shows "gate_inv cfg (read_next r s)"
  using g r set_update_subset_insert [of "readers s" r "(readers s ! r)\<lparr>rd_pc := R_Check\<rparr>"]
  by (auto simp: gate_inv_def busy_def read_next_def set_reader_def remove_reader_def busy_sums
      dest: set_remove_nth)

lemma gate_remove_reader:
  assumes g: "gate_inv cfg s" and r: "r < length (readers s)" "rd_attached (readers s ! r)"
  shows "gate_inv cfg (gate_leave (remove_reader r s))"
proof -
  have "int (dispatch_count s - 1) = int (dispatch_count s) - 1"
    using gate_positive(3) [OF g r] by simp
  then show ?thesis
    using g r by (auto simp: gate_inv_def busy_def gate_leave_def remove_reader_def busy_sums
        dest: set_remove_nth)
qed

lemma gate_read_throw:
  assumes g: "gate_inv cfg s" and r: "r < length (readers s)"
  shows "gate_inv cfg (read_throw r s)"
proof (cases "rd_attached (readers s ! r)")
  case True
  then show ?thesis
    using gate_cong [OF gate_remove_reader [OF g r True],
        of "gate_leave (fail_outstanding_futures (remove_reader r s))"]
    by (simp add: read_throw_def gate_leave_def)
next
  case False
  then show ?thesis
    using g r by (auto simp: read_throw_def gate_inv_def busy_def remove_reader_def busy_sums
        dest: set_remove_nth)
qed

lemma gate_read_check:
  assumes g: "gate_inv cfg s" and r: "r < length (readers s)" "rd_pc (readers s ! r) = R_Check"
  shows "gate_inv cfg (read_check cfg r s)"
proof -
  have att: "rd_attached (readers s ! r)" using g r by (auto simp: gate_inv_def)
  have "gate_inv cfg (set_reader r ((readers s ! r)\<lparr>rd_conn := i, rd_pc := R_Header\<rparr>) (set_cconn i c s))" for i c
    using g r att
      set_update_subset_insert [of "readers s" r "(readers s ! r)\<lparr>rd_conn := i, rd_pc := R_Header\<rparr>"]
    by (auto simp: gate_inv_def busy_def set_reader_def set_cconn_def busy_sums)
  then show ?thesis
    using gate_remove_reader [OF g r(1) att] gate_read_throw [OF g r(1)] g
    by (auto simp: read_check_def split: option.splits sum.splits)
qed

lemma gate_set_reader:
  assumes g: "gate_inv cfg s" and r: "r < length (readers s)"
    and f: "rd_attached f = rd_attached (readers s ! r)" "rd_pc f \<noteq> R_Check"
  shows "gate_inv cfg (set_reader r f s)"
  using g r f set_update_subset_insert [of "readers s" r f]
  by (auto simp: gate_inv_def busy_def set_reader_def busy_sums)

lemma set_cconn_readers [simp]: "readers (set_cconn i c s) = readers s"
  by (simp add: set_cconn_def)

lemma gate_read_header:
  assumes g: "gate_inv cfg s" and r: "r < length (readers s)"
  shows "gate_inv cfg (read_header r rd s)"
  using g r by (auto simp: read_header_def Let_def split: prod.splits sum.splits option.splits
      intro!: gate_read_throw gate_read_next gate_fail gate_set_cconn gate_set_reader)

lemma gate_read_payload:
  assumes g: "gate_inv cfg s" and r: "r < length (readers s)"
  shows "gate_inv cfg (read_payload cfg r hdr rd s)"
proof -
  have slots: "gate_inv cfg (t\<lparr>read_counter := n, works := ws, rpc_slots := m\<rparr>)"
    if "gate_inv cfg t" for t n ws m
    using gate_cong [OF that] by simp
  show ?thesis
    using g r by (auto simp: read_payload_def Let_def split: prod.splits sum.splits option.splits
        intro!: slots gate_read_throw gate_read_next gate_fail gate_set_cconn)
qed

lemma gate_read_timeout:
  assumes g: "gate_inv cfg s"
    and r: "r < length (readers s)" "rd_attached (readers s ! r)" "rd_pc (readers s ! r) \<noteq> R_Check"
  shows "gate_inv cfg (read_timeout r s)"
proof -
  have "int (dispatch_count s - 1) = int (dispatch_count s) - 1"
    using gate_positive(3) [OF g r(1,2)] by simp
  then show ?thesis
    using g r set_update_subset_insert [of "readers s" r "(readers s ! r)\<lparr>rd_attached := False\<rparr>"]
    by (auto simp: read_timeout_def gate_inv_def busy_def gate_leave_def set_reader_def busy_sums)
qed

interpretation gate: machine_invariant client_init client_step gate_inv
proof
  fix cfg s
  assume "client_init cfg s"
  then show "gate_inv cfg s"
    by (auto simp: client_init_def rpc_client_new_def gate_inv_def busy_def)
next
  fix cfg s e t
  assume g: "gate_inv cfg s" and "client_step cfg e s = Some t"
  from this(2) show "gate_inv cfg t"
  proof (cases rule: client_step_cases)
    case connect
    with g show ?thesis by (auto simp: client_connect_def intro: gate_cong)
  next
    case connected
    with g show ?thesis by (auto simp: client_connected_def Let_def gate_inv_def busy_def)
  next
    case connect_failed
    with g show ?thesis by (auto simp: client_connect_failed_def intro: gate_cong)
  next
    case stop
    then show ?thesis
      using gate_fail [OF g] by (auto simp: client_stop_def intro: gate_cong)
  next
    case reconnect
    then show ?thesis
      using gate_fail [OF gate_fail [OF g]]
      by (auto simp: client_reconnect_def client_stop_def intro: gate_cong)
  next
    case reopen
    with g show ?thesis by (auto simp: client_reopen_def client_connect_def intro: gate_cong)
  qed (simp_all add: g gate_send gate_calls gate_writes gate_read_check gate_read_header
      gate_read_payload gate_read_timeout)
qed

end
