(* ===== verification/Rpc_Client_Writes.thy ===== *)
theory Rpc_Client_Writes
  imports Rpc_Client_Invariants
begin

text \<open>
  The writes of the client: the memory a write takes is given back when it ends, on every path; at
  most one write is past \<^verbatim>\<open>serialize_writes_\<close>; and the stream of a connection on which no write failed
  is a sequence of whole messages, each one the result of the outgoing filters, followed by the
  header of the message being written.
\<close>

section \<open>What a write holds\<close>

definition wr_held :: "write_fiber \<Rightarrow> int" where
  "wr_held w = (case wr_pc w of W_WaitMem \<Rightarrow> 0 | _ \<Rightarrow> int (envelope_size (wr_env w)))"

definition wr_locked :: "write_fiber \<Rightarrow> bool" where
  "wr_locked w = (case wr_pc w of W_Body _ \<Rightarrow> True | W_Flush _ \<Rightarrow> True | _ \<Rightarrow> False)"

text \<open>The part of its message a write has put on connection \<open>i\<close> without having finished it.\<close>

definition wr_partial :: "nat \<Rightarrow> write_fiber \<Rightarrow> bytes" where
  "wr_partial i w = (if wr_pc w = W_Body i then header_to_bytes (env_header (wr_env w)) else [])"

abbreviation client_limit :: "client \<Rightarrow> int" where
  "client_limit s \<equiv> uint (max_memory (c_limits s))"

abbreviation client_avail :: "client \<Rightarrow> int" where
  "client_avail s \<equiv> resources_available (c_limits s)"

abbreviation client_held :: "client \<Rightarrow> int" where
  "client_held s \<equiv> (\<Sum>w\<leftarrow>writes s. wr_held w)"

definition filtered_out :: "client_cfg \<Rightarrow> rpc_envelope \<Rightarrow> bool" where
  "filtered_out cfg e \<longleftrightarrow> (\<exists>e0. client_apply_outgoing_filters cfg e0 = Inr e)"

definition stream_ok :: "client_cfg \<Rightarrow> write_fiber list \<Rightarrow> nat \<Rightarrow> bytes \<Rightarrow> bool" where
  "stream_ok cfg ws i out \<longleftrightarrow>
     (\<exists>es. (\<forall>e \<in> set es. filtered_out cfg e) \<and>
        out = concat (map envelope_wire es) @ concat (map (wr_partial i) ws))"

definition wire_ok :: "client_cfg \<Rightarrow> write_fiber list \<Rightarrow> bytes list \<Rightarrow> bool list \<Rightarrow> bool" where
  "wire_ok cfg ws outs fs \<longleftrightarrow>
     (\<forall>w \<in> set ws. filtered_out cfg (wr_env w)) \<and>
     (\<forall>i < length outs. fs ! i \<or> stream_ok cfg ws i (outs ! i))"

definition locks_ok :: "client \<Rightarrow> bool" where
  "locks_ok s \<longleftrightarrow> client_avail s + client_held s = client_limit s \<and>
     (\<Sum>w\<leftarrow>writes s. of_bool (wr_locked w)) = (of_bool (c_writing s) :: int)"

definition indices_ok :: "client \<Rightarrow> bool" where
  "indices_ok s \<longleftrightarrow> (\<forall>i. c_conn s = Some i \<longrightarrow> i < length (c_conns s)) \<and>
     (\<forall>f \<in> set (readers s). rd_conn f < length (c_conns s)) \<and>
     (\<forall>w \<in> set (writes s). \<forall>i. wr_pc w = W_Body i \<or> wr_pc w = W_Flush i \<longrightarrow> i < length (c_conns s))"

definition writes_inv :: "client_cfg \<Rightarrow> client \<Rightarrow> bool" where
  "writes_inv cfg s \<longleftrightarrow> indices_ok s \<and> locks_ok s \<and>
     wire_ok cfg (writes s) (map cc_out (c_conns s)) (map cc_failed (c_conns s))"

section \<open>Lists of writes\<close>

lemma wr_sums:
  "j < length ws \<Longrightarrow> (\<Sum>w\<leftarrow>ws[j := v]. wr_held w) = (\<Sum>w\<leftarrow>ws. wr_held w) - wr_held (ws ! j) + wr_held v"
  "j < length ws \<Longrightarrow> (\<Sum>w\<leftarrow>remove_nth j ws. wr_held w) = (\<Sum>w\<leftarrow>ws. wr_held w) - wr_held (ws ! j)"
  "j < length ws \<Longrightarrow> (\<Sum>w\<leftarrow>ws[j := v]. of_bool (wr_locked w) :: int) =
     (\<Sum>w\<leftarrow>ws. of_bool (wr_locked w)) - of_bool (wr_locked (ws ! j)) + of_bool (wr_locked v)"
  "j < length ws \<Longrightarrow> (\<Sum>w\<leftarrow>remove_nth j ws. of_bool (wr_locked w) :: int) =
     (\<Sum>w\<leftarrow>ws. of_bool (wr_locked w)) - of_bool (wr_locked (ws ! j))"
  by (simp_all add: map_update map_remove_nth sum_list_list_update sum_list_remove_nth)

lemma partial_unlocked: "\<not> wr_locked w \<Longrightarrow> wr_partial i w = []"
  by (simp add: wr_locked_def wr_partial_def split: write_pc.splits)

lemma concat_single:
  "j < length ws \<Longrightarrow> (\<And>k. k < length ws \<Longrightarrow> k \<noteq> j \<Longrightarrow> f (ws ! k) = []) \<Longrightarrow>
     concat (map f ws) = f (ws ! j)"
proof (induction ws arbitrary: j)
  case (Cons w ws)
  show ?case
  proof (cases j)
    case 0
    have "f v = []" if v: "v \<in> set ws" for v
    proof -
      obtain k where "k < length ws" "ws ! k = v" using v by (auto simp: in_set_conv_nth)
      then show ?thesis using Cons.prems(2) [of "Suc k"] 0 by simp
    qed
    then show ?thesis using 0 by simp
  next
    case (Suc j')
    have "concat (map f ws) = f (ws ! j')"
    proof (rule Cons.IH)
      show "j' < length ws" using Cons.prems(1) Suc by simp
      show "f (ws ! k) = []" if "k < length ws" "k \<noteq> j'" for k
        using Cons.prems(2) [of "Suc k"] that Suc by simp
    qed
    moreover have "f w = []" using Cons.prems(2) [of 0] Suc by simp
    ultimately show ?thesis using Suc by simp
  qed
qed simp

text \<open>With the lock, only the holder may have a message in progress.\<close>

lemma only_holder:
  assumes one: "(\<Sum>w\<leftarrow>ws. of_bool (wr_locked w) :: int) \<le> 1"
    and j: "j < length ws" "wr_locked (ws ! j)" and k: "k < length ws" "k \<noteq> j"
  shows "\<not> wr_locked (ws ! k)"
proof
  assume "wr_locked (ws ! k)"
  then have "1 \<le> (\<Sum>w\<leftarrow>ws[j := (ws ! j)\<lparr>wr_pc := W_WaitMem\<rparr>]. of_bool (wr_locked w) :: int)"
    using j k by (intro of_bool_sum_pos [of "ws ! k"]) (auto simp: set_conv_nth intro!: exI [of _ k])
  then show False using one j by (simp add: wr_sums) (simp add: wr_locked_def)
qed

lemma none_locked:
  assumes "(\<Sum>w\<leftarrow>ws. of_bool (wr_locked w) :: int) = 0" "w \<in> set ws"
  shows "\<not> wr_locked w"
  using of_bool_sum_pos [of w ws wr_locked] assms by auto

lemma partials_of_holder:
  assumes "(\<Sum>w\<leftarrow>ws. of_bool (wr_locked w) :: int) \<le> 1" "j < length ws" "wr_locked (ws ! j)"
  shows "concat (map (wr_partial i) ws) = wr_partial i (ws ! j)"
  using only_holder [OF assms] by (intro concat_single assms partial_unlocked) auto

lemma partials_none:
  "(\<Sum>w\<leftarrow>ws. of_bool (wr_locked w) :: int) = 0 \<Longrightarrow> concat (map (wr_partial i) ws) = []"
  using none_locked partial_unlocked by auto

lemma concat_remove: "f (ws ! j) = [] \<Longrightarrow> j < length ws \<Longrightarrow>
    concat (map f (remove_nth j ws)) = concat (map f ws)"
  by (subst (2) split_at [of j ws]) (simp_all add: remove_nth_def)

lemma concat_update: "f v = f (ws ! j) \<Longrightarrow> concat (map f (ws[j := v])) = concat (map f ws)"
  by (simp add: map_list_update_same)

section \<open>The wire\<close>

lemma wire_ok_mono:
  assumes "wire_ok cfg ws outs fs" "\<And>w. w \<in> set ws' \<Longrightarrow> filtered_out cfg (wr_env w)"
    and "\<And>i. i < length outs \<Longrightarrow> \<not> fs ! i \<Longrightarrow> \<not> fs' ! i \<Longrightarrow>
      concat (map (wr_partial i) ws') = concat (map (wr_partial i) ws)"
    and "\<And>i. i < length outs \<Longrightarrow> fs ! i \<Longrightarrow> fs' ! i"
  shows "wire_ok cfg ws' outs fs'"
proof -
  have "stream_ok cfg ws' i (outs ! i)" if i: "i < length outs" "\<not> fs' ! i" for i
  proof -
    have "\<not> fs ! i" using assms(4) i by blast
    then show ?thesis
      using assms(1) assms(3) [OF i(1) _ i(2)] i by (auto simp: wire_ok_def stream_ok_def)
  qed
  then show ?thesis using assms(2) by (auto simp: wire_ok_def)
qed

lemma wire_filtered:
  "wire_ok cfg ws outs fs \<Longrightarrow> w \<in> set (remove_nth j ws) \<Longrightarrow> filtered_out cfg (wr_env w)"
  by (auto simp: wire_ok_def dest: set_remove_nth)

lemma wire_filtered_upd:
  "wire_ok cfg ws outs fs \<Longrightarrow> j < length ws \<Longrightarrow> w \<in> set (ws[j := (ws ! j)\<lparr>wr_pc := p\<rparr>]) \<Longrightarrow>
     filtered_out cfg (wr_env w)"
  using set_update_subset_insert [of ws j "(ws ! j)\<lparr>wr_pc := p\<rparr>"] by (auto simp: wire_ok_def)

lemma wire_start:
  assumes ok: "wire_ok cfg ws outs fs" and j: "j < length ws"
    and none: "(\<Sum>w\<leftarrow>ws. of_bool (wr_locked w) :: int) = 0"
  shows "wire_ok cfg (ws[j := (ws ! j)\<lparr>wr_pc := W_Body i\<rparr>])
    (outs[i := outs ! i @ header_to_bytes (env_header (wr_env (ws ! j)))]) fs"
proof -
  let ?v = "(ws ! j)\<lparr>wr_pc := W_Body i\<rparr>"
  have "(\<Sum>w\<leftarrow>ws[j := ?v]. of_bool (wr_locked w) :: int) \<le> 1"
    using none j none_locked [OF none, of "ws ! j"] by (simp add: wr_sums)
  then have p: "concat (map (wr_partial k) (ws[j := ?v])) = wr_partial k ?v" for k
    using partials_of_holder [of "ws[j := ?v]" j k] j by (simp add: wr_locked_def)
  have "stream_ok cfg (ws[j := ?v]) k (outs[i := outs ! i @ header_to_bytes (env_header (wr_env (ws ! j)))] ! k)"
    if k: "k < length outs" "\<not> fs ! k" for k
  proof -
    obtain es where "\<forall>e \<in> set es. filtered_out cfg e" "outs ! k = concat (map envelope_wire es)"
      using ok k partials_none [OF none, of k] by (auto simp: wire_ok_def stream_ok_def)
    then show ?thesis
      using k p [of k] by (auto simp: stream_ok_def nth_list_update wr_partial_def)
  qed
  then show ?thesis
    using wire_filtered_upd [OF ok j] by (auto simp: wire_ok_def)
qed

lemma wire_finish:
  assumes ok: "wire_ok cfg ws outs fs" and j: "j < length ws" "wr_pc (ws ! j) = W_Body i"
    and one: "(\<Sum>w\<leftarrow>ws. of_bool (wr_locked w) :: int) \<le> 1"
  shows "wire_ok cfg (ws[j := (ws ! j)\<lparr>wr_pc := W_Flush i\<rparr>])
    (outs[i := outs ! i @ env_body (wr_env (ws ! j))]) fs"
proof -
  let ?v = "(ws ! j)\<lparr>wr_pc := W_Flush i\<rparr>"
  let ?outs = "outs[i := outs ! i @ env_body (wr_env (ws ! j))]"
  have lk: "wr_locked (ws ! j)" "wr_locked ?v" using j by (simp_all add: wr_locked_def)
  then have "(\<Sum>w\<leftarrow>ws[j := ?v]. of_bool (wr_locked w) :: int) \<le> 1"
    using one j by (simp add: wr_sums)
  then have p: "concat (map (wr_partial k) (ws[j := ?v])) = []" for k
    using partials_of_holder [of "ws[j := ?v]" j k] j lk by (simp add: wr_partial_def)
  have e: "filtered_out cfg (wr_env (ws ! j))" using ok j by (simp add: wire_ok_def)
  have "stream_ok cfg (ws[j := ?v]) k (?outs ! k)" if k: "k < length outs" "\<not> fs ! k" for k
  proof -
    obtain es where es: "\<forall>e \<in> set es. filtered_out cfg e"
      "outs ! k = concat (map envelope_wire es) @ wr_partial k (ws ! j)"
      using ok k partials_of_holder [OF one j(1) lk(1), of k]
      by (auto simp: wire_ok_def stream_ok_def)
    show ?thesis
    proof (cases "k = i")
      case True
      then have "?outs ! k = concat (map envelope_wire (es @ [wr_env (ws ! j)]))"
        using es(2) k(1) j(2) by (simp add: wr_partial_def envelope_wire_def)
      then show ?thesis
        using es(1) e p unfolding stream_ok_def
        by (intro exI [of _ "es @ [wr_env (ws ! j)]"]) auto
    next
      case False
      then show ?thesis
        using es p j(2) by (auto simp: stream_ok_def wr_partial_def)
    qed
  qed
  then show ?thesis
    using wire_filtered_upd [OF ok j(1)] by (auto simp: wire_ok_def)
qed

lemma wire_new_connection:
  assumes ok: "wire_ok cfg ws outs fs" and len: "length fs = length outs"
    and idx: "\<And>w. w \<in> set ws \<Longrightarrow> wr_pc w \<noteq> W_Body (length outs)"
  shows "wire_ok cfg ws (outs @ [[]]) (fs @ [False])"
proof -
  have "concat (map (wr_partial (length outs)) ws) = []"
    using idx by (auto simp: wr_partial_def)
  then have "stream_ok cfg ws (length outs) []"
    by (auto simp: stream_ok_def intro!: exI [of _ "[]"])
  then show ?thesis
    using ok len by (auto simp: wire_ok_def nth_append less_Suc_eq)
qed

section \<open>Operations\<close>

lemma writes_cong:
  assumes "writes_inv cfg s" "indices_ok s'" "c_limits s' = c_limits s" "writes s' = writes s"
    "c_writing s' = c_writing s" "map cc_out (c_conns s') = map cc_out (c_conns s)"
    "map cc_failed (c_conns s') = map cc_failed (c_conns s)"
  shows "writes_inv cfg s'"
  using assms by (simp add: writes_inv_def locks_ok_def)

lemma writes_frame:
  assumes "writes_inv cfg s" "c_limits s' = c_limits s" "writes s' = writes s"
    "c_writing s' = c_writing s" "map cc_out (c_conns s') = map cc_out (c_conns s)"
    "map cc_failed (c_conns s') = map cc_failed (c_conns s)"
    "length (c_conns s') = length (c_conns s)" "c_conn s' = c_conn s" "readers s' = readers s"
  shows "writes_inv cfg s'"
  using assms by (simp add: writes_inv_def locks_ok_def indices_ok_def)

lemma set_cconn_wire [simp]:
  "map cc_out (c_conns (set_cconn i c s)) = map cc_out (c_conns s)"
  "map cc_failed (c_conns (set_cconn i c s)) = map cc_failed (c_conns s)"
  "length (c_conns (set_cconn i c s)) = length (c_conns s)"
  "writes (set_cconn i c s) = writes s" "c_limits (set_cconn i c s) = c_limits s"
  "c_writing (set_cconn i c s) = c_writing s" "c_conn (set_cconn i c s) = c_conn s"
  by (simp_all add: set_cconn_def map_cconns_upd)

lemma inv_fail: "writes_inv cfg s \<Longrightarrow> writes_inv cfg (fail_outstanding_futures s)"
  by (erule writes_frame) simp_all

lemma inv_set_cconn: "writes_inv cfg s \<Longrightarrow> writes_inv cfg (set_cconn i c s)"
  by (erule writes_frame) simp_all

lemma inv_gate_leave: "writes_inv cfg s \<Longrightarrow> writes_inv cfg (gate_leave s)"
  by (erule writes_frame) (simp_all add: gate_leave_def)

lemma inv_remove_reader:
  assumes "writes_inv cfg s"
  shows "writes_inv cfg (remove_reader r s)"
proof (rule writes_cong [OF assms])
  show "indices_ok (remove_reader r s)"
    using assms by (auto simp: writes_inv_def indices_ok_def remove_reader_def dest: set_remove_nth)
qed (simp_all add: remove_reader_def)

lemma inv_set_reader:
  assumes "writes_inv cfg s" "rd_conn f < length (c_conns s)"
  shows "writes_inv cfg (set_reader r f s)"
proof (rule writes_cong [OF assms(1)])
  show "indices_ok (set_reader r f s)"
    using assms set_update_subset_insert [of "readers s" r f]
    by (auto simp: writes_inv_def indices_ok_def set_reader_def)
qed (simp_all add: set_reader_def)

lemma reader_index:
  "writes_inv cfg s \<Longrightarrow> r < length (readers s) \<Longrightarrow> rd_conn (readers s ! r) < length (c_conns s)"
  by (simp add: writes_inv_def indices_ok_def)

lemma inv_read_next: "writes_inv cfg s \<Longrightarrow> r < length (readers s) \<Longrightarrow> writes_inv cfg (read_next r s)"
  by (auto simp: read_next_def reader_index intro!: inv_remove_reader inv_set_reader)

lemma inv_read_throw: "writes_inv cfg s \<Longrightarrow> writes_inv cfg (read_throw r s)"
  by (auto simp: read_throw_def intro!: inv_gate_leave inv_fail inv_remove_reader)

lemma inv_read_check: "writes_inv cfg s \<Longrightarrow> writes_inv cfg (read_check cfg r s)"
  by (auto simp: read_check_def split: option.splits sum.splits
      intro!: inv_gate_leave inv_remove_reader inv_read_throw inv_set_reader inv_set_cconn)
    (simp add: writes_inv_def indices_ok_def)

lemma inv_read_header:
  "writes_inv cfg s \<Longrightarrow> r < length (readers s) \<Longrightarrow> writes_inv cfg (read_header r rd s)"
  by (auto simp: read_header_def Let_def reader_index split: prod.splits sum.splits option.splits
      intro!: inv_read_throw inv_read_next inv_fail inv_set_cconn inv_set_reader)

lemma inv_read_payload:
  assumes g: "writes_inv cfg s" and r: "r < length (readers s)"
  shows "writes_inv cfg (read_payload cfg r hdr rd s)"
proof -
  have slots: "writes_inv cfg (t\<lparr>read_counter := n, works := ws, rpc_slots := m\<rparr>)"
    if "writes_inv cfg t" for t n ws m
    using that by (rule writes_frame) simp_all
  show ?thesis
    using g r by (auto simp: read_payload_def Let_def split: prod.splits sum.splits option.splits
        intro!: slots inv_read_throw inv_read_next inv_fail inv_set_cconn)
qed

lemma inv_read_timeout:
  "writes_inv cfg s \<Longrightarrow> r < length (readers s) \<Longrightarrow> writes_inv cfg (read_timeout r s)"
  by (auto simp: read_timeout_def reader_index intro!: inv_gate_leave inv_fail inv_set_reader)

text \<open>Calls.\<close>

lemma inv_set_call: "writes_inv cfg s \<Longrightarrow> writes_inv cfg (set_call i p s)"
  by (erule writes_frame) (simp_all add: set_call_def)

lemma inv_send: "writes_inv cfg s \<Longrightarrow> writes_inv cfg (client_send cfg e s)"
  by (erule writes_frame) (simp_all add: client_send_def Let_def)

lemma inv_filtered:
  assumes inv: "writes_inv cfg s"
  shows "writes_inv cfg (call_filtered i w (client_apply_outgoing_filters cfg e) s)"
proof (cases "client_apply_outgoing_filters cfg e")
  case (Inl x)
  then show ?thesis
    using inv by (auto simp: call_filtered_def finish_call_def intro: inv_gate_leave inv_set_call)
next
  case (Inr e')
  let ?ws = "writes s @ [\<lparr>wr_env = e', wr_pc = W_WaitMem\<rparr>]"
  have e': "filtered_out cfg e'" using Inr by (auto simp: filtered_out_def)
  have ok: "wire_ok cfg (writes s) (map cc_out (c_conns s)) (map cc_failed (c_conns s))"
    using inv by (simp add: writes_inv_def)
  have "wire_ok cfg ?ws (map cc_out (c_conns s)) (map cc_failed (c_conns s))"
    using ok
  proof (rule wire_ok_mono)
    show "filtered_out cfg (wr_env w)" if "w \<in> set ?ws" for w
      using that e' ok by (auto simp: wire_ok_def)
  qed (simp_all add: wr_partial_def)
  then have "writes_inv cfg (s\<lparr>writes := ?ws, dispatch_count := n\<rparr>)" for n
    using inv by (auto simp: writes_inv_def indices_ok_def locks_ok_def wr_held_def wr_locked_def)
  then show ?thesis
    using inv Inr
    by (auto simp: call_filtered_def dispatch_write_def finish_call_def split: sum.splits
        intro!: inv_gate_leave inv_set_call)
qed

lemma inv_response: "writes_inv cfg s \<Longrightarrow> writes_inv cfg (call_response i w s)"
  by (auto simp: call_response_def finish_call_def split: promise.splits option.splits
      intro!: inv_gate_leave inv_set_call)

lemma inv_incoming: "writes_inv cfg s \<Longrightarrow> writes_inv cfg (call_incoming i rc s)"
  by (auto simp: call_incoming_def finish_call_def intro!: inv_gate_leave inv_set_call)

text \<open>Writes.\<close>

lemma nat_of_size [simp]: "wr_pc w \<noteq> W_WaitMem \<Longrightarrow> wr_held w = int (envelope_size (wr_env w))"
  by (simp add: wr_held_def split: write_pc.splits)

lemma unlocked_pcs [simp]:
  "wr_pc w = W_WaitMem \<Longrightarrow> \<not> wr_locked w" "wr_pc w = W_WaitLock \<Longrightarrow> \<not> wr_locked w"
  "wr_pc w = W_Body i \<Longrightarrow> wr_locked w" "wr_pc w = W_Flush i \<Longrightarrow> wr_locked w"
  "wr_pc w = W_WaitMem \<Longrightarrow> wr_held w = 0"
  by (simp_all add: wr_locked_def wr_held_def)

lemma locks_parts:
  assumes "locks_ok s"
  shows "client_avail s + client_held s = client_limit s"
    "(\<Sum>w\<leftarrow>writes s. of_bool (wr_locked w)) = (of_bool (c_writing s) :: int)"
    "(\<Sum>w\<leftarrow>writes s. of_bool (wr_locked w)) \<le> (1 :: int)"
  using assms by (simp_all add: locks_ok_def)

lemma indices_upd:
  assumes "indices_ok s" "j < length (writes s)" "length (c_conns s') = length (c_conns s)"
    "writes s' = (writes s)[j := (writes s ! j)\<lparr>wr_pc := p\<rparr>]" "c_conn s' = c_conn s"
    "readers s' = readers s" "\<And>i. p = W_Body i \<or> p = W_Flush i \<Longrightarrow> i < length (c_conns s)"
  shows "indices_ok s'"
  using assms set_update_subset_insert [of "writes s" j "(writes s ! j)\<lparr>wr_pc := p\<rparr>"]
  by (auto simp: indices_ok_def)

lemma inv_memory:
  assumes inv: "writes_inv cfg s" and j: "j < length (writes s)" "wr_pc (writes s ! j) = W_WaitMem"
  shows "writes_inv cfg (write_memory j s)"
proof -
  have idx: "indices_ok (write_memory j s)"
    using inv j by - (rule indices_upd [where s = s and j = j and p = W_WaitLock],
      simp_all add: writes_inv_def write_memory_def set_write_def take_memory_def)
  have "locks_ok s" using inv by (simp add: writes_inv_def)
  from locks_parts(1,2) [OF this] have lk: "locks_ok (write_memory j s)"
    using j by (simp add: locks_ok_def write_memory_def set_write_def take_memory_def wr_sums)
  have "wire_ok cfg ((writes s)[j := (writes s ! j)\<lparr>wr_pc := W_WaitLock\<rparr>])
      (map cc_out (c_conns s)) (map cc_failed (c_conns s))"
  proof (rule wire_ok_mono [where ws = "writes s" and fs = "map cc_failed (c_conns s)"])
    show ok: "wire_ok cfg (writes s) (map cc_out (c_conns s)) (map cc_failed (c_conns s))"
      using inv by (simp add: writes_inv_def)
    show "filtered_out cfg (wr_env w)"
      if "w \<in> set ((writes s)[j := (writes s ! j)\<lparr>wr_pc := W_WaitLock\<rparr>])" for w
      using ok j(1) that by (rule wire_filtered_upd)
  qed (use j in \<open>simp_all add: concat_update wr_partial_def\<close>)
  then show ?thesis
    using idx lk by (simp add: writes_inv_def write_memory_def set_write_def take_memory_def)
qed

text \<open>A write that ends without having a message in progress on a connection in use.\<close>

lemma inv_end:
  assumes inv: "writes_inv cfg s" and j: "j < length (writes s)" "wr_pc (writes s ! j) \<noteq> W_WaitMem"
    and s': "writes s' = writes s" "c_limits s' = c_limits s" "readers s' = readers s"
      "c_conn s' = c_conn s" "map cc_out (c_conns s') = map cc_out (c_conns s)"
      "length (c_conns s') = length (c_conns s)"
    and w: "c_writing s' = (c_writing s \<and> \<not> wr_locked (writes s ! j))"
    and fs: "\<And>i. i < length (c_conns s) \<Longrightarrow> cc_failed (c_conns s ! i) \<or> wr_pc (writes s ! j) = W_Body i \<Longrightarrow>
      cc_failed (c_conns s' ! i)"
  shows "writes_inv cfg (write_end j s')"
proof -
  have idx: "indices_ok (write_end j s')"
    using inv s' by (auto simp: writes_inv_def indices_ok_def write_end_def gate_leave_def
        take_memory_def dest: set_remove_nth)
  have one: "(\<Sum>w\<leftarrow>writes s. of_bool (wr_locked w)) = (of_bool (c_writing s) :: int)"
    using inv by (simp add: writes_inv_def locks_ok_def)
  have "wr_locked (writes s ! j) \<Longrightarrow> c_writing s"
    using one j of_bool_sum_pos [of "writes s ! j" "writes s" wr_locked] by (cases "c_writing s") auto
  then have lk: "locks_ok (write_end j s')"
    using inv j s' w by (auto simp: writes_inv_def locks_ok_def write_end_def gate_leave_def
        take_memory_def wr_sums)
  have "wire_ok cfg (remove_nth j (writes s)) (map cc_out (c_conns s)) (map cc_failed (c_conns s'))"
  proof (rule wire_ok_mono [where ws = "writes s" and fs = "map cc_failed (c_conns s)"])
    show "wire_ok cfg (writes s) (map cc_out (c_conns s)) (map cc_failed (c_conns s))"
      using inv by (simp add: writes_inv_def)
    then show "filtered_out cfg (wr_env w)" if "w \<in> set (remove_nth j (writes s))" for w
      using that by (rule wire_filtered)
    show "concat (map (wr_partial i) (remove_nth j (writes s))) = concat (map (wr_partial i) (writes s))"
      if "i < length (map cc_out (c_conns s))" "\<not> map cc_failed (c_conns s') ! i" for i
      using that fs [of i] j s'(6) by (intro concat_remove) (auto simp: wr_partial_def)
    show "map cc_failed (c_conns s') ! i"
      if "i < length (map cc_out (c_conns s))" "map cc_failed (c_conns s) ! i" for i
      using that fs [of i] s'(6) by simp
  qed
  then show ?thesis
    using idx lk s' by (simp add: writes_inv_def write_end_def gate_leave_def take_memory_def)
qed

lemma fail_nth:
  assumes "k < length (c_conns s)"
  shows "cc_failed (c_conns (fail_outstanding_futures s) ! k) = cc_failed (c_conns s ! k)"
  using fail_sel(18) [of s] assms by (metis fail_sel(16) nth_map)

lemma inv_error:
  assumes inv: "writes_inv cfg s" and j: "j < length (writes s)" "wr_pc (writes s ! j) \<noteq> W_WaitMem"
    and i: "\<And>k. wr_pc (writes s ! j) = W_Body k \<Longrightarrow> k = i"
    and lk: "c_writing s = wr_locked (writes s ! j)"
  shows "writes_inv cfg (client_write_error j i s)"
  unfolding client_write_error_def
proof (rule inv_end [OF inv j])
  let ?s1 = "fail_outstanding_futures (upd_cconn i (\<lambda>c. c\<lparr>cc_failed := True\<rparr>) s)"
  fix k assume k: "k < length (c_conns s)"
    "cc_failed (c_conns s ! k) \<or> wr_pc (writes s ! j) = W_Body k"
  then show "cc_failed (c_conns (?s1\<lparr>c_writing := False\<rparr>) ! k)"
    using i [of k] by (cases "k = i") (auto simp: fail_nth upd_cconn_def)
qed (use lk in \<open>auto simp: map_cconns_upd\<close>)

lemma failed_write_out [simp]:
  "map cc_failed (c_conns (client_write_out i bs s)) = map cc_failed (c_conns s)"
  by (simp add: client_write_out_def map_cconns_upd)

lemma map_write_out [simp]:
  "map cc_out (c_conns (client_write_out i bs s)) =
     (map cc_out (c_conns s))[i := map cc_out (c_conns s) ! i @ bs]"
  by (cases "i < length (c_conns s)")
    (simp_all add: client_write_out_def upd_cconn_def map_update list_update_beyond)

lemma client_write_out_sel [simp]:
  "c_limits (client_write_out i bs s) = c_limits s" "c_conn (client_write_out i bs s) = c_conn s"
  "writes (client_write_out i bs s) = writes s" "readers (client_write_out i bs s) = readers s"
  "c_writing (client_write_out i bs s) = c_writing s"
  "length (c_conns (client_write_out i bs s)) = length (c_conns s)"
  by (simp_all add: client_write_out_def)

lemma inv_header:
  assumes inv: "writes_inv cfg s" and j: "j < length (writes s)" "wr_pc (writes s ! j) = W_WaitLock"
    and c: "\<not> c_writing s" "c_conn s = Some i"
  shows "writes_inv cfg (write_header cfg j w s)"
proof -
  let ?t = "set_write j (W_Body i) (client_write_out i
      (header_to_bytes (env_header (wr_env (writes s ! j)))) (s\<lparr>c_writing := True\<rparr>))"
  have i: "i < length (c_conns s)" and lk: "locks_ok s"
    and ok: "wire_ok cfg (writes s) (map cc_out (c_conns s)) (map cc_failed (c_conns s))"
    using inv c by (simp_all add: writes_inv_def indices_ok_def)
  have "indices_ok ?t"
    using inv j i by - (rule indices_upd [where s = s and j = j and p = "W_Body i"],
      simp_all add: writes_inv_def set_write_def)
  moreover have "locks_ok ?t"
    using locks_parts(1,2) [OF lk] j c by (simp add: locks_ok_def set_write_def wr_sums)
  ultimately have "writes_inv cfg ?t"
    using wire_start [OF ok j(1), of i] locks_parts(2) [OF lk] c i
    by (simp add: writes_inv_def set_write_def)
  moreover have "writes_inv cfg (write_end j s)" "writes_inv cfg (client_write_error j i s)"
    using inv j c by (auto intro!: inv_error inv_end [OF inv])
  ultimately show ?thesis by (simp add: write_header_def c Let_def split: option.splits)
qed

lemma locked_writing:
  assumes "writes_inv cfg s" "j < length (writes s)" "wr_locked (writes s ! j)"
  shows "c_writing s"
  using assms of_bool_sum_pos [of "writes s ! j" "writes s" wr_locked]
  by (cases "c_writing s") (auto simp: writes_inv_def locks_ok_def)

lemma inv_body:
  assumes inv: "writes_inv cfg s" and j: "j < length (writes s)" "wr_pc (writes s ! j) = W_Body i"
  shows "writes_inv cfg (write_body j i w s)"
proof -
  let ?t = "set_write j (W_Flush i) (client_write_out i (env_body (wr_env (writes s ! j))) s)"
  have i: "i < length (c_conns s)" and lk: "locks_ok s"
    and ok: "wire_ok cfg (writes s) (map cc_out (c_conns s)) (map cc_failed (c_conns s))"
    using inv j by (auto simp: writes_inv_def indices_ok_def)
  have "indices_ok ?t"
    using inv j i by - (rule indices_upd [where s = s and j = j and p = "W_Flush i"],
      simp_all add: writes_inv_def set_write_def)
  moreover have "locks_ok ?t"
    using locks_parts(1,2) [OF lk] j by (simp add: locks_ok_def set_write_def wr_sums)
  ultimately have "writes_inv cfg ?t"
    using wire_finish [OF ok j locks_parts(3) [OF lk]] i
    by (simp add: writes_inv_def set_write_def)
  moreover have "writes_inv cfg (client_write_error j i s)"
    using inv j locked_writing [OF inv j(1)] by (intro inv_error) simp_all
  ultimately show ?thesis by (simp add: write_body_def split: option.splits)
qed

lemma inv_flush:
  assumes inv: "writes_inv cfg s" and j: "j < length (writes s)" "wr_pc (writes s ! j) = W_Flush i"
  shows "writes_inv cfg (write_flush j i w s)"
proof -
  have "writes_inv cfg (client_write_error j i s)"
    using inv j locked_writing [OF inv j(1)] by (intro inv_error) simp_all
  moreover have "writes_inv cfg (write_end j (s\<lparr>c_writing := False\<rparr>))"
    using j by (intro inv_end [OF inv]) simp_all
  ultimately show ?thesis by (simp add: write_flush_def split: option.splits)
qed

lemma inv_connected:
  assumes inv: "writes_inv cfg s"
  shows "writes_inv cfg (client_connected s)"
proof -
  have "wr_pc w \<noteq> W_Body (length (c_conns s))" if "w \<in> set (writes s)" for w
    using inv that by (auto simp: writes_inv_def indices_ok_def)
  then have "wire_ok cfg (writes s) (map cc_out (c_conns s) @ [[]]) (map cc_failed (c_conns s) @ [False])"
    using inv by (intro wire_new_connection) (simp_all add: writes_inv_def)
  moreover have "indices_ok (client_connected s)"
    using inv by (auto simp: writes_inv_def indices_ok_def client_connected_def Let_def
        intro: less_SucI)
  ultimately show ?thesis
    using inv by (auto simp: writes_inv_def locks_ok_def client_connected_def Let_def)
qed

interpretation wire: machine_invariant client_init client_step writes_inv
proof
  fix cfg s
  assume "client_init cfg s"
  then show "writes_inv cfg s"
    by (auto simp: client_init_def rpc_client_new_def writes_inv_def indices_ok_def locks_ok_def
        wire_ok_def rpc_connection_limits_new_def)
next
  fix cfg s e t
  assume inv: "writes_inv cfg s" and "client_step cfg e s = Some t"
  from this(2) show "writes_inv cfg t"
  proof (cases rule: client_step_cases)
    case connect
    with inv show ?thesis by (auto simp: client_connect_def intro: writes_frame)
  next
    case connect_failed
    with inv show ?thesis by (auto simp: client_connect_failed_def intro: writes_frame)
  next
    case stop
    then show ?thesis
      using inv_fail [OF inv] by (auto simp: client_stop_def intro: writes_frame)
  next
    case reconnect
    then show ?thesis
      using inv_fail [OF inv_fail [OF inv]]
      by (auto simp: client_reconnect_def client_stop_def intro: writes_frame)
  next
    case reopen
    with inv show ?thesis
      by (auto simp: client_reopen_def client_connect_def indices_ok_def writes_inv_def locks_ok_def)
  qed (simp_all add: inv inv_connected inv_send inv_filtered inv_response inv_incoming inv_memory
      inv_header inv_body inv_flush inv_read_check inv_read_header inv_read_payload
      inv_read_timeout)
qed

end
