(* ===== verification/Rpc_Client_Properties.thy ===== *)
theory Rpc_Client_Properties
  imports Rpc_Client_Writes
begin

text \<open>
  The properties of the client, over its reachable states and its runs, with runs of a small
  configuration as their instances.
\<close>

section \<open>Runs\<close>

definition connect_events :: "client_event list" where
  "connect_events = [Connect_call, Connected]"

definition send_events :: "rpc_envelope \<Rightarrow> client_event list" where
  "send_events e =
     [Send e, Call_filters_out 0, Write_memory 0, Write_header 0 None, Write_body 0 None,
      Write_flush 0 None, Read_check 0]"

definition receive_events :: "header \<Rightarrow> bytes \<Rightarrow> client_event list" where
  "receive_events h b =
     [Read_header 0 (Inr (header_to_bytes h)), Read_payload 0 (Inr b), Call_response 0,
      Call_filters_in 0]"

definition sample_client :: "bool \<Rightarrow> client_cfg" where
  "sample_client dbg = \<lparr>c_debug = dbg, c_xxh = sample_xxh, c_in_filters = [], c_out_filters = []\<rparr>"

definition sample_opts :: rpc_client_opts where
  "sample_opts = (rpc_client_opts_new ''server'')\<lparr>opt_credentials := True\<rparr>"

lemmas client_run_defs = client_connect_def client_connected_def client_connect_failed_def
  client_send_def call_step_def write_step_def read_step_def fut_state_def fits_def
  call_filtered_def dispatch_write_def call_response_def call_incoming_def finish_call_def
  set_call_def gate_leave_def write_memory_def take_memory_def set_write_def write_header_def
  write_body_def write_flush_def write_end_def client_write_out_def client_write_error_def
  read_check_def read_next_def read_throw_def read_header_def read_payload_def read_timeout_def
  set_reader_def remove_reader_def remove_nth_def upd_cconn_def set_cconn_def is_conn_valid_def
  slot_insert_def slot_erase_def set_promise_def client_stop_def client_stopped_def
  client_reconnect_def client_reopen_def fail_outstanding_futures_def disable_conn_def
  rpc_client_new_def rpc_connection_limits_new_def rpc_connection_new_def log_throw_if_def
  dlog_throw_if_def is_valid_def has_error_def disable_def shutdown_input_def shutdown_output_def
  set_error_def parse_header_start_def parse_header_done_def parse_payload_done_def note_read_def

lemmas sample_client_defs = sample_client_def sample_opts_def rpc_client_opts_new_def sample_defs
  client_apply_outgoing_filters_def client_apply_incoming_filters_def

lemma client_reachable:
  "run (client_step cfg) es (rpc_client_new opts) = Some s \<Longrightarrow>
     reachable (client_init cfg) (client_step cfg) s"
  using run_reachable [OF start] by (metis client_init_def)

section \<open>Calls\<close>

text \<open>The run of a call, all the way.\<close>

lemma call_run:
  assumes "client_apply_outgoing_filters cfg (mutate_session 1 e) = Inr e'"
    and "hdr_size (env_header e') \<noteq> 0" and "hdr_checksum (env_header e') \<noteq> 0"
    and "int (envelope_size e') \<le> uint (opt_memory_avail_for_client opts)"
    and "acceptable (c_xxh cfg) h b" and "hdr_session h = 1"
    and "client_apply_incoming_filters cfg (received_ctx ''0.0.0.0'' h b) = Inr ctx"
    and "hdr_compression (ctx_header ctx) = compression_flags_none"
  shows "\<exists>s t. run (client_step cfg) (connect_events @ send_events e) (rpc_client_new opts) = Some s \<and>
    cc_out (c_conns s ! 0) = envelope_wire e' \<and>
    run (client_step cfg) (receive_events h b) s = Some t \<and>
    call_pc (calls t ! 0) = C_Done (Inr (Some ctx)) \<and> rpc_slots t = [] \<and>
    client_avail t = client_limit t \<and> dispatch_count t = 1"
proof -
  have hdr: "check_header (header_to_bytes h) = Some (received_header h)"
    using assms(5) header_describes_size [of "c_xxh cfg" h b]
    by (auto simp: check_header_Some acceptable_def)
  have pay: "check_payload (c_xxh cfg) ''0.0.0.0'' (received_header h) b = Some (received_ctx ''0.0.0.0'' h b)"
    using assms(5) by (simp add: check_payload_Some acceptable_def received_ctx_def)
  have sz: "unat (hdr_size h) = length b" using length_acceptable [OF assms(5)] .
  have ses: "recv_session (received_ctx ''0.0.0.0'' h b) = 1"
    using assms(6) by (simp add: recv_session_def received_ctx_def received_header_def)
  show ?thesis
    using assms(1-4,7-8)
    by (simp add: connect_events_def send_events_def receive_events_def client_run_defs hdr pay sz ses
        envelope_wire_def Let_def del: of_nat_unat)
qed

text \<open>
  C7. A call is answered: on a fresh client, for every envelope the outgoing filters accept and whose
  size fits the client's memory, connecting, sending and writing are all enabled and put exactly the
  bytes of the filtered message on the wire, with session 1; and when a message with that session
  arrives that the receiver and the incoming filters accept, the call returns it, no slot is left,
  all memory is available again and only the reader is in the gate.
\<close>

theorem call_is_answered:
  assumes "client_apply_outgoing_filters cfg (mutate_session 1 e) = Inr e'"
    and "hdr_size (env_header e') \<noteq> 0" and "hdr_checksum (env_header e') \<noteq> 0"
    and "int (envelope_size e') \<le> uint (opt_memory_avail_for_client opts)"
    and "acceptable (c_xxh cfg) h b" and "hdr_session h = 1"
    and "client_apply_incoming_filters cfg (received_ctx ''0.0.0.0'' h b) = Inr ctx"
    and "hdr_compression (ctx_header ctx) = compression_flags_none"
  shows "\<exists>s t. run (client_step cfg) (connect_events @ send_events e) (rpc_client_new opts) = Some s \<and>
    cc_out (c_conns s ! 0) = envelope_wire e' \<and>
    run (client_step cfg) (receive_events h b) s = Some t \<and>
    call_pc (calls t ! 0) = C_Done (Inr (Some ctx)) \<and> rpc_slots t = [] \<and>
    client_avail t = client_limit t \<and> dispatch_count t = 1"
  using assms by (rule call_run)

lemma sample_reply_acceptable:
  "acceptable_envelope sample_xxh (sample_envelope 1 200 [5, 6])"
  by (simp add: sample_defs acceptable_def header_describes_def)

theorem call_is_answered_witness:
  "\<exists>s t. run (client_step (sample_client True)) (connect_events @ send_events (sample_envelope 0 3 [5, 6]))
      (rpc_client_new sample_opts) = Some s \<and>
    cc_out (c_conns s ! 0) = envelope_wire (sample_envelope 1 3 [5, 6]) \<and>
    run (client_step (sample_client True))
      (receive_events (env_header (sample_envelope 1 200 [5, 6])) [5, 6]) s = Some t \<and>
    call_pc (calls t ! 0) = C_Done (Inr (Some (arrives ''0.0.0.0'' (sample_envelope 1 200 [5, 6])))) \<and>
    rpc_slots t = [] \<and> client_avail t = client_limit t \<and> dispatch_count t = 1"
proof (rule call_is_answered)
  show "acceptable (c_xxh (sample_client True)) (env_header (sample_envelope 1 200 [5, 6])) [5, 6]"
    using sample_reply_acceptable by (simp add: sample_client_def sample_envelope_def env_body_def)
qed (simp_all add: sample_client_defs envelope_size_env arrives_def received_ctx_def
    received_header_def compression_flags_defs mutate_session_def env_with_def kHeaderSize_def)

text \<open>
  C8. A call only ever returns its own response. In every reachable state, a call that returned a
  context got it by running the incoming filters over a message that the receiver accepted, whose
  session is the session of the call; and the result is not compressed. No call returns an empty
  result.
\<close>

theorem response_matches_call:
  assumes "reachable (client_init cfg) (client_step cfg) s" and "c \<in> set (calls s)"
    and "call_pc c = C_Done (Inr r)"
  shows "\<exists>ctx ctx0. r = Some ctx \<and> received_ok (c_xxh cfg) ctx0 \<and> recv_session ctx0 = call_session c \<and>
    client_apply_incoming_filters cfg ctx0 = Inr ctx \<and>
    hdr_compression (ctx_header ctx) = compression_flags_none"
proof -
  have "call_ok cfg (map work_session (works s)) c"
    using book.inv_reachable [OF assms(1)] assms(2) by (simp add: client_wf_def calls_ok_def)
  then show ?thesis
    using assms(3) by (cases r) (auto simp: call_ok_def)
qed

definition answered_client :: client where
  "answered_client = the (run (client_step (sample_client True))
     (connect_events @ send_events (sample_envelope 0 3 [5, 6]) @
      receive_events (env_header (sample_envelope 1 200 [5, 6])) [5, 6]) (rpc_client_new sample_opts))"

lemmas answered_run_defs = connect_events_def send_events_def receive_events_def client_run_defs
  sample_client_defs check_header_def check_payload_def header_round_trip envelope_size_env
  mutate_session_def env_with_def kHeaderSize_def recv_session_def Let_def
  compression_flags_defs max_flatbuffers_size_def header_bit_flags_has_payload_headers_def

lemma answered_client_run:
  "run (client_step (sample_client True))
     (connect_events @ send_events (sample_envelope 0 3 [5, 6]) @
      receive_events (env_header (sample_envelope 1 200 [5, 6])) [5, 6]) (rpc_client_new sample_opts) =
   Some answered_client"
  "calls answered_client =
     [\<lparr>call_session = 1, call_pc = C_Done (Inr (Some (arrives ''0.0.0.0'' (sample_envelope 1 200 [5, 6]))))\<rparr>]"
  "writes answered_client = []" "client_limit answered_client = 1073741824"
  "cc_out (c_conns answered_client ! 0) = envelope_wire (sample_envelope 1 3 [5, 6])"
  "\<not> cc_failed (c_conns answered_client ! 0)" "length (c_conns answered_client) = 1"
  by (simp_all add: answered_client_def answered_run_defs arrives_def received_ctx_def
      received_header_def envelope_wire_def)

lemmas answered_client_reachable = client_reachable [OF answered_client_run(1)]

theorem response_matches_call_witness:
  "\<exists>ctx ctx0. Some (arrives ''0.0.0.0'' (sample_envelope 1 200 [5, 6])) = Some ctx \<and>
    received_ok (c_xxh (sample_client True)) ctx0 \<and> recv_session ctx0 = 1 \<and>
    client_apply_incoming_filters (sample_client True) ctx0 = Inr ctx \<and>
    hdr_compression (ctx_header ctx) = compression_flags_none"
  using response_matches_call [OF answered_client_reachable, of "calls answered_client ! 0"
      "Some (arrives ''0.0.0.0'' (sample_envelope 1 200 [5, 6]))"]
  by (simp add: answered_client_run)

text \<open>
  C10. The client's memory is conserved: in every reachable state, on every path a write can take
  (assertions, write errors, reconnects), what the semaphore has left and the sizes of the messages
  that were granted memory add up to the limit; with no write in flight, all of it is available.
\<close>

theorem client_memory_conserved:
  assumes "reachable (client_init cfg) (client_step cfg) s"
  shows "client_avail s + client_held s = client_limit s \<and>
    (writes s = [] \<longrightarrow> client_avail s = client_limit s)"
  using wire.inv_reachable [OF assms] by (auto simp: writes_inv_def locks_ok_def)

theorem client_memory_conserved_witness:
  "client_avail answered_client = 1073741824"
  using client_memory_conserved [OF answered_client_reachable] by (simp add: answered_client_run)

text \<open>
  C9. Requests never mix on the wire. In every reachable state, what the client has written to a
  connection on which no write failed is a sequence of whole messages, each of them a result of the
  outgoing filters, followed at most by the header of the one message being written there.
\<close>

theorem requests_never_mix:
  assumes "reachable (client_init cfg) (client_step cfg) s" and "i < length (c_conns s)"
    and "\<not> cc_failed (c_conns s ! i)"
  shows "\<exists>es part. (\<forall>e \<in> set es. filtered_out cfg e) \<and>
    cc_out (c_conns s ! i) = concat (map envelope_wire es) @ part \<and>
    (part = [] \<or> (\<exists>w \<in> set (writes s). wr_pc w = W_Body i \<and> filtered_out cfg (wr_env w) \<and>
      part = header_to_bytes (env_header (wr_env w))))"
proof -
  note inv = wire.inv_reachable [OF assms(1)]
  then have lk: "locks_ok s"
    and ok: "wire_ok cfg (writes s) (map cc_out (c_conns s)) (map cc_failed (c_conns s))"
    by (simp_all add: writes_inv_def)
  obtain es where es: "\<forall>e \<in> set es. filtered_out cfg e"
    "cc_out (c_conns s ! i) = concat (map envelope_wire es) @ concat (map (wr_partial i) (writes s))"
    using ok assms(2,3) by (auto simp: wire_ok_def stream_ok_def)
  have "concat (map (wr_partial i) (writes s)) = [] \<or> (\<exists>w \<in> set (writes s). wr_pc w = W_Body i \<and>
      filtered_out cfg (wr_env w) \<and>
      concat (map (wr_partial i) (writes s)) = header_to_bytes (env_header (wr_env w)))"
  proof (cases "\<exists>w \<in> set (writes s). wr_pc w = W_Body i")
    case True
    then obtain j where j: "j < length (writes s)" "wr_pc (writes s ! j) = W_Body i"
      by (auto simp: in_set_conv_nth)
    then have "concat (map (wr_partial i) (writes s)) = wr_partial i (writes s ! j)"
      by (intro partials_of_holder locks_parts(3) [OF lk]) simp_all
    then show ?thesis
      using j ok by (auto simp: wr_partial_def wire_ok_def intro!: bexI [of _ "writes s ! j"])
  qed (auto simp: wr_partial_def)
  with es show ?thesis by blast
qed

theorem requests_never_mix_witness:
  "\<exists>es part. (\<forall>e \<in> set es. filtered_out (sample_client True) e) \<and>
    envelope_wire (sample_envelope 1 3 [5, 6]) = concat (map envelope_wire es) @ part \<and>
    (part = [] \<or> (\<exists>w \<in> set (writes answered_client). wr_pc w = W_Body 0 \<and>
      filtered_out (sample_client True) (wr_env w) \<and> part = header_to_bytes (env_header (wr_env w))))"
  using requests_never_mix [OF answered_client_reachable, of 0] by (simp add: answered_client_run)

section \<open>Failures\<close>

text \<open>
  C30. A failed connection wakes every call. In a debug build, from every reachable state,
  \<^verbatim>\<open>fail_outstanding_futures\<close> leaves a client with no valid connection and no slot, in which no
  promise is pending, so that every call that has not returned yet can go on.
\<close>

theorem failure_wakes_every_call:
  assumes "reachable (client_init cfg) (client_step cfg) s" and "c_debug cfg"
  shows "\<not> is_conn_valid (fail_outstanding_futures s) \<and> rpc_slots (fail_outstanding_futures s) = [] \<and>
    (\<forall>i < length (calls s). call_active (calls s ! i) \<longrightarrow>
      (\<exists>ev \<in> {Call_filters_out i, Call_response i, Call_filters_in i}.
        client_step cfg ev (fail_outstanding_futures s) \<noteq> None))"
proof -
  let ?t = "fail_outstanding_futures s"
  note wf = wf_fail [OF book.inv_reachable [OF assms(1)]]
  then have none: "pr (works ?t ! w) \<noteq> Pending" if "w < length (works ?t)" for w
    using that assms(2) by (auto simp: client_wf_def book_ok_def pending_inv_def)
  have "\<exists>ev \<in> {Call_filters_out i, Call_response i, Call_filters_in i}. client_step cfg ev ?t \<noteq> None"
    if i: "i < length (calls s)" "call_active (calls s ! i)" for i
  proof (cases "call_pc (calls s ! i)")
    case (C_Wait w)
    have "call_ok cfg (map work_session (works ?t)) (calls s ! i)"
      using wf i(1) by (auto simp: client_wf_def calls_ok_def)
    then have "w < length (works ?t)" by (simp add: call_ok_def C_Wait)
    then show ?thesis using none i(1) C_Wait by (auto simp: call_step_def)
  qed (use i in \<open>auto simp: call_step_def\<close>)
  moreover have "\<not> is_conn_valid ?t"
    using wire.inv_reachable [OF assms(1)] fail_not_valid [of s]
    by (cases "c_conn s") (auto simp: writes_inv_def indices_ok_def is_conn_valid_def)
  ultimately show ?thesis by simp
qed

definition waiting_client :: client where
  "waiting_client = the (run (client_step (sample_client True))
     (connect_events @ send_events (sample_envelope 0 3 [5, 6])) (rpc_client_new sample_opts))"

lemma waiting_client_run:
  "run (client_step (sample_client True))
     (connect_events @ send_events (sample_envelope 0 3 [5, 6])) (rpc_client_new sample_opts) =
   Some waiting_client"
  "calls waiting_client = [\<lparr>call_session = 1, call_pc = C_Wait 0\<rparr>]"
  "works waiting_client = [\<lparr>work_session = 1, pr = Pending\<rparr>]" "rpc_slots waiting_client = [(1, 0)]"
  "c_conn waiting_client = Some 0" "readers waiting_client = [\<lparr>rd_conn = 0, rd_attached = True, rd_pc = R_Header\<rparr>]"
  "length (c_conns waiting_client) = 1" "read_counter waiting_client = 1"
  by (simp_all add: waiting_client_def answered_run_defs)

lemmas waiting_client_reachable = client_reachable [OF waiting_client_run(1)]

theorem failure_wakes_every_call_witness:
  "\<not> is_conn_valid (fail_outstanding_futures waiting_client) \<and>
    (\<exists>ev \<in> {Call_filters_out 0, Call_response 0, Call_filters_in 0}.
      client_step (sample_client True) ev (fail_outstanding_futures waiting_client) \<noteq> None)"
proof -
  have "c_debug (sample_client True)" by (simp add: sample_client_def)
  from failure_wakes_every_call [OF waiting_client_reachable this] show ?thesis
    by (simp add: waiting_client_run)
qed

lemma read_next_sel [simp]:
  "works (read_next r s) = works s" "rpc_slots (read_next r s) = rpc_slots s"
  "calls (read_next r s) = calls s" "c_conns (read_next r s) = c_conns s"
  by (simp_all add: read_next_def set_reader_def remove_reader_def)

lemma fail_keeps_error:
  assumes "i < length (c_conns s)"
  shows "has_error (cc_conn (c_conns (fail_outstanding_futures s) ! i)) = has_error (cc_conn (c_conns s ! i))"
  using assms by (cases "c_conn s = Some i")
    (auto simp: fail_outstanding_futures_def disable_conn_def set_cconn_def upd_cconn_def Let_def
      split: option.splits)

text \<open>
  A response nobody asked for fails the client: when a message that the receiver accepts carries
  a session with no slot, every outstanding promise is broken, the book of slots is empty, the
  connection gets an error, and nothing is delivered to any call.
\<close>

theorem unknown_session_fails_all:
  assumes "reachable (client_init cfg) (client_step cfg) s" and "r < length (readers s)"
    and "rd_conn (readers s ! r) = i"
    and "check_payload (c_xxh cfg) (remote_address (cc_conn (c_conns s ! i))) hdr b = Some ctx"
    and "map_of (rpc_slots s) (recv_session ctx) = None" and "read_counter s \<noteq> 0"
  shows "rpc_slots (read_payload cfg r hdr (Inr b) s) = [] \<and>
    (\<forall>k w. (k, w) \<in> set (rpc_slots s) \<longrightarrow>
      pr (works (read_payload cfg r hdr (Inr b) s) ! w) = Broken Remote_connection_error) \<and>
    calls (read_payload cfg r hdr (Inr b) s) = calls s \<and>
    has_error (cc_conn (c_conns (read_payload cfg r hdr (Inr b) s) ! i))"
proof -
  have i: "i < length (c_conns s)"
    using reader_index [OF wire.inv_reachable [OF assms(1)] assms(2)] assms(3) by simp
  have slots: "slots_inv (rpc_slots s) (works s)"
    using book.inv_reachable [OF assms(1)] by (simp add: client_wf_def book_ok_def)
  let ?c = "note_read (unat (hdr_size hdr)) (Inr b) (cc_conn (c_conns s ! i))"
  let ?s1 = "set_cconn i (set_error ''Invalid session'' ?c) (set_cconn i ?c s)"
  have t: "read_payload cfg r hdr (Inr b) s = read_next r (fail_outstanding_futures ?s1)"
    using assms(3-6) by (simp add: read_payload_def parse_payload_done_def set_cconn_def Let_def)
  have "w < length (works s)" if "(k, w) \<in> set (rpc_slots s)" for k w
    using slots that by (auto simp: slots_inv_def)
  then have "pr (break_slots (rpc_slots s) (works s) ! w) = Broken Remote_connection_error"
    if "(k, w) \<in> set (rpc_slots s)" for k w
    using that by (subst break_slots_nth) force+
  moreover have "has_error (cc_conn (c_conns ?s1 ! i))"
    using i by (simp add: set_cconn_def upd_cconn_def)
  ultimately show ?thesis
    using i unfolding t by (auto simp: fail_keeps_error set_cconn_def)
qed

theorem unknown_session_fails_all_witness:
  "pr (works (read_payload (sample_client True) 0 (env_header (sample_envelope 9 200 [5, 6]))
      (Inr [5, 6]) waiting_client) ! 0) = Broken Remote_connection_error"
proof -
  have "check_payload (c_xxh (sample_client True)) (remote_address (cc_conn (c_conns waiting_client ! 0)))
      (env_header (sample_envelope 9 200 [5, 6])) [5, 6] =
    Some (arrives (remote_address (cc_conn (c_conns waiting_client ! 0))) (sample_envelope 9 200 [5, 6]))"
    by (simp add: answered_run_defs arrives_def received_ctx_def received_header_def)
  from unknown_session_fails_all [OF waiting_client_reachable _ _ this] show ?thesis
    by (simp add: waiting_client_run arrives_def received_ctx_def received_header_def recv_session_def
        sample_defs)
qed

text \<open>
  C29. Stopping waits for everything: when the future of \<^verbatim>\<open>stop\<close> has completed, every call has
  returned, no write is in progress, and no reader is attached.
\<close>

theorem client_stop_waits:
  assumes "reachable (client_init cfg) (client_step cfg) s" and "client_stopped s"
  shows "(\<forall>c \<in> set (calls s). \<exists>r. call_pc c = C_Done r) \<and> writes s = [] \<and>
    (\<forall>f \<in> set (readers s). \<not> rd_attached f)"
proof -
  note g = gate.inv_reachable [OF assms(1)]
  have "dispatch_count s = 0" using assms(2) by (simp add: client_stopped_def)
  then have "\<not> call_active c" if "c \<in> set (calls s)" for c
    using gate_positive(1) [OF g] that by (auto simp: in_set_conv_nth)
  moreover have "writes s = []"
    using gate_positive(2) [OF g, of 0] \<open>dispatch_count s = 0\<close> by auto
  moreover have "\<not> rd_attached f" if "f \<in> set (readers s)" for f
    using gate_positive(3) [OF g] that \<open>dispatch_count s = 0\<close> by (auto simp: in_set_conv_nth)
  ultimately show ?thesis
    by (metis active_pcs(1,2,3) call_pc.exhaust)
qed

definition stopped_client :: client where
  "stopped_client = the (run (client_step (sample_client True))
     (connect_events @ send_events (sample_envelope 0 3 [5, 6]) @
      [Stop_call, Call_response 0, Read_header 0 (Inr []), Read_check 0]) (rpc_client_new sample_opts))"

lemma stopped_client_run:
  "run (client_step (sample_client True))
     (connect_events @ send_events (sample_envelope 0 3 [5, 6]) @
      [Stop_call, Call_response 0, Read_header 0 (Inr []), Read_check 0]) (rpc_client_new sample_opts) =
   Some stopped_client"
  "client_stopped stopped_client"
  "calls stopped_client = [\<lparr>call_session = 1, call_pc = C_Done (Inl Remote_connection_error)\<rparr>]"
  by (simp_all add: stopped_client_def answered_run_defs)

theorem client_stop_waits_witness:
  "\<exists>r. call_pc (calls stopped_client ! 0) = C_Done r"
  using client_stop_waits [OF client_reachable [OF stopped_client_run(1)] stopped_client_run(2)]
  by (simp add: stopped_client_run)

end
