(* ===== verification/Rpc_Client_Sessions.thy ===== *)
theory Rpc_Client_Sessions
  imports Rpc_Client_Properties
begin

text \<open>
  What the client does at the edges of its lifetime: when the 16-bit session index wraps around,
  when it connects again, and when a reader it gave up on finally gets an answer.
\<close>

section \<open>Promises without a slot\<close>

text \<open>A pending promise that no slot leads to, and a call that waits for it.\<close>

definition orphan :: "nat \<Rightarrow> client \<Rightarrow> bool" where
  "orphan w s \<longleftrightarrow> w < length (works s) \<and> pr (works s ! w) = Pending \<and> w \<notin> snd ` set (rpc_slots s)"


lemma orphan_cong: "works s' = works s \<Longrightarrow> rpc_slots s' = rpc_slots s \<Longrightarrow> orphan w s' = orphan w s"
  by (simp add: orphan_def)



lemma slots_set_cconn [simp]:
  "rpc_slots (set_cconn i c s) = rpc_slots s" "works (set_cconn i c s) = works s"
  "calls (set_cconn i c s) = calls s" "read_counter (set_cconn i c s) = read_counter s"
  by (simp_all add: set_cconn_def)

lemma orphan_set_cconn [simp]: "orphan w (set_cconn i c s) = orphan w s"
  by (simp add: orphan_def)

lemma orphan_read_next [simp]: "orphan w (read_next r s) = orphan w s"
  by (simp add: orphan_def)

lemma read_throw_sel [simp]:
  "calls (read_throw r s) = calls s"
  by (simp add: read_throw_def gate_leave_def remove_reader_def)



lemma read_ops_calls [simp]:
  "calls (read_payload cfg r hdr rd s) = calls s" "calls (read_header r rd s) = calls s"
  "calls (read_check cfg r s) = calls s" "calls (read_timeout r s) = calls s"
  by (simp_all add: read_payload_def read_header_def read_check_def read_timeout_def gate_leave_def
      remove_reader_def set_reader_def Let_def split: prod.splits sum.splits option.splits)

lemma write_ops_calls [simp]:
  "calls (write_memory j s) = calls s" "calls (write_header cfg j e s) = calls s"
  "calls (write_body j i e s) = calls s" "calls (write_flush j i e s) = calls s"
  by (simp_all add: write_memory_def write_header_def write_body_def write_flush_def
      client_write_error_def client_write_out_def Let_def split: option.splits)











section \<open>The session index wraps around\<close>









section \<open>Connecting again\<close>

text \<open>The credentials, and which connections were wrapped in TLS with them.\<close>

definition tls_view :: "client \<Rightarrow> bool \<times> bool list" where
  "tls_view s = (creds s, map cc_tls (c_conns s))"

definition tls_inv :: "client_cfg \<Rightarrow> client \<Rightarrow> bool" where
  "tls_inv cfg s \<longleftrightarrow> (c_conns s \<noteq> [] \<longrightarrow> \<not> creds s) \<and>
     (\<forall>i < length (c_conns s). cc_tls (c_conns s ! i) \<longrightarrow> i = 0)"

lemma tls_inv_view:
  "tls_inv cfg s \<longleftrightarrow> (snd (tls_view s) \<noteq> [] \<longrightarrow> \<not> fst (tls_view s)) \<and>
     (\<forall>i < length (snd (tls_view s)). snd (tls_view s) ! i \<longrightarrow> i = 0)"
  by (auto simp: tls_inv_def tls_view_def)

lemma tls_frame [simp]:
  "tls_view (fail_outstanding_futures s) = tls_view s" "tls_view (set_cconn i c s) = tls_view s"
  "tls_view (set_call i p s) = tls_view s" "tls_view (gate_leave s) = tls_view s"
  "tls_view (set_reader r f s) = tls_view s" "tls_view (remove_reader r s) = tls_view s"
  "tls_view (set_write j q s) = tls_view s" "tls_view (take_memory n s) = tls_view s"
  "tls_view (client_write_out i bs s) = tls_view s" "tls_view (finish_call i x s) = tls_view s"
  by (simp_all add: tls_view_def set_cconn_def map_cconns_upd set_call_def gate_leave_def set_reader_def
      remove_reader_def set_write_def take_memory_def client_write_out_def finish_call_def)

lemma tls_read [simp]:
  "tls_view (read_next r s) = tls_view s" "tls_view (read_throw r s) = tls_view s"
  "tls_view (read_check cfg r s) = tls_view s" "tls_view (read_header r rd s) = tls_view s"
  "tls_view (read_timeout r s) = tls_view s"
  by (simp_all add: read_next_def read_throw_def read_check_def read_header_def read_timeout_def Let_def
      split: prod.splits option.splits sum.splits)

lemma tls_payload [simp]: "tls_view (read_payload cfg r hdr rd s) = tls_view s"
proof -
  have "tls_view (t\<lparr>read_counter := n, works := ws, rpc_slots := m\<rparr>) = tls_view t" for t n ws m
    by (simp add: tls_view_def)
  then show ?thesis
    by (simp add: read_payload_def Let_def split: prod.splits option.splits sum.splits)
qed

lemma tls_writes [simp]:
  "tls_view (write_memory j s) = tls_view s" "tls_view (write_header cfg j e s) = tls_view s"
  "tls_view (write_body j i e s) = tls_view s" "tls_view (write_flush j i e s) = tls_view s"
proof -
  have en: "tls_view (write_end j t) = tls_view t" for t
    by (simp add: write_end_def) (simp add: tls_view_def)
  have w: "tls_view (t\<lparr>c_writing := b\<rparr>) = tls_view t" for t b
    by (simp add: tls_view_def)
  have "tls_view (upd_cconn i (\<lambda>c. c\<lparr>cc_failed := True\<rparr>) t) = tls_view t" for i t
    by (simp add: tls_view_def map_cconns_upd)
  then have er: "tls_view (client_write_error j i s) = tls_view s" for i
    by (simp add: client_write_error_def en w)
  show "tls_view (write_memory j s) = tls_view s" "tls_view (write_header cfg j e s) = tls_view s"
    "tls_view (write_body j i e s) = tls_view s" "tls_view (write_flush j i e s) = tls_view s"
    by (simp_all add: write_memory_def write_header_def write_body_def write_flush_def Let_def en w er
        split: option.splits)
qed

lemma tls_calls [simp]:
  "tls_view (client_send cfg e s) = tls_view s" "tls_view (call_filtered i w x s) = tls_view s"
  "tls_view (call_response i w s) = tls_view s" "tls_view (call_incoming i c s) = tls_view s"
  by (simp_all add: call_filtered_def call_response_def call_incoming_def dispatch_write_def
      split: sum.splits promise.splits option.splits)
    (simp_all add: tls_view_def client_send_def set_call_def Let_def)

interpretation tls: machine_invariant client_init client_step tls_inv
proof
  fix cfg s
  assume "client_init cfg s"
  then show "tls_inv cfg s" by (auto simp: client_init_def rpc_client_new_def tls_inv_def)
next
  fix cfg s e t
  assume inv: "tls_inv cfg s" and "client_step cfg e s = Some t"
  from this(2) show "tls_inv cfg t"
  proof (cases rule: client_step_cases)
    case connected
    with inv show ?thesis
      by (auto simp: tls_inv_def client_connected_def Let_def nth_append less_Suc_eq)
  next
    case stop
    with inv show ?thesis by (simp add: tls_inv_view client_stop_def) (simp add: tls_view_def)
  next
    case reconnect
    with inv show ?thesis
      by (simp add: tls_inv_view client_reconnect_def client_stop_def) (simp add: tls_view_def)
  qed (use inv in \<open>auto simp: tls_inv_view\<close>, auto simp: tls_view_def client_connect_def
      client_connect_failed_def client_reopen_def)
qed

text \<open>
  C36. The credentials protect the first connection only: \<^verbatim>\<open>connect\<close> moves \<^verbatim>\<open>creds_\<close> into the first
  connection, so in every reachable state every later connection is a plain one, and a client that
  reconnects talks to its server without TLS.
\<close>

theorem credentials_used_once:
  assumes "reachable (client_init cfg) (client_step cfg) s" and "i < length (c_conns s)" and "i \<noteq> 0"
  shows "\<not> cc_tls (c_conns s ! i)"
  using tls.inv_reachable [OF assms(1)] assms(2,3) by (auto simp: tls_inv_def)

text \<open>
  The events of a client whose idle connection times out while its reader waits for a header, and that
  reconnects. The reader the client gave up on is still there.
\<close>

definition reconnect_events :: "client_event list" where
  "reconnect_events =
     [Connect_call, Connected, Read_check 0, Read_timeout 0, Reconnect_call, Reconnect_go, Connected]"

definition reconnected_client :: client where
  "reconnected_client =
     the (run (client_step (sample_client True)) reconnect_events (rpc_client_new sample_opts))"

lemma reconnected_client_run:
  "run (client_step (sample_client True)) reconnect_events (rpc_client_new sample_opts) =
     Some reconnected_client"
  "length (c_conns reconnected_client) = 2" "cc_tls (c_conns reconnected_client ! 0)"
  by (simp_all add: reconnected_client_def reconnect_events_def answered_run_defs)

theorem credentials_used_once_witness:
  "cc_tls (c_conns reconnected_client ! 0) \<and> \<not> cc_tls (c_conns reconnected_client ! 1)"
  using credentials_used_once [OF client_reachable [OF reconnected_client_run(1)], of 1]
  by (simp add: reconnected_client_run)

text \<open>
  A reader that timed out takes the next connection down with it. When nothing arrives for
  \<^verbatim>\<open>recv_timeout\<close> on an idle client, the connection is closed; after a successful reconnect the new
  connection is valid; and when the old reader then sees the end of its stream,
  \<^verbatim>\<open>fail_outstanding_futures\<close> closes the new connection, although the error is on the old one.
\<close>

theorem stale_reader_closes_new_connection:
  "\<exists>s t. run (client_step cfg) reconnect_events (rpc_client_new opts) = Some s \<and>
     c_conn s = Some 1 \<and> is_conn_valid s \<and> rd_conn (readers s ! 0) = 0 \<and>
     client_step cfg (Read_header 0 (Inr [])) s = Some t \<and>
     c_conn t = Some 1 \<and> \<not> is_conn_valid t \<and> \<not> has_error (cc_conn (c_conns t ! 1)) \<and>
     has_error (cc_conn (c_conns t ! 0))"
  by (simp add: reconnect_events_def client_run_defs check_header_def kHeaderSize_def Let_def)

end
