(* ===== verification/Rpc_Client_Progress.thy ===== *)
theory Rpc_Client_Progress
  imports Rpc_Client_Sessions Draining
begin

text \<open>
  Progress of the client: once its gate is closed, the calls, the writes and the readers inside it come to an
  end, however they are scheduled, so that \<^verbatim>\<open>stop\<close> and \<^verbatim>\<open>reconnect\<close> complete.
\<close>

section \<open>A closed gate\<close>



lemmas client_ops = call_filtered_def dispatch_write_def call_response_def call_incoming_def finish_call_def
  gate_leave_def set_call_def write_memory_def write_header_def write_body_def write_flush_def
  write_end_def client_write_error_def client_write_out_def set_write_def take_memory_def
  read_check_def read_throw_def read_timeout_def set_reader_def remove_reader_def set_cconn_def


section \<open>Steps of the fibers inside the gate\<close>













section \<open>Stopping\<close>













section \<open>A write that does not fit\<close>

lemma in_set_others:
  assumes "x \<in> set xs" "x \<noteq> xs ! j"
  shows "x \<in> set (xs[j := v])" "x \<in> set (remove_nth j xs)"
proof -
  obtain k where k: "k < length xs" "xs ! k = x" using assms(1) by (auto simp: in_set_conv_nth)
  then have "k \<noteq> j" using assms(2) by auto
  with k have "k < length (xs[j := v])" "xs[j := v] ! k = x" by simp_all
  then show "x \<in> set (xs[j := v])" using nth_mem by metis
  show "x \<in> set (remove_nth j xs)"
  proof (cases "k < j")
    case True
    then have "take j xs ! k = x" "k < length (take j xs)" using k by simp_all
    then show ?thesis using nth_mem [of k "take j xs"] by (simp add: remove_nth_def)
  next
    case False
    then have "drop (Suc j) xs ! (k - Suc j) = x" "k - Suc j < length (drop (Suc j) xs)"
      using k \<open>k \<noteq> j\<close> by simp_all
    then show ?thesis using nth_mem [of "k - Suc j" "drop (Suc j) xs"] by (simp add: remove_nth_def)
  qed
qed

definition oversized :: "rpc_envelope \<Rightarrow> client_cfg \<Rightarrow> client \<Rightarrow> bool" where
  "oversized e cfg s \<longleftrightarrow> writes_inv cfg s \<and> client_limit s < int (envelope_size e) \<and>
     \<lparr>wr_env = e, wr_pc = W_WaitMem\<rparr> \<in> set (writes s)"

lemma write_held_nonneg: "0 \<le> client_held s"
  by (intro sum_list_nonneg) (auto simp: wr_held_def split: write_pc.splits)

lemma oversized_waits:
  assumes "oversized e cfg s" "client_step cfg ev s = Some t"
  shows "\<lparr>wr_env = e, wr_pc = W_WaitMem\<rparr> \<in> set (writes t) \<and> max_memory (c_limits t) = max_memory (c_limits s)"
proof -
  let ?w = "\<lparr>wr_env = e, wr_pc = W_WaitMem\<rparr>"
  have w: "?w \<in> set (writes s)" using assms(1) by (simp add: oversized_def)
  have avail: "client_avail s < int (envelope_size e)"
    using assms(1) write_held_nonneg [of s] by (simp add: oversized_def writes_inv_def locks_ok_def)
  have other: "?w \<in> set ((writes s)[j := v]) \<and> ?w \<in> set (remove_nth j (writes s))" if "?w \<noteq> writes s ! j" for j v
    using in_set_others [OF w that] by simp
  from assms(2) show ?thesis
  proof (cases rule: client_step_cases)
    case (memory j)
    then have "?w \<noteq> writes s ! j" using avail by (auto dest: arg_cong [of _ _ wr_env])
    from other [OF this] memory show ?thesis by (simp add: client_ops)
  next
    case (hdr_written j i v)
    then have "?w \<noteq> writes s ! j" by (auto dest: arg_cong [of _ _ wr_pc])
    from other [OF this] hdr_written show ?thesis by (auto simp: client_ops Let_def split: option.splits)
  next
    case (body_written j i v)
    then have "?w \<noteq> writes s ! j" by (auto dest: arg_cong [of _ _ wr_pc])
    from other [OF this] body_written show ?thesis by (auto simp: client_ops split: option.splits)
  next
    case (flushed j i v)
    then have "?w \<noteq> writes s ! j" by (auto dest: arg_cong [of _ _ wr_pc])
    from other [OF this] flushed show ?thesis by (auto simp: client_ops split: option.splits)
  next
    case (hdr_read r rd)
    with w show ?thesis
      by (auto simp: client_ops read_header_def read_next_def Let_def split: prod.splits sum.splits option.splits)
  next
    case (payload r hdr rd)
    with w show ?thesis
      by (auto simp: client_ops read_payload_def read_next_def Let_def split: prod.splits sum.splits option.splits)
  next
    case (sent e)
    with w show ?thesis by (auto simp: client_send_def Let_def)
  next
    case reopen
    with w show ?thesis by (auto simp: client_reopen_def client_connect_def)
  qed (use w in \<open>auto simp: client_ops client_connect_def client_connected_def client_connect_failed_def
      client_stop_def client_reconnect_def Let_def split: promise.splits option.splits sum.splits\<close>)
qed

interpretation stuck: machine_invariant "oversized e" client_step "oversized e" for e
proof
  show "oversized e cfg t" if "oversized e cfg s" "client_step cfg ev s = Some t" for cfg s ev t
    using that oversized_waits [OF that] wire.inv_step [OF _ that(2)] by (simp add: oversized_def)
qed

text \<open>
  A message larger than the memory of the client is never written, and the client can not be stopped any more:
  the write waits for units that never exist.
\<close>

theorem oversized_write_blocks:
  assumes "reachable (client_init cfg) (client_step cfg) s" "w \<in> set (writes s)" "wr_pc w = W_WaitMem"
    and "client_limit s < int (envelope_size (wr_env w))" "run (client_step cfg) es s = Some t"
  shows "w \<in> set (writes t) \<and> \<not> client_stopped t"
proof -
  have "w = \<lparr>wr_env = wr_env w, wr_pc = W_WaitMem\<rparr>" using assms(3) by (cases w) simp
  then have "oversized (wr_env w) cfg s"
    using assms(2,4) wire.inv_reachable [OF assms(1)] by (simp add: oversized_def)
  from stuck.inv_run [OF this assms(5)] have w: "w \<in> set (writes t)"
    using \<open>w = _\<close> by (simp add: oversized_def)
  then obtain j where "j < length (writes t)" by (auto simp: in_set_conv_nth)
  then have "0 < dispatch_count t"
    using gate_positive(2) gate.inv_reachable run_reachable [OF assms(1,5)] by blast
  with w show ?thesis by (simp add: client_stopped_def)
qed

end
