(* ===== verification/Rpc_Reconnect.thy ===== *)
theory Rpc_Reconnect
  imports Rpc_Client_Sessions
begin

text \<open>
  The client that reconnects in the background (\<^verbatim>\<open>include/smf/reconnect_client.h\<close>), composed with the
  client machine of \<^verbatim>\<open>Rpc_Client\<close>: \<open>rc_client\<close> is the client it owns, and its steps are taken by this
  machine (\<open>Rc_client\<close>) or on its behalf.
\<close>

section \<open>The backoff\<close>

definition backoff_table :: "u16 list" where
  "backoff_table = [0, 1, 3, 5, 10, 20, 30, 60, 300, 600, 1800]"

definition next_backoff :: "u16 \<Rightarrow> u16" where
  "next_backoff b =
     (let b1 = b + 1 in case find (\<lambda>x. b1 \<le> x) backoff_table of Some x \<Rightarrow> x | None \<Rightarrow> 1800)"

section \<open>The machine\<close>

text \<open>
  A call of \<^verbatim>\<open>connect\<close> that entered the gate waits for the client to stop, then for its connection. It is
  \<open>at_nested\<close> when a sleeping fiber, which holds an entry of the gate of its own, called it.
\<close>

datatype attempt_pc = A_Stopping | A_Connecting

record attempt =
  at_pc :: attempt_pc
  at_nested :: bool

record reconnect_client =
  rc_client :: client
  rc_bo :: u16
  rc_gate_count :: nat
  rc_gate_closed :: bool
  rc_attempts :: "attempt list"
  rc_sleeps :: "nat list"
  rc_stopped :: bool
  rc_aborted :: bool

definition reconnect_client_new :: "rpc_client_opts \<Rightarrow> reconnect_client" where
  "reconnect_client_new o' =
     \<lparr>rc_client = rpc_client_new o', rc_bo = 0, rc_gate_count = 0, rc_gate_closed = False,
      rc_attempts = [], rc_sleeps = [], rc_stopped = False, rc_aborted = False\<rparr>"

definition reconnect_client_of_addr :: "string \<Rightarrow> reconnect_client" where
  "reconnect_client_of_addr addr = reconnect_client_new (rpc_client_opts_new addr)"

text \<open>
  \<^verbatim>\<open>connect\<close>; a nested call that returns at once ends the fiber that made it. Closing a gate twice is a
  failed assertion.
\<close>

definition rc_connect :: "bool \<Rightarrow> reconnect_client \<Rightarrow> reconnect_client" where
  "rc_connect nested s =
     (if is_conn_valid (rc_client s) \<or> rc_gate_closed s then
        s\<lparr>rc_gate_count := rc_gate_count s - (if nested then 1 else 0)\<rparr>
      else if dispatch_closed (rc_client s) then s\<lparr>rc_aborted := True\<rparr>
      else s\<lparr>rc_gate_count := rc_gate_count s + 1, rc_client := client_reconnect (rc_client s),
        rc_attempts := rc_attempts s @ [\<lparr>at_pc = A_Stopping, at_nested = nested\<rparr>]\<rparr>)"

definition end_attempt :: "nat \<Rightarrow> reconnect_client \<Rightarrow> reconnect_client" where
  "end_attempt i s =
     s\<lparr>rc_attempts := remove_nth i (rc_attempts s),
       rc_gate_count := rc_gate_count s - (if at_nested (rc_attempts s ! i) then 2 else 1)\<rparr>"

definition rc_succeeded :: "nat \<Rightarrow> reconnect_client \<Rightarrow> reconnect_client" where
  "rc_succeeded i s = end_attempt i (s\<lparr>rc_bo := 0\<rparr>)"

text \<open>The exception handler, with the random number it draws; a closed gate lets nothing in.\<close>

definition rc_failed :: "nat \<Rightarrow> u64 \<Rightarrow> reconnect_client \<Rightarrow> reconnect_client" where
  "rc_failed i r s =
     end_attempt i
       (if rc_gate_closed s then s
        else (let bo = next_backoff (rc_bo s) in
          s\<lparr>rc_bo := bo, rc_gate_count := rc_gate_count s + 1,
            rc_sleeps := rc_sleeps s @ [unat r mod 100 + 1000 * unat bo]\<rparr>))"

definition rc_reopen :: "nat \<Rightarrow> u64 \<Rightarrow> reconnect_client \<Rightarrow> reconnect_client" where
  "rc_reopen i r s =
     (case client_reopen (rc_client s) of
        Inl e \<Rightarrow> rc_failed i r s
      | Inr c \<Rightarrow> s\<lparr>rc_client := c, rc_attempts := (rc_attempts s)[i := (rc_attempts s ! i)\<lparr>at_pc := A_Connecting\<rparr>]\<rparr>)"

definition rc_connected :: "nat \<Rightarrow> u64 \<Rightarrow> reconnect_client \<Rightarrow> reconnect_client" where
  "rc_connected i r s =
     (let s1 = s\<lparr>rc_client := client_connected (rc_client s)\<rparr> in
      if dispatch_closed (rc_client s) then rc_failed i r s1 else rc_succeeded i s1)"

definition rc_wake :: "nat \<Rightarrow> reconnect_client \<Rightarrow> reconnect_client" where
  "rc_wake k s = rc_connect True (s\<lparr>rc_sleeps := remove_nth k (rc_sleeps s)\<rparr>)"

definition rc_stop :: "reconnect_client \<Rightarrow> reconnect_client" where
  "rc_stop s = s\<lparr>rc_gate_closed := True\<rparr>"

definition rc_client_stop :: "reconnect_client \<Rightarrow> reconnect_client" where
  "rc_client_stop s =
     (if dispatch_closed (rc_client s) then s\<lparr>rc_aborted := True\<rparr>
      else s\<lparr>rc_client := client_stop (rc_client s), rc_stopped := True\<rparr>)"

datatype rc_event =
    Rc_connect
  | Rc_client client_event
  | Rc_reopen nat u64
  | Rc_connected nat u64
  | Rc_connect_failed nat u64
  | Rc_wake nat
  | Rc_stop
  | Rc_client_stop

text \<open>The steps of the client's own fibers: the rest is for the owner of the connection.\<close>

fun fiber_event :: "client_event \<Rightarrow> bool" where
  "fiber_event Connect_call = False"
| "fiber_event Connected = False"
| "fiber_event Connect_failed = False"
| "fiber_event Stop_call = False"
| "fiber_event Reconnect_call = False"
| "fiber_event Reconnect_go = False"
| "fiber_event _ = True"

definition attempt_at :: "nat \<Rightarrow> attempt_pc \<Rightarrow> reconnect_client \<Rightarrow> bool" where
  "attempt_at i pc s \<longleftrightarrow> i < length (rc_attempts s) \<and> at_pc (rc_attempts s ! i) = pc"

fun rc_enabled :: "rc_event \<Rightarrow> reconnect_client \<Rightarrow> bool" where
  "rc_enabled Rc_connect s = True"
| "rc_enabled (Rc_client ev) s = fiber_event ev"
| "rc_enabled (Rc_reopen i r) s = (attempt_at i A_Stopping s \<and> client_stopped (rc_client s))"
| "rc_enabled (Rc_connected i r) s = attempt_at i A_Connecting s"
| "rc_enabled (Rc_connect_failed i r) s = attempt_at i A_Connecting s"
| "rc_enabled (Rc_wake k) s = (k < length (rc_sleeps s))"
| "rc_enabled Rc_stop s = (\<not> rc_gate_closed s)"
| "rc_enabled Rc_client_stop s = (rc_gate_closed s \<and> rc_gate_count s = 0 \<and> \<not> rc_stopped s)"

fun rc_next :: "client_cfg \<Rightarrow> rc_event \<Rightarrow> reconnect_client \<Rightarrow> reconnect_client option" where
  "rc_next cfg Rc_connect s = Some (rc_connect False s)"
| "rc_next cfg (Rc_client ev) s = map_option (\<lambda>c. s\<lparr>rc_client := c\<rparr>) (client_step cfg ev (rc_client s))"
| "rc_next cfg (Rc_reopen i r) s = Some (rc_reopen i r s)"
| "rc_next cfg (Rc_connected i r) s = Some (rc_connected i r s)"
| "rc_next cfg (Rc_connect_failed i r) s =
     Some (rc_failed i r (s\<lparr>rc_client := client_connect_failed (rc_client s)\<rparr>))"
| "rc_next cfg (Rc_wake k) s = Some (rc_wake k s)"
| "rc_next cfg Rc_stop s = Some (rc_stop s)"
| "rc_next cfg Rc_client_stop s = Some (rc_client_stop s)"

definition rc_step :: "client_cfg \<Rightarrow> rc_event \<Rightarrow> reconnect_client \<Rightarrow> reconnect_client option" where
  "rc_step cfg ev s = (if rc_aborted s \<or> \<not> rc_enabled ev s then None else rc_next cfg ev s)"

definition rc_init :: "client_cfg \<Rightarrow> reconnect_client \<Rightarrow> bool" where
  "rc_init cfg s \<longleftrightarrow> (\<exists>opts. s = reconnect_client_new opts)"

section \<open>Invariants\<close>

definition backoffs :: "u16 set" where
  "backoffs = set backoff_table"

lemma next_backoff_in: "b \<in> backoffs \<Longrightarrow> next_backoff b \<in> backoffs - {0}"
proof -
  have "list_all (\<lambda>b. next_backoff b \<in> set backoff_table - {0}) backoff_table" by code_simp
  then show "b \<in> backoffs \<Longrightarrow> next_backoff b \<in> backoffs - {0}" by (simp add: backoffs_def list_all_iff)
qed

text \<open>How long a fiber may sleep, in milliseconds: a non-zero backoff and less than 100 of jitter.\<close>

definition sleep_ok :: "nat \<Rightarrow> bool" where
  "sleep_ok m \<longleftrightarrow> (\<exists>b\<in>backoffs - {0}. 1000 * unat b \<le> m \<and> m < 1000 * unat b + 100)"

definition at_entries :: "attempt \<Rightarrow> int" where
  "at_entries a = (if at_nested a then 2 else 1)"

definition rc_inv :: "client_cfg \<Rightarrow> reconnect_client \<Rightarrow> bool" where
  "rc_inv cfg s \<longleftrightarrow> rc_bo s \<in> backoffs \<and> (\<forall>m\<in>set (rc_sleeps s). sleep_ok m) \<and>
     (\<not> rc_aborted s \<longrightarrow>
        int (rc_gate_count s) = sum_list (map at_entries (rc_attempts s)) + int (length (rc_sleeps s))) \<and>
     (rc_stopped s \<longrightarrow> rc_gate_closed s \<and> rc_attempts s = [] \<and> rc_sleeps s = [])"

lemma rc_invI:
  assumes "rc_bo s \<in> backoffs" "\<And>m. m \<in> set (rc_sleeps s) \<Longrightarrow> sleep_ok m"
    "\<not> rc_aborted s \<Longrightarrow>
      int (rc_gate_count s) = sum_list (map at_entries (rc_attempts s)) + int (length (rc_sleeps s))"
    "rc_stopped s \<Longrightarrow> rc_gate_closed s \<and> rc_attempts s = [] \<and> rc_sleeps s = []"
  shows "rc_inv cfg s"
  using assms by (simp add: rc_inv_def)

lemma entries_le:
  assumes "i < length as"
  shows "at_entries (as ! i) \<le> sum_list (map at_entries as)"
proof (rule sum_list_member_le)
  show "0 \<le> at_entries a" for a by (simp add: at_entries_def)
qed (use assms in simp)

lemma entries_ge_length: "int (length as) \<le> sum_list (map at_entries as)"
  by (induction as) (simp_all add: at_entries_def)

lemma remove_entries:
  "i < length as \<Longrightarrow> sum_list (map at_entries (remove_nth i as)) = sum_list (map at_entries as) - at_entries (as ! i)"
  by (simp add: map_remove_nth sum_list_remove_nth)

lemma end_attempt_inv:
  assumes "rc_inv cfg s" "i < length (rc_attempts s)" "\<not> rc_aborted s"
  shows "rc_inv cfg (end_attempt i s)"
proof (rule rc_invI)
  show "int (rc_gate_count (end_attempt i s)) =
      sum_list (map at_entries (rc_attempts (end_attempt i s))) + int (length (rc_sleeps (end_attempt i s)))"
    using assms entries_le [OF assms(2)] remove_entries [OF assms(2)]
    by (auto simp: rc_inv_def end_attempt_def at_entries_def)
qed (use assms in \<open>auto simp: rc_inv_def end_attempt_def\<close>)

lemma rc_succeeded_inv:
  assumes "rc_inv cfg s" "i < length (rc_attempts s)" "\<not> rc_aborted s"
  shows "rc_inv cfg (rc_succeeded i s)"
  unfolding rc_succeeded_def
proof (rule end_attempt_inv)
  show "rc_inv cfg (s\<lparr>rc_bo := 0\<rparr>)"
    using assms(1) by (simp add: rc_inv_def backoffs_def backoff_table_def)
qed (use assms in simp_all)

lemma rc_failed_inv:
  assumes "rc_inv cfg s" "i < length (rc_attempts s)" "\<not> rc_aborted s"
  shows "rc_inv cfg (rc_failed i r s)"
proof -
  have nb: "next_backoff (rc_bo s) \<in> backoffs - {0}"
    using assms(1) next_backoff_in by (simp add: rc_inv_def)
  then have "sleep_ok (unat r mod 100 + 1000 * unat (next_backoff (rc_bo s)))"
    unfolding sleep_ok_def by (intro bexI [OF _ nb]) simp
  then show ?thesis unfolding rc_failed_def Let_def
    using assms nb by (intro end_attempt_inv) (auto simp: rc_inv_def)
qed

lemma rc_inv_client: "rc_inv cfg s \<Longrightarrow> rc_inv cfg (s\<lparr>rc_client := c\<rparr>)"
  by (simp add: rc_inv_def)

lemma rc_reopen_inv:
  assumes "rc_inv cfg s" "i < length (rc_attempts s)" "\<not> rc_aborted s"
  shows "rc_inv cfg (rc_reopen i r s)"
proof (cases "client_reopen (rc_client s)")
  case (Inr c)
  have "map at_entries ((rc_attempts s)[i := (rc_attempts s ! i)\<lparr>at_pc := A_Connecting\<rparr>]) =
      map at_entries (rc_attempts s)"
    by (rule map_list_update_same) (simp add: at_entries_def)
  then show ?thesis using assms(1) by (auto simp: rc_reopen_def Inr rc_inv_def)
qed (use rc_failed_inv [OF assms] in \<open>simp add: rc_reopen_def\<close>)

lemma rc_connected_inv:
  assumes "rc_inv cfg s" "i < length (rc_attempts s)" "\<not> rc_aborted s"
  shows "rc_inv cfg (rc_connected i r s)"
  using assms rc_inv_client [OF assms(1)]
  by (auto simp: rc_connected_def Let_def intro!: rc_failed_inv rc_succeeded_inv)

lemma rc_connect_inv: "rc_inv cfg s \<Longrightarrow> rc_inv cfg (rc_connect False s)"
  by (auto simp: rc_inv_def rc_connect_def at_entries_def)

lemma rc_wake_inv:
  assumes "rc_inv cfg s" "k < length (rc_sleeps s)" "\<not> rc_aborted s"
  shows "rc_inv cfg (rc_wake k s)"
proof (rule rc_invI)
  have c: "0 \<le> sum_list (map at_entries (rc_attempts s))"
    by (rule sum_list_nonneg) (auto simp: at_entries_def)
  show "int (rc_gate_count (rc_wake k s)) = sum_list (map at_entries (rc_attempts (rc_wake k s))) +
      int (length (rc_sleeps (rc_wake k s)))" if "\<not> rc_aborted (rc_wake k s)"
    using assms c that by (auto simp: rc_inv_def rc_wake_def rc_connect_def at_entries_def split: if_splits)
qed (use assms in \<open>auto simp: rc_inv_def rc_wake_def rc_connect_def dest: set_remove_nth split: if_splits\<close>)

interpretation rc: machine_invariant rc_init rc_step rc_inv
proof
  fix cfg s assume "rc_init cfg s"
  then show "rc_inv cfg s"
    by (auto simp: rc_init_def reconnect_client_new_def rc_inv_def backoffs_def backoff_table_def)
next
  fix cfg s ev t assume inv: "rc_inv cfg s" and st: "rc_step cfg ev s = Some t"
  have a: "\<not> rc_aborted s" "rc_enabled ev s" "rc_next cfg ev s = Some t"
    using st by (simp_all add: rc_step_def split: if_splits)
  show "rc_inv cfg t"
  proof (cases ev)
    case Rc_connect
    then show ?thesis using a rc_connect_inv [OF inv] by simp
  next
    case (Rc_client e)
    then show ?thesis using a rc_inv_client [OF inv] by auto
  next
    case (Rc_reopen i r)
    then show ?thesis using a rc_reopen_inv [OF inv, of i r] by (auto simp: attempt_at_def)
  next
    case (Rc_connected i r)
    then show ?thesis using a rc_connected_inv [OF inv, of i r] by (auto simp: attempt_at_def)
  next
    case (Rc_connect_failed i r)
    then show ?thesis using a rc_failed_inv [OF rc_inv_client [OF inv], of i] by (auto simp: attempt_at_def)
  next
    case (Rc_wake k)
    then show ?thesis using a rc_wake_inv [OF inv, of k] by auto
  next
    case Rc_stop
    then show ?thesis using a inv by (auto simp: rc_stop_def rc_inv_def)
  next
    case Rc_client_stop
    have "rc_attempts s = [] \<and> rc_sleeps s = []"
    proof -
      have "int (length (rc_attempts s)) + int (length (rc_sleeps s)) \<le> 0"
        using a inv Rc_client_stop entries_ge_length [of "rc_attempts s"] by (simp add: rc_inv_def)
      then have "length (rc_attempts s) = 0 \<and> length (rc_sleeps s) = 0" by linarith
      then show ?thesis by simp
    qed
    then show ?thesis using a inv Rc_client_stop by (auto simp: rc_client_stop_def rc_inv_def split: if_splits)
  qed
qed

section \<open>Properties\<close>

lemma backoff_index: "i < 11 \<Longrightarrow> next_backoff (backoff_table ! i) = backoff_table ! min (Suc i) 10"
proof -
  have "list_all (\<lambda>i. next_backoff (backoff_table ! i) = backoff_table ! min (Suc i) 10) [0..<11]" by code_simp
  then show "i < 11 \<Longrightarrow> next_backoff (backoff_table ! i) = backoff_table ! min (Suc i) 10"
    by (simp add: list_all_iff)
qed

text \<open>
  The backoff climbs its table: after \<open>n\<close> failures in a row it is the \<open>n\<close>-th entry, and from the tenth
  on the last one, half an hour.
\<close>

theorem backoff_schedule: "(next_backoff ^^ n) 0 = backoff_table ! min n 10"
proof (induction n)
  case 0
  show ?case by (simp add: backoff_table_def)
next
  case (Suc n)
  then show ?case using backoff_index [of "min n 10"] by (simp add: min_def split: if_splits)
qed

text \<open>
  C27. Whatever happens to the connection and however often \<^verbatim>\<open>connect\<close> is called, every fiber that waits to
  reconnect sleeps for one of the non-zero backoffs of the table plus less than 100 milliseconds.
\<close>

theorem sleeps_in_table:
  assumes "reachable (rc_init cfg) (rc_step cfg) s" "m \<in> set (rc_sleeps s)"
  shows "\<exists>b\<in>set backoff_table. 1000 * unat b \<le> m \<and> m < 1000 * unat b + 100 \<and> 1000 \<le> m \<and> m < 1800100"
proof -
  obtain b where b: "b \<in> backoffs - {0}" "1000 * unat b \<le> m" "m < 1000 * unat b + 100"
    using rc.inv_reachable [OF assms(1)] assms(2) by (auto simp: rc_inv_def sleep_ok_def)
  have "list_all (\<lambda>b. b = 0 \<or> 1 \<le> unat b \<and> unat b \<le> 1800) backoff_table" by code_simp
  then have "1 \<le> unat b \<and> unat b \<le> 1800" using b(1) by (auto simp: backoffs_def list_all_iff)
  with b show ?thesis by (auto simp: backoffs_def)
qed

lemma rc_reachable:
  assumes "run (rc_step cfg) es (reconnect_client_new opts) = Some s"
  shows "reachable (rc_init cfg) (rc_step cfg) s"
proof -
  have "reachable (rc_init cfg) (rc_step cfg) (reconnect_client_new opts)"
    by (rule start) (auto simp: rc_init_def)
  then show ?thesis using assms by (rule run_reachable)
qed

definition refused_client :: reconnect_client where
  "refused_client =
     the (run (rc_step (sample_client True)) [Rc_connect, Rc_reopen 0 0, Rc_connect_failed 0 42]
       (reconnect_client_new sample_opts))"

lemmas rc_run_defs = rc_step_def attempt_at_def rc_connect_def rc_reopen_def rc_connected_def rc_failed_def
  rc_succeeded_def end_attempt_def rc_wake_def rc_stop_def rc_client_stop_def reconnect_client_new_def
  answered_run_defs

lemma refused_client_run:
  "run (rc_step (sample_client True)) [Rc_connect, Rc_reopen 0 0, Rc_connect_failed 0 42]
     (reconnect_client_new sample_opts) = Some refused_client"
  "rc_sleeps refused_client = [1042]" "rc_gate_count refused_client = 1" "\<not> rc_gate_closed refused_client"
  by (simp_all add: refused_client_def rc_run_defs next_backoff_def backoff_table_def)

theorem sleeps_in_table_witness:
  "rc_sleeps refused_client = [1042] \<and> (\<exists>b. b \<in> set backoff_table \<and> 1000 * unat b \<le> 1042)"
  using sleeps_in_table [OF rc_reachable [OF refused_client_run(1)], of 1042] refused_client_run(2) by auto

text \<open>
  C28. \<^verbatim>\<open>stop\<close> waits: when the client itself is stopped, no attempt is under way and no fiber sleeps, and once
  the gate is closed no step lets a fiber in again.
\<close>

theorem reconnect_stop_waits:
  assumes "reachable (rc_init cfg) (rc_step cfg) s"
  shows "(rc_stopped s \<longrightarrow> rc_attempts s = [] \<and> rc_sleeps s = []) \<and>
    (rc_gate_closed s \<longrightarrow> rc_step cfg ev s = Some t \<longrightarrow> rc_gate_closed t \<and> rc_gate_count t \<le> rc_gate_count s)"
proof (intro conjI impI)
  show "rc_attempts s = []" "rc_sleeps s = []" if "rc_stopped s"
    using rc.inv_reachable [OF assms] that by (simp_all add: rc_inv_def)
  assume "rc_gate_closed s" "rc_step cfg ev s = Some t"
  then show "rc_gate_closed t" "rc_gate_count t \<le> rc_gate_count s"
    by (cases ev; auto simp: rc_step_def rc_connect_def rc_reopen_def rc_connected_def rc_wake_def rc_stop_def
        rc_client_stop_def rc_failed_def rc_succeeded_def end_attempt_def Let_def
        split: if_splits sum.splits)+
qed

definition stopping_client :: reconnect_client where
  "stopping_client = the (run (rc_step (sample_client True)) [Rc_connect, Rc_reopen 0 0, Rc_connect_failed 0 42, Rc_stop]
       (reconnect_client_new sample_opts))"

lemma stopping_client_run:
  "run (rc_step (sample_client True)) [Rc_connect, Rc_reopen 0 0, Rc_connect_failed 0 42, Rc_stop]
     (reconnect_client_new sample_opts) = Some stopping_client"
  "rc_gate_closed stopping_client" "rc_gate_count stopping_client = 1"
  "rc_step (sample_client True) (Rc_wake 0) stopping_client = Some (rc_wake 0 stopping_client)"
  by (simp_all add: stopping_client_def rc_run_defs next_backoff_def backoff_table_def)

theorem reconnect_stop_waits_witness:
  "rc_gate_closed (rc_wake 0 stopping_client) \<and> rc_gate_count (rc_wake 0 stopping_client) \<le> 1"
  using reconnect_stop_waits [OF rc_reachable [OF stopping_client_run(1)], of "Rc_wake 0"]
    stopping_client_run by auto

text \<open>
  The events of a client whose reader is still waiting when its connection has been shut down after a
  failed write, and whose user calls \<^verbatim>\<open>connect\<close> twice.
\<close>

definition double_connect :: "rpc_envelope \<Rightarrow> rc_event list" where
  "double_connect e =
     [Rc_connect, Rc_reopen 0 0, Rc_connected 0 0, Rc_client (Read_check 0), Rc_client (Send e),
      Rc_client (Call_filters_out 0), Rc_client (Write_memory 0), Rc_client (Write_header 0 (Some (Runtime_error ''''))),
      Rc_connect, Rc_connect]"

text \<open>
  Calling \<^verbatim>\<open>connect\<close> again while an attempt waits for the client's fibers to end closes the client's gate
  a second time, which is a failed assertion: only the state of the connection is checked, not whether an
  attempt is under way.
\<close>

theorem double_connect_aborts:
  "\<exists>s. run (rc_step (sample_client dbg)) (double_connect (sample_envelope 0 3 [5, 6])) (reconnect_client_new sample_opts) =
     Some s \<and> rc_aborted s"
  by (simp add: double_connect_def rc_run_defs)

end
