(* ===== verification/Smfc_Cpp.thy ===== *)
theory Smfc_Cpp
  imports Smfc_Service
begin

text \<open>
  The C++ generator (\<^verbatim>\<open>smfc/cpp_generator.cc\<close>, \<^verbatim>\<open>cpp_generator.h\<close>): every function is the list of calls it
  makes on its printer. Variables that a loop leaves in the map, and that no later template mentions, are
  left out. What the emitted code does is the subject of \<^verbatim>\<open>Generated_Code\<close>.
\<close>

section \<open>Names\<close>

definition hex_digit :: "nat \<Rightarrow> char" where
  "hex_digit n = ''0123456789abcdef'' ! n"

fun file_name_identifier :: "string \<Rightarrow> string" where
  "file_name_identifier [] = []"
| "file_name_identifier (c # s) =
     (if is_alnum c then [to_upper c]
      else if c = CHR ''_'' then [c]
      else [CHR ''_'', hex_digit (of_char c div 16), hex_digit (of_char c mod 16)]) @ file_name_identifier s"

definition is_camel_case :: "string \<Rightarrow> bool" where
  "is_camel_case s = list_ex is_upper s"

definition lower_vec :: "string list \<Rightarrow> string" where
  "lower_vec vec = map (\<lambda>c. if is_alnum c then to_lower c else c) (concat vec)"

text \<open>\<^verbatim>\<open>s[0] = toupper(s[0])\<close>; on an empty string this leaves the terminating NUL as it is.\<close>

definition upper_first :: "string \<Rightarrow> string" where
  "upper_first s = (case s of [] \<Rightarrow> [] | c # cs \<Rightarrow> to_upper c # cs)"

definition postfix_token :: "string \<Rightarrow> string \<Rightarrow> string" where
  "postfix_token s postfix =
     (if is_camel_case s then upper_first s @ upper_first postfix else lower_vec [s, ''_'', postfix])"

definition prefix_token :: "string \<Rightarrow> string \<Rightarrow> string" where
  "prefix_token prefix s =
     (if is_camel_case s then upper_first prefix @ upper_first s else lower_vec [prefix, ''_'', s])"

text \<open>With their \<^verbatim>\<open>CHECK\<close>, which holds for the constant prefix and postfix of the generator.\<close>

definition proper_postfix_token :: "string \<Rightarrow> string \<Rightarrow> string gen" where
  "proper_postfix_token s postfix =
     (if s = [] \<and> postfix = [] then Inl (Abort ''Can't compute postfix token'')
      else Inr (postfix_token s postfix))"

definition proper_prefix_token :: "string \<Rightarrow> string \<Rightarrow> string gen" where
  "proper_prefix_token prefix s =
     (if s = [] \<and> prefix = [] then Inl (Abort ''Can't compute prefix token'')
      else Inr (prefix_token prefix s))"

section \<open>Services\<close>

definition ctor_dtor_method_vars :: "smf_service \<Rightarrow> smf_method \<Rightarrow> vars" where
  "ctor_dtor_method_vars s m =
     [''Service'' \<mapsto> s_name s, ''MethodName'' \<mapsto> m_name m,
      ''RawMethodName'' \<mapsto> prefix_token ''raw'' (m_name m), ''InType'' \<mapsto> input_type_name m,
      ''OutType'' \<mapsto> output_type_name m, ''MethodId'' \<mapsto> to_string (m_id m)]"

definition ctor_dtor_method :: "smf_service \<Rightarrow> nat \<Rightarrow> printer_call list" where
  "ctor_dtor_method s i =
     [Print (lns [''smf::rpc_service_method_handle('']),
      Indent,
      Print (lns [''[this](smf::rpc_recv_context c) -> seastar::future<smf::rpc_envelope> {'']),
      Indent,
      Print (lns [''// Session accounting'', ''auto session_id = c.session();'']),
      Print_vars (ctor_dtor_method_vars s (s_methods s ! i))
        (lns [''return $RawMethodName$(std::move(c)).then([session_id](smf::rpc_envelope e) {'']),
      Indent,
      Print (lns [''e.letter.header.mutate_session(session_id);'',
        ''return seastar::make_ready_future<smf::rpc_envelope>(std::move(e));'']),
      Outdent,
      Print (lns [if i < length (s_methods s) - 1 then ''});}),'' else ''});})'']),
      Outdent,
      Outdent]"

definition print_header_service_ctor_dtor :: "smf_service \<Rightarrow> printer_call list" where
  "print_header_service_ctor_dtor s =
     (let vars = [''Service'' \<mapsto> s_name s] in
      [Print_vars vars (lns [''virtual ~$Service$() = default;'']),
       Print_vars vars (lns [''$Service$() : handles_{{'']),
       Indent] @
      concat (map (ctor_dtor_method s) [0..<length (s_methods s)]) @
      [Outdent,
       Print (lns [''}} {}''])])"

definition request_id_case :: "smf_service \<Rightarrow> nat \<Rightarrow> printer_call" where
  "request_id_case s i =
     (let m = s_methods s ! i in
      Print_vars [''ServiceID'' \<mapsto> to_string (m_service_id m), ''MethodId'' \<mapsto> to_string (m_id m),
          ''VectorIdx'' \<mapsto> dec_nat i]
        (lns [''case ($ServiceID$ ^ $MethodId$): return &handles_[$VectorIdx$];'']))"

definition print_header_service_handle_request_id :: "smf_service \<Rightarrow> printer_call list" where
  "print_header_service_handle_request_id s =
     [Print (lns [''virtual smf::rpc_service_method_handle *'',
        ''method_for_request_id(uint32_t idx) override final {'']),
      Indent,
      Print (lns [''switch(idx){'']),
      Indent] @
     map (request_id_case s) [0..<length (s_methods s)] @
     [Print (lns [''default: return nullptr;'']),
      Outdent,
      Print (lns [''}'']),
      Outdent,
      Print (lns [''}''])]"

definition print_header_service_handles :: "smf_service \<Rightarrow> printer_call list" where
  "print_header_service_handles s =
     [Print_vars [''ServiceHandleSize'' \<mapsto> dec_nat (length (s_methods s))]
        (lns [''virtual const std::array<smf::rpc_service_method_handle, $ServiceHandleSize$> &'',
          ''methods() final {'']),
      Indent,
      Print (lns [''return handles_;'']),
      Outdent,
      Print (lns [''}''])]"

definition print_header_service_method :: "smf_method \<Rightarrow> printer_call list" where
  "print_header_service_method m =
     (let vars = [''RawMethodName'' \<mapsto> prefix_token ''raw'' (m_name m), ''MethodName'' \<mapsto> m_name m,
            ''MethodId'' \<mapsto> to_string (m_id m), ''InType'' \<mapsto> input_type_name m,
            ''OutType'' \<mapsto> output_type_name m] in
      [Print_vars vars (lns [''inline virtual'', ''seastar::future<smf::rpc_typed_envelope<$OutType$>>'']),
       Print_vars vars (lns [''$MethodName$(smf::rpc_recv_typed_context<$InType$> &&rec) {'']),
       Indent,
       Print_vars vars (lns [''using out_type = $OutType$;'',
         ''using env_t = smf::rpc_typed_envelope<out_type>;'',
         ''env_t data;'',
         ''// User should override this method.'',
         ''//'',
         ''// Helpful for clients to set the status.'',
         ''// Typically follows HTTP style. Not imposed by smf whatsoever.'',
         ''// i.e. 501 == Method not implemented'',
         ''data.envelope.set_status(501);'',
         ''return seastar::make_ready_future<env_t>(std::move(data));'']),
       Outdent,
       Print (lns [''}'']),
       Print_vars vars (lns [''inline virtual'', ''seastar::future<smf::rpc_envelope>'']),
       Print_vars vars (lns [''$RawMethodName$(smf::rpc_recv_context &&c) {'']),
       Indent,
       Print_vars vars (lns [''using inner_t = $InType$;'',
         ''using input_t = smf::rpc_recv_typed_context<inner_t>;'',
         ''using mid_t = smf::rpc_typed_envelope<$OutType$>;'',
         ''return $MethodName$(input_t(std::move(c))).then([this](mid_t x) {'']),
       Indent,
       Print (lns [''return seastar::make_ready_future<smf::rpc_envelope>(x.serialize_data());'']),
       Outdent,
       Print (lns [''});'']),
       Outdent,
       Print (lns [''}''])])"

definition print_header_service :: "smf_service \<Rightarrow> printer_call list" where
  \<open>print_header_service s =
     (let vars = [''Service'' \<mapsto> s_name s, ''ServiceID'' \<mapsto> to_string (s_id s),
            ''ServiceHandleSize'' \<mapsto> dec_nat (length (s_methods s))] in
      [Print_vars vars (lns [''class $Service$: public smf::rpc_service {'']),
       Print (lns ['' private:'']),
       Print_vars vars (lns [''  std::array<smf::rpc_service_method_handle, $ServiceHandleSize$> handles_;'']),
       Print (lns ['' public:'']),
       Indent] @
      print_header_service_ctor_dtor s @
      [Print (lns [''virtual const char *'', ''service_name() const override final {'']),
       Indent,
       Print_vars vars (lns [''return "$Service$";'']),
       Outdent,
       Print (lns [''}'']),
       Print (lns [''virtual uint32_t'', ''service_id() const override final {'']),
       Indent,
       Print_vars vars (lns [''return $ServiceID$;'']),
       Outdent,
       Print (lns [''}'']),
       Print (lns [''virtual std::ostream &'', ''print(std::ostream &o) const override final {'']),
       Indent,
       Print (lns [''return o << *this;'']),
       Outdent,
       Print (lns [''}''])] @
      print_header_service_handles s @
      print_header_service_handle_request_id s @
      concat (map print_header_service_method (s_methods s)) @
      [Outdent,
       Print_vars vars (lns [''}; // end of service: $Service$''])])\<close>

section \<open>Clients\<close>

definition print_header_client_method :: "smf_method \<Rightarrow> printer_call list" where
  "print_header_client_method m =
     (let vars = [''RawMethodName'' \<mapsto> prefix_token ''raw'' (m_name m), ''MethodName'' \<mapsto> m_name m,
            ''MethodID'' \<mapsto> to_string (m_id m), ''ServiceID'' \<mapsto> to_string (m_service_id m),
            ''ServiceName'' \<mapsto> m_service_name m, ''InType'' \<mapsto> input_type_name m,
            ''OutType'' \<mapsto> output_type_name m] in
      [Print_vars vars (lns [''inline virtual'',
         ''seastar::future<smf::rpc_recv_typed_context<$OutType$>>'',
         ''$MethodName$(smf::rpc_typed_envelope<$InType$> x) {'']),
       Print_vars vars (lns [''  return $MethodName$(x.serialize_data());'']),
       Print (lns [''}'']),
       Print_vars vars (lns [''inline virtual'',
         ''seastar::future<smf::rpc_recv_typed_context<$OutType$>>'',
         ''$MethodName$(smf::rpc_envelope e) {'']),
       Indent,
       Print_vars vars (lns [''/// ServiceID: $ServiceID$'',
         ''/// MethodID:  $MethodID$'',
         ''e.set_request_id($ServiceID$ ^ $MethodID$);'',
         ''return send<$OutType$>(std::move(e));'']),
       Outdent,
       Print (lns [''}''])])"

definition print_header_client :: "smf_service \<Rightarrow> printer_call list" where
  \<open>print_header_client s =
     (let vars = [''ClientName'' \<mapsto> postfix_token (s_name s) ''client'',
            ''ServiceID'' \<mapsto> to_string (s_id s)] in
      [Print_vars vars ''class $ClientName$: '',
       Print (lns [''public smf::rpc_client {'']),
       Indent,
       Print (lns [''public:'']),
       Indent,
       Print_vars vars (lns [''explicit $ClientName$(seastar::ipv4_addr server_addr)'',
         '':smf::rpc_client(std::move(server_addr)) {}'']),
       Print_vars vars (lns [''explicit $ClientName$(smf::rpc_client_opts o)'',
         '':smf::rpc_client(std::move(o)) {}'']),
       Print_vars vars (lns [''$ClientName$($ClientName$ &&o) = default;'']),
       Print_vars vars (lns [''virtual ~$ClientName$() = default;'']),
       Print (lns [''virtual const char *name() const final {'']),
       Indent,
       Print_vars vars (lns [''return "$ClientName$";'']),
       Outdent,
       Print (lns [''}''])] @
      concat (map print_header_client_method (s_methods s)) @
      [Outdent,
       Print_vars vars (lns [''}; // end of rpc client: $ClientName$'']),
       Outdent])\<close>

definition ostream_vars :: "smf_service \<Rightarrow> vars" where
  "ostream_vars s =
     [''FQDNService'' \<mapsto> join ''::'' (sv_namespace (s_def s) @ [s_name s]),
      ''ServiceID'' \<mapsto> to_string (s_id s), ''ServiceHandleSize'' \<mapsto> dec_nat (length (s_methods s))]"

definition ostream_method :: "smf_service \<Rightarrow> nat \<Rightarrow> printer_call list" where
  \<open>ostream_method s i =
     (let m = s_methods s ! i in
      (if i \<noteq> 0 then [Print (lns [''o << ", ";''])] else []) @
      [Print_vars ((ostream_vars s)(''MethodName'' \<mapsto> m_name m, ''InType'' \<mapsto> input_type_name m,
           ''OutType'' \<mapsto> output_type_name m, ''MethodId'' \<mapsto> to_string (m_id m)))
         (lns [''o << "method={id=$MethodId$, fn=$MethodName$($InType$):$OutType$}";''])])\<close>

definition print_std_ostream_services :: "smf_service \<Rightarrow> printer_call list" where
  \<open>print_std_ostream_services s =
     [Print (lns [''namespace std {'']),
      Indent,
      Print_vars (ostream_vars s)
        (lns [''inline ostream& operator<<(ostream &o, const $FQDNService$ &s) {'']),
      Indent,
      Print_vars (ostream_vars s)
        (lns [''o << "$FQDNService$={total_handles=$ServiceHandleSize$,";''])] @
     concat (map (ostream_method s) [0..<length (s_methods s)]) @
     [Print (lns [''return o << "}";'']),
      Outdent,
      Print (lns [''}'']),
      Outdent,
      Print (lns [''} // namespace std''])]\<close>

section \<open>The header file\<close>

definition file_vars :: "fb_lib \<Rightarrow> generator \<Rightarrow> vars" where
  "file_vars F g =
     [''filename'' \<mapsto> g_input_filename g,
      ''filename_identifier'' \<mapsto> file_name_identifier (input_filename_without_ext F g),
      ''filename_base'' \<mapsto> input_filename_without_ext F g, ''message_header_ext'' \<mapsto> ''_generated.h'']"

definition generate_header_prologue :: "fb_lib \<Rightarrow> generator \<Rightarrow> printer_call list" where
  "generate_header_prologue F g =
     [Print (lns [''// Generated by smfc.'']),
      Print (lns [''// Any local changes WILL BE LOST.'']),
      Print_vars (file_vars F g) (lns [''// source: $filename$''])] @
     map (\<lambda>f. Print_vars ((file_vars F g)(''header'' \<mapsto> f)) (lns [''// transitive fbs: $header$'']))
       (filter (\<lambda>f. f \<noteq> g_input_filename g) (ps_included (g_parser g))) @
     [Print (lns [''#pragma once'']),
      Print_vars (file_vars F g) (lns [''#ifndef SMF_$filename_identifier$_INCLUDED'']),
      Print_vars (file_vars F g) (lns [''#define SMF_$filename_identifier$_INCLUDED'', ''''])]"

text \<open>The inner loop shadows the variable of the outer one, and runs over all services again.\<close>

definition generate_header_prologue_forward_decl_external :: "generator \<Rightarrow> printer_call list" where
  "generate_header_prologue_forward_decl_external g =
     concat (map (\<lambda>srv. concat (map print_std_ostream_services (g_services g))) (g_services g)) @
     [Print (lns [''''])]"

definition generate_header_prologue_forward_decl :: "generator \<Rightarrow> printer_call list" where
  "generate_header_prologue_forward_decl g =
     concat (map (\<lambda>srv.
       (let vars = [''Service'' \<mapsto> s_name srv, ''ClientName'' \<mapsto> postfix_token (s_name srv) ''client''] in
        [Print_vars vars (lns [''class $Service$;'']),
         Print_vars vars (lns [''class $ClientName$;''])])) (g_services g)) @
     [Print (lns [''''])]"

definition generate_header_prologue_namespace :: "generator \<Rightarrow> printer_call list" where
  "generate_header_prologue_namespace g =
     (if package g = [] then []
      else map (\<lambda>part. Print_vars [''part'' \<mapsto> part] (lns [''namespace $part$ {''])) (package_parts g) @
        [Print (lns [''''])])"

definition include_headers :: "string list" where
  "include_headers =
     [''ostream'', ''seastar/core/sstring.hh'', ''smf/rpc_service.h'', ''smf/rpc_client.h'',
      ''smf/rpc_recv_typed_context.h'', ''smf/rpc_typed_envelope.h'', ''smf/log.h'']"

definition generate_header_prologue_includes :: "fb_lib \<Rightarrow> generator \<Rightarrow> printer_call list" where
  \<open>generate_header_prologue_includes F g =
     map (\<lambda>hdr. Print_vars [''header'' \<mapsto> hdr] (lns [''#include <$header$>''])) include_headers @
     [Print (lns ['''']),
      Print_vars ((file_vars F g)(''header'' \<mapsto> last include_headers))
        (lns [''#include "$filename_base$$message_header_ext$"'', ''''])]\<close>

definition generate_header_epilogue_namespace :: "fb_lib \<Rightarrow> generator \<Rightarrow> printer_call list" where
  "generate_header_epilogue_namespace F g =
     (let vars = [''filename'' \<mapsto> g_input_filename g,
            ''filename_identifier'' \<mapsto> file_name_identifier (input_filename_without_ext F g)] in
      (if package g = [] then []
       else map (\<lambda>part. Print_vars (vars(''part'' \<mapsto> part)) (lns [''}  // namespace $part$'']))
           (rev (package_parts g)) @
         [Print_vars (case package_parts g of [] \<Rightarrow> vars | part # _ \<Rightarrow> vars(''part'' \<mapsto> part)) (lns [''''])]) @
      [Print_vars (if package g = [] then vars
         else case package_parts g of [] \<Rightarrow> vars | part # _ \<Rightarrow> vars(''part'' \<mapsto> part)) (lns [''''])])"

definition generate_header_epilogue :: "fb_lib \<Rightarrow> generator \<Rightarrow> printer_call list" where
  "generate_header_epilogue F g =
     [Print (lns ['''', '''']),
      Print_vars [''filename'' \<mapsto> g_input_filename g,
          ''filename_identifier'' \<mapsto> file_name_identifier (input_filename_without_ext F g)]
        (lns [''#endif  // SMF_$filename_identifier$_INCLUDED''])]"

definition generate_header_services :: "generator \<Rightarrow> printer_call list" where
  "generate_header_services g =
     concat (map (\<lambda>srv. print_header_service srv @ [Print (lns [''''])] @ print_header_client srv @
       [Print (lns [''''])]) (g_services g))"

definition cpp_calls :: "fb_lib \<Rightarrow> generator \<Rightarrow> printer_call list" where
  "cpp_calls F g =
     generate_header_prologue F g @ generate_header_prologue_includes F g @
     generate_header_prologue_namespace g @ generate_header_prologue_forward_decl g @
     generate_header_epilogue_namespace F g @
     generate_header_prologue_forward_decl_external g @
     generate_header_prologue_namespace g @ generate_header_services g @
     generate_header_epilogue_namespace F g @ generate_header_epilogue F g"

definition cpp_output_filename :: "fb_lib \<Rightarrow> generator \<Rightarrow> string" where
  "cpp_output_filename F g = g_output_dir g @ ''/'' @ input_filename_without_ext F g @ ''.smf.fb.h''"

definition cpp_gen :: "fb_lib \<Rightarrow> 'f file_ops \<Rightarrow> generator \<Rightarrow> 'f \<Rightarrow> ('f \<times> string option) gen" where
  "cpp_gen F X g fs =
     (case printed (Inr (cpp_calls F g)) smf_printer_new of
        Inl e \<Rightarrow> Inl e
      | Inr t \<Rightarrow> Inr (save_contents_to_file X (cpp_output_filename F g) t fs))"

end
