(* ===== verification/Smfc_Cpp_Properties.thy ===== *)
theory Smfc_Cpp_Properties
  imports Smfc_Cpp
begin

text \<open>
  Properties of the C++ generator: for every well-formed schema it returns a text without placeholders,
  with balanced braces and parentheses and with the indentation given back.
\<close>

section \<open>Names\<close>

lemma plain_tokens [simp]:
  "plain s \<Longrightarrow> plain p \<Longrightarrow> plain (postfix_token s p)"
  "plain s \<Longrightarrow> plain p \<Longrightarrow> plain (prefix_token p s)"
proof -
  have u: "plain (upper_first t)" if "plain t" for t
    using that by (cases t) (simp_all add: upper_first_def plain_to_upper)
  have l: "plain (lower_vec ts)" if "list_all plain ts" for ts
    using that by (induction ts) (auto simp: lower_vec_def plain_def list_all_iff plain_to_lower)
  show "plain (postfix_token s p)" if "plain s" "plain p"
    using that by (auto simp: postfix_token_def intro!: u l)
  show "plain (prefix_token p s)" if "plain s" "plain p"
    using that by (auto simp: prefix_token_def intro!: u l)
qed

section \<open>Services and clients\<close>

lemma ctor_dtor_method_printed:
  assumes "wf_service s" "i < length (s_methods s)"
  shows "well_printed (ctor_dtor_method s i)"
  using assms by (simp add: ctor_dtor_method_def ctor_dtor_method_vars_def call_simps)

lemma print_header_service_ctor_dtor_printed:
  assumes "wf_service s"
  shows "well_printed (print_header_service_ctor_dtor s)"
  unfolding print_header_service_ctor_dtor_def Let_def
proof (rule well_printed_block)
  show "well_printed (concat (map (ctor_dtor_method s) [0..<length (s_methods s)]))"
    using assms by (auto intro!: well_printed_concat ctor_dtor_method_printed)
qed (use assms in \<open>simp add: call_simps\<close>)

lemma print_header_service_handle_request_id_printed:
  "well_printed (print_header_service_handle_request_id s)"
  unfolding print_header_service_handle_request_id_def
proof (rule well_printed_block)
  show "well_printed (map (request_id_case s) [0..<length (s_methods s)])"
    by (rule well_printed_map) (simp add: request_id_case_def call_simps)
qed (simp add: call_simps)

lemma print_header_service_handles_printed: "well_printed (print_header_service_handles s)"
  by (simp add: print_header_service_handles_def call_simps)

lemma print_header_service_method_printed:
  "wf_method m \<Longrightarrow> well_printed (print_header_service_method m)"
  by (simp add: print_header_service_method_def call_simps)

lemma print_header_client_method_printed:
  "wf_method m \<Longrightarrow> well_printed (print_header_client_method m)"
  by (simp add: print_header_client_method_def call_simps)

lemma print_header_client_printed:
  assumes "wf_service s"
  shows "well_printed (print_header_client s)"
  unfolding print_header_client_def Let_def
proof (rule well_printed_block)
  show "well_printed (concat (map print_header_client_method (s_methods s)))"
    using assms by (auto intro!: well_printed_concat print_header_client_method_printed)
qed (use assms in \<open>simp add: call_simps\<close>)

lemma ostream_method_printed:
  assumes "wf_service s" "i < length (s_methods s)"
  shows "well_printed (ostream_method s i)"
  using assms by (cases "i = 0") (simp_all add: ostream_method_def ostream_vars_def call_simps)

lemma print_std_ostream_services_printed:
  assumes "wf_service s"
  shows "well_printed (print_std_ostream_services s)"
  unfolding print_std_ostream_services_def
proof (rule well_printed_block)
  show "well_printed (concat (map (ostream_method s) [0..<length (s_methods s)]))"
    using assms by (auto intro!: well_printed_concat ostream_method_printed)
qed (use assms in \<open>simp add: ostream_vars_def call_simps\<close>)

lemma print_header_service_printed:
  assumes "wf_service s"
  shows "well_printed (print_header_service s)"
proof -
  have "well_printed (concat (map print_header_service_method (s_methods s)))"
    using assms by (auto intro!: well_printed_concat print_header_service_method_printed)
  with print_header_service_ctor_dtor_printed [OF assms] print_header_service_handles_printed [of s]
    print_header_service_handle_request_id_printed [of s] assms
  show ?thesis by (simp add: print_header_service_def call_simps depth_append)
qed

section \<open>The header file\<close>

lemma plain_hex: "n < 16 \<Longrightarrow> is_alnum (hex_digit n)"
proof -
  have "list_all is_alnum (map hex_digit [0..<16])" by code_simp
  then show "n < 16 \<Longrightarrow> is_alnum (hex_digit n)" by (simp add: list_all_iff)
qed

lemma ident_file_name: "list_all (\<lambda>c. is_alnum c \<or> c = CHR ''_'') (file_name_identifier s)"
proof (induction s)
  case (Cons c s)
  have "is_alnum (to_upper c)" if "is_alnum c"
    using that by (auto simp: to_upper_def is_alnum_def is_lower_def is_upper_def is_digit_def of_char_char_of)
  moreover have "(of_char c :: nat) div 16 < 16" "(of_char c :: nat) mod 16 < 16"
    by (simp_all add: less_mult_imp_div_less)
  ultimately show ?case using Cons by (simp add: plain_hex)
qed simp

lemma plain_file_name [simp]: "plain (file_name_identifier s)"
  using ident_file_name [of s] by (auto simp: plain_def list_all_iff plain_alnum)

lemma generate_header_prologue_printed:
  assumes "wf_generator F g"
  shows "well_printed (generate_header_prologue F g)"
  unfolding generate_header_prologue_def
proof (rule well_printed_block)
  show "well_printed (map (\<lambda>f. Print_vars ((file_vars F g)(''header'' \<mapsto> f)) (lns [''// transitive fbs: $header$'']))
       (filter (\<lambda>f. f \<noteq> g_input_filename g) (ps_included (g_parser g))))"
    using assms by (intro well_printed_map) (auto simp: file_vars_def call_simps)
qed (use assms in \<open>simp add: file_vars_def call_simps\<close>)

lemma generate_header_prologue_includes_printed:
  "wf_generator F g \<Longrightarrow> well_printed (generate_header_prologue_includes F g)"
  by (simp add: generate_header_prologue_includes_def include_headers_def file_vars_def call_simps)

lemma generate_header_prologue_forward_decl_printed:
  assumes "wf_generator F g"
  shows "well_printed (generate_header_prologue_forward_decl g)"
  unfolding generate_header_prologue_forward_decl_def
proof (rule well_printed_append, rule well_printed_concat)
  fix cs assume "cs \<in> set (map (\<lambda>srv.
       (let vars = [''Service'' \<mapsto> s_name srv, ''ClientName'' \<mapsto> postfix_token (s_name srv) ''client''] in
        [Print_vars vars (lns [''class $Service$;'']),
         Print_vars vars (lns [''class $ClientName$;''])])) (g_services g))"
  with assms show "well_printed cs" by (auto simp: call_simps)
qed (simp add: call_simps)

lemma generate_header_prologue_forward_decl_external_printed:
  assumes "wf_generator F g"
  shows "well_printed (generate_header_prologue_forward_decl_external g)"
  unfolding generate_header_prologue_forward_decl_external_def
proof (rule well_printed_append)
  show "well_printed [Print (lns [''''])]" by (simp add: call_simps)
qed (use assms in \<open>auto intro!: well_printed_concat print_std_ostream_services_printed\<close>)

lemma generate_header_services_printed:
  assumes "wf_generator F g"
  shows "well_printed (generate_header_services g)"
  unfolding generate_header_services_def
proof (rule well_printed_concat, clarsimp)
  fix srv assume "srv \<in> set (g_services g)"
  with assms have "wf_service srv" by simp
  from print_header_service_printed [OF this] print_header_client_printed [OF this]
  show "well_printed (print_header_service srv @ Print (lns [[]]) # print_header_client srv @ [Print (lns [[]])])"
    by (simp add: call_simps depth_append)
qed

lemma generate_header_epilogue_printed:
  "wf_generator F g \<Longrightarrow> well_printed (generate_header_epilogue F g)"
  by (simp add: generate_header_epilogue_def call_simps)

text \<open>The namespaces: what the prologue opens the epilogue closes.\<close>

lemma namespaced_printed:
  assumes "wf_generator F g" "well_printed cs"
  shows "well_printed (generate_header_prologue_namespace g @ cs @ generate_header_epilogue_namespace F g)"
proof -
  have "list_all good_call (generate_header_prologue_namespace g)"
    "list_all good_call (generate_header_epilogue_namespace F g)"
    using assms(1) by (auto simp: generate_header_prologue_namespace_def list_all_iff
        generate_header_epilogue_namespace_def call_simps split: list.splits)
  moreover have "depth n (generate_header_prologue_namespace g) = Some n"
    "depth n (generate_header_epilogue_namespace F g) = Some n" for n
    by (auto simp: generate_header_prologue_namespace_def generate_header_epilogue_namespace_def Let_def
        intro!: depth_prints)
  moreover have "net (CHR ''('') (CHR '')'') (generate_header_prologue_namespace g) = 0"
    "net (CHR ''('') (CHR '')'') (generate_header_epilogue_namespace F g) = 0"
    by (simp_all add: generate_header_prologue_namespace_def generate_header_epilogue_namespace_def Let_def
        lns_def net_map)
  moreover have "net (CHR ''{'') (CHR ''}'') (generate_header_epilogue_namespace F g) =
      - net (CHR ''{'') (CHR ''}'') (generate_header_prologue_namespace g)"
    by (simp add: generate_header_prologue_namespace_def generate_header_epilogue_namespace_def Let_def
        lns_def net_map)
  ultimately show ?thesis using assms(2) by (simp add: well_printed_def depth_append)
qed

lemma cpp_calls_printed:
  assumes "wf_generator F g"
  shows "well_printed (cpp_calls F g)"
proof -
  note parts = generate_header_prologue_printed [OF assms] generate_header_prologue_includes_printed [OF assms]
    namespaced_printed [OF assms generate_header_prologue_forward_decl_printed [OF assms]]
    generate_header_prologue_forward_decl_external_printed [OF assms]
    namespaced_printed [OF assms generate_header_services_printed [OF assms]]
    generate_header_epilogue_printed [OF assms]
  have "cpp_calls F g = generate_header_prologue F g @ generate_header_prologue_includes F g @
     (generate_header_prologue_namespace g @ generate_header_prologue_forward_decl g @
       generate_header_epilogue_namespace F g) @
     generate_header_prologue_forward_decl_external g @
     (generate_header_prologue_namespace g @ generate_header_services g @
       generate_header_epilogue_namespace F g) @ generate_header_epilogue F g"
    by (simp add: cpp_calls_def)
  then show ?thesis using parts by (simp only: well_printed_append)
qed

section \<open>Properties\<close>

interpretation cpp: printing_generator "\<lambda>g. Inr (cpp_calls F g)" "wf_generator F" smf_printer_new for F
proof
  fix g assume "wf_generator F g"
  then show "\<exists>cs. Inr (cpp_calls F g) = Inr cs \<and> well_printed cs" by (simp add: cpp_calls_printed)
qed (simp_all add: smf_printer_new_def)

text \<open>
  The C++ generator returns for every schema whose names are identifiers: it saves a header in which
  every placeholder is replaced, and braces and parentheses balance.
\<close>

theorem cpp_header_complete:
  assumes "wf_generator F g"
  shows "\<exists>header. cpp_gen F X g fs = Inr (save_contents_to_file X (cpp_output_filename F g) header fs) \<and>
    complete_text header"
  using cpp.returns [OF assms] by (auto simp: cpp_gen_def)

theorem cpp_header_complete_witness:
  "cpp_gen sample_lib no_files sample_generator () = Inr ((), None)"
  using cpp_header_complete [OF sample_generator_wf, of no_files "()"]
  by (auto simp: save_contents_to_file_def no_files_def)

lemma cpp_padding:
  "padding smf_printer_new 0 = ''''" "padding smf_printer_new (Suc 0) = ''  ''"
  "padding smf_printer_new (Suc (Suc 0)) = ''    ''"
  by code_simp+

lemma request_id_case_text:
  "layout pad n (request_id_case s i # cs) =
     pad n @ ''case ('' @ to_string (m_service_id (s_methods s ! i)) @ '' ^ '' @
       to_string (m_id (s_methods s ! i)) @ ''): return &handles_['' @ dec_nat i @ ''];'' @ [LF] @ layout pad n cs"
proof -
  have d: "LF \<notin> set (dec_nat k)" "CHR 0x00 \<notin> set (dec_nat k)" for k
    by (simp_all add: plain_not_in)
  then show ?thesis
    by (simp add: request_id_case_def lns_def fill.simps Let_def c_str_def takeWhile_append
        print_lines.simps [of "pad n"] dropWhile_append)
qed

text \<open>
  C22. The dispatch function of a generated service is a switch with one case per method, in the order of
  the schema: the label of the \<open>i\<close>-th case is the service id exclusive-or the method id, and it
  returns the address of the \<open>i\<close>-th handle; everything else is \<^verbatim>\<open>nullptr\<close>.
\<close>

theorem dispatch_switch:
  "emit (print_header_service_handle_request_id s) smf_printer_new =
     Inr (smf_printer_new\<lparr>out := lns (
       [''virtual smf::rpc_service_method_handle *'',
        ''method_for_request_id(uint32_t idx) override final {'',
        ''  switch(idx){''] @
       map (\<lambda>i. ''    case ('' @ to_string (m_service_id (s_methods s ! i)) @ '' ^ '' @
           to_string (m_id (s_methods s ! i)) @ ''): return &handles_['' @ dec_nat i @ ''];'')
         [0..<length (s_methods s)] @
       [''    default: return nullptr;'', ''  }'', ''}''])\<rparr>)"
proof -
  let ?cs = "print_header_service_handle_request_id s"
  let ?pad = "padding smf_printer_new"
  have cases: "layout ?pad (Suc (Suc 0)) (map (request_id_case s) is) =
      lns (map (\<lambda>i. ''    case ('' @ to_string (m_service_id (s_methods s ! i)) @ '' ^ '' @
           to_string (m_id (s_methods s ! i)) @ ''): return &handles_['' @ dec_nat i @ ''];'') is)" for "is"
    by (induction "is") (simp_all add: request_id_case_text cpp_padding lns_def)
  have emit: "emit ?cs smf_printer_new = Inr (smf_printer_new\<lparr>out := layout ?pad 0 ?cs\<rparr>)"
    using emit_layout [of ?cs 0 0 smf_printer_new] print_header_service_handle_request_id_printed [of s]
      good_call_text(1) by (auto simp: smf_printer_new_def well_printed_def list_all_iff)
  have "depth (Suc (Suc 0)) (map (request_id_case s) is) = Some (Suc (Suc 0))" for "is"
    by (rule depth_prints) (auto simp: request_id_case_def Let_def)
  then show ?thesis unfolding emit
    by (simp add: print_header_service_handle_request_id_def layout_append cases print_lines.simps
        cpp_padding lns_def)
qed

text \<open>
  C40. The include guard of a generated header is an identifier, whatever the file is called. Different
  file names can share one: the hexadecimal escapes are not distinguished from the text of a name.
\<close>

theorem include_guard:
  "ident (''SMF_'' @ file_name_identifier s @ ''_INCLUDED'') \<and>
   file_name_identifier ''a@'' = file_name_identifier ''a_40''"
proof
  show "ident (''SMF_'' @ file_name_identifier s @ ''_INCLUDED'')"
    using ident_file_name [of s] by (simp add: ident_def is_alnum_def is_upper_def)
  show "file_name_identifier ''a@'' = file_name_identifier ''a_40''" by code_simp
qed

end
