(* ===== verification/Smfc_Go.thy ===== *)
theory Smfc_Go
  imports Smfc_Service
begin

text \<open>
  The Go generator (\<^verbatim>\<open>smfc/go_generator.cc\<close>, \<^verbatim>\<open>go_generator.h\<close>): every function is the list of calls it makes
  on its printer. Variables that a loop leaves in the map, and that no later template mentions, are
  left out.
\<close>

section \<open>Servers\<close>

definition go_public_name :: "string \<Rightarrow> string" where
  "go_public_name s = (case s of [] \<Rightarrow> [] | c # cs \<Rightarrow> to_upper c # cs)"

definition go_print_server_method :: "smf_method \<Rightarrow> printer_call list" where
  "go_print_server_method m =
     (let vars = [''InterfaceName'' \<mapsto> go_public_name (m_service_name m),
            ''ServiceName'' \<mapsto> go_public_name (m_service_name m) @ ''Service'',
            ''MethodID'' \<mapsto> to_string (m_id m),
            ''RawMethodName'' \<mapsto> ''Raw'' @ go_public_name (m_name m),
            ''MethodName'' \<mapsto> go_public_name (m_name m),
            ''InType'' \<mapsto> go_input_type_name m] in
      [Print_vars vars (lns [''func (s *$ServiceName$) $RawMethodName$(ctx context.Context, req []byte) ([]byte, error) {'']),
       Indent,
       Print_vars vars (lns [''return s.$InterfaceName$.$MethodName$(ctx, GetRootAs$InType$(req, 0))'']),
       Outdent,
       Print (lns [''}'', ''''])])"

definition go_service_vars :: "smf_service \<Rightarrow> vars" where
  "go_service_vars s =
     [''InterfaceName'' \<mapsto> go_public_name (s_name s),
      ''ServiceName'' \<mapsto> go_public_name (s_name s) @ ''Service'', ''ServiceID'' \<mapsto> to_string (s_id s)]"

definition go_jump_case :: "smf_service \<Rightarrow> smf_method \<Rightarrow> printer_call list" where
  "go_jump_case s m =
     (let vars = (go_service_vars s)(''MethodID'' \<mapsto> to_string (m_id m),
            ''RawMethodName'' \<mapsto> ''Raw'' @ go_public_name (m_name m)) in
      [Print_vars vars (lns [''case $ServiceID$ ^ $MethodID$:'']),
       Indent,
       Print_vars vars (lns [''return s.$RawMethodName$'']),
       Outdent])"

definition go_print_server_jump_table :: "smf_service \<Rightarrow> printer_call list" where
  "go_print_server_jump_table s =
     [Print_vars (go_service_vars s) (lns [''func (s *$ServiceName$) MethodHandle(id uint32) smf.RawHandle {'']),
      Indent,
      Print (lns [''switch id {''])] @
     concat (map (go_jump_case s) (s_methods s)) @
     [Print (lns [''default:'']),
      Indent,
      Print (lns [''return nil'']),
      Outdent,
      Print (lns [''}'']),
      Outdent,
      Print (lns [''}'', ''''])]"

definition go_interface_method :: "smf_service \<Rightarrow> smf_method \<Rightarrow> printer_call" where
  "go_interface_method s m =
     Print_vars ((go_service_vars s)(''MethodName'' \<mapsto> go_public_name (m_name m), ''InType'' \<mapsto> go_input_type_name m))
       (lns [''$MethodName$(context.Context, *$InType$) ([]byte, error)''])"

definition go_print_server :: "smf_service \<Rightarrow> printer_call list" where
  \<open>go_print_server s =
     (let vars = go_service_vars s in
      [Print_vars vars (lns ['''', ''// $InterfaceName$ - $InterfaceName$ Server interface'']),
       Print_vars vars (lns [''type $InterfaceName$ interface {'']),
       Indent] @
      map (go_interface_method s) (s_methods s) @
      [Outdent,
       Print (lns [''}'', '''']),
       Print_vars vars (lns [''type $ServiceName$ struct {'']),
       Indent,
       Print_vars vars (lns [''$InterfaceName$'']),
       Outdent,
       Print (lns [''}'', '''']),
       Print_vars vars (lns [''func New$ServiceName$(s $InterfaceName$) *$ServiceName$ {'']),
       Indent,
       Print_vars vars (lns [''return &$ServiceName${$InterfaceName$: s}'']),
       Outdent,
       Print (lns [''}'', '''']),
       Print_vars vars (lns [''func (s *$ServiceName$) ServiceName() string {'']),
       Indent,
       Print_vars vars (lns [''return "$InterfaceName$"'']),
       Outdent,
       Print (lns [''}'', '''']),
       Print_vars vars (lns [''func (s *$ServiceName$) ServiceID() uint32 {'']),
       Indent,
       Print_vars vars (lns [''return $ServiceID$'']),
       Outdent,
       Print (lns [''}'', ''''])] @
      go_print_server_jump_table s @
      concat (map go_print_server_method (s_methods s)))\<close>

section \<open>Clients\<close>

definition go_print_client_method :: "smf_method \<Rightarrow> printer_call list" where
  "go_print_client_method m =
     (let vars = [''InterfaceName'' \<mapsto> go_public_name (m_service_name m),
            ''ClientName'' \<mapsto> go_public_name (m_service_name m) @ ''Client'',
            ''MethodID'' \<mapsto> to_string (m_id m), ''ServiceID'' \<mapsto> to_string (m_service_id m),
            ''RawMethodName'' \<mapsto> ''Raw'' @ go_public_name (m_name m),
            ''MethodName'' \<mapsto> go_public_name (m_name m), ''OutputType'' \<mapsto> go_output_type_name m] in
      [Print_vars vars (lns [''func (s *$ClientName$) $MethodName$(ctx context.Context, req []byte) (*$OutputType$, error) {'']),
       Indent,
       Print_vars vars (lns [''res, err := s.$RawMethodName$(ctx, req)'', ''if err != nil {'']),
       Indent,
       Print (lns [''return nil, err'']),
       Outdent,
       Print (lns [''}'']),
       Print_vars vars (lns [''return GetRootAs$OutputType$(res, 0), nil'']),
       Outdent,
       Print (lns [''}'', '''']),
       Print_vars vars (lns [''func (s *$ClientName$) $RawMethodName$(ctx context.Context, req []byte) ([]byte, error) {'']),
       Indent,
       Print_vars vars (lns [''return s.Client.SendRecv(req, $ServiceID$^$MethodID$)'']),
       Outdent,
       Print (lns [''}''])])"

definition go_print_client :: "smf_service \<Rightarrow> printer_call list" where
  "go_print_client s =
     (let vars = [''InterfaceName'' \<mapsto> go_public_name (s_name s),
            ''ClientName'' \<mapsto> go_public_name (s_name s) @ ''Client'', ''ServiceID'' \<mapsto> to_string (s_id s)] in
      [Print (lns [''// Client'']),
       Print_vars vars (lns [''type $ClientName$ struct {'']),
       Indent,
       Print_vars vars (lns [''*smf.Client'']),
       Outdent,
       Print (lns [''}'', '''']),
       Print_vars vars (lns [''func New$ClientName$(c *smf.Client) *$ClientName$ {'']),
       Indent,
       Print_vars vars (lns [''return &$ClientName${Client: c}'']),
       Outdent,
       Print (lns [''}'', ''''])] @
      concat (map go_print_client_method (s_methods s)))"

section \<open>The file\<close>

text \<open>\<^verbatim>\<open>package_parts().back()\<close> is undefined for a schema without a namespace.\<close>

definition go_generate_header_prologue :: "generator \<Rightarrow> printer_call list gen" where
  "go_generate_header_prologue g =
     (if package_parts g = [] then Inl (Abort ''back() of an empty vector'')
      else (let vars = [''filename'' \<mapsto> g_input_filename g, ''package'' \<mapsto> last (package_parts g)] in
        Inr [Print (lns [''// Generated by smfc.'']),
          Print (lns [''// Any local changes WILL BE LOST.'']),
          Print_vars vars (lns [''// source: $filename$'']),
          Print_vars vars (lns [''package $package$'', ''''])]))"

definition go_generate_header_includes :: "printer_call list" where
  \<open>go_generate_header_includes =
     [Print (lns [''import ('']),
      Indent,
      Print (lns [''"context"'', ''"github.com/smfrpc/smf-go/src/smf"'']),
      Outdent,
      Print (lns ['')''])]\<close>

definition go_generate_header_services :: "generator \<Rightarrow> printer_call list" where
  "go_generate_header_services g =
     concat (map go_print_server (g_services g)) @ concat (map go_print_client (g_services g))"

definition go_calls :: "generator \<Rightarrow> printer_call list gen" where
  "go_calls g =
     (case go_generate_header_prologue g of
        Inl e \<Rightarrow> Inl e
      | Inr cs \<Rightarrow> Inr (cs @ go_generate_header_includes @ go_generate_header_services g))"

definition go_printer :: smf_printer where
  "go_printer = set_indent_step 1 (set_indent_char (CHR 0x09) smf_printer_new)"

definition go_output_filename :: "fb_lib \<Rightarrow> generator \<Rightarrow> string" where
  "go_output_filename F g =
     g_output_dir g @ ''/'' @ concat (map (\<lambda>p. p @ ''/'') (package_parts g)) @
     input_filename_without_ext F g @ ''.smf.fb.go''"

text \<open>The directories are created relative to the current directory, not to \<open>output_dir\<close>.\<close>

definition go_gen :: "fb_lib \<Rightarrow> 'f file_ops \<Rightarrow> generator \<Rightarrow> 'f \<Rightarrow> ('f \<times> string option) gen" where
  "go_gen F X g fs =
     (case printed (go_calls g) go_printer of
        Inl e \<Rightarrow> Inl e
      | Inr t \<Rightarrow> (case mkdirs_op X (join ''/'' (package_parts g)) fs of
           None \<Rightarrow> Inl (Abort ''filesystem_error'')
         | Some fs1 \<Rightarrow> Inr (save_contents_to_file X (go_output_filename F g) t fs1)))"

section \<open>What the generator prints\<close>

lemma plain_go_public_name [simp]: "plain s \<Longrightarrow> plain (go_public_name s)"
  by (cases s) (simp_all add: go_public_name_def plain_to_upper)

lemma go_print_server_method_printed: "wf_method m \<Longrightarrow> well_printed (go_print_server_method m)"
  by (simp add: go_print_server_method_def call_simps)

lemma go_print_client_method_printed: "wf_method m \<Longrightarrow> well_printed (go_print_client_method m)"
  by (simp add: go_print_client_method_def call_simps)

lemma go_print_server_jump_table_printed:
  assumes "wf_service s"
  shows "well_printed (go_print_server_jump_table s)"
  unfolding go_print_server_jump_table_def
proof (rule well_printed_block)
  show "well_printed (concat (map (go_jump_case s) (s_methods s)))"
    using assms by (intro well_printed_concat) (auto simp: go_jump_case_def go_service_vars_def call_simps)
qed (use assms in \<open>simp add: go_service_vars_def call_simps\<close>)

lemma go_print_server_printed:
  assumes "wf_service s"
  shows "well_printed (go_print_server s)"
proof -
  have "well_printed (map (go_interface_method s) (s_methods s))"
    using assms by (intro well_printed_map) (auto simp: go_interface_method_def go_service_vars_def call_simps)
  moreover have "well_printed (concat (map go_print_server_method (s_methods s)))"
    using assms by (auto intro!: well_printed_concat go_print_server_method_printed)
  moreover note go_print_server_jump_table_printed [OF assms]
  ultimately show ?thesis
    using assms by (simp add: go_print_server_def go_service_vars_def call_simps depth_append)
qed

lemma go_print_client_printed:
  assumes "wf_service s"
  shows "well_printed (go_print_client s)"
proof -
  have "well_printed (concat (map go_print_client_method (s_methods s)))"
    using assms by (auto intro!: well_printed_concat go_print_client_method_printed)
  then show ?thesis using assms by (simp add: go_print_client_def call_simps depth_append)
qed

lemma go_generate_header_services_printed:
  assumes "wf_generator F g"
  shows "well_printed (go_generate_header_services g)"
  unfolding go_generate_header_services_def using assms
  by (auto intro!: well_printed_append well_printed_concat go_print_server_printed go_print_client_printed)

lemma go_calls_printed:
  assumes "wf_generator F g" "package_parts g \<noteq> []"
  shows "\<exists>cs. go_calls g = Inr cs \<and> well_printed cs"
proof -
  obtain cs where "go_generate_header_prologue g = Inr cs" "well_printed cs"
    using assms by (simp add: go_generate_header_prologue_def call_simps)
  moreover have "well_printed go_generate_header_includes"
    by (simp add: go_generate_header_includes_def call_simps)
  ultimately show ?thesis
    using go_generate_header_services_printed [OF assms(1)] by (simp add: go_calls_def)
qed

interpretation go: printing_generator go_calls "\<lambda>g. wf_generator F g \<and> package_parts g \<noteq> []" go_printer for F
proof
  fix g assume "wf_generator F g \<and> package_parts g \<noteq> []"
  then show "\<exists>cs. go_calls g = Inr cs \<and> well_printed cs" using go_calls_printed by blast
qed (simp_all add: go_printer_def set_indent_char_def set_indent_step_def smf_printer_new_def)

end
