(* ===== verification/Smfc_Python.thy ===== *)
theory Smfc_Python
  imports Smfc_Service "HOL-Library.List_Lexorder" "HOL-Library.Char_ord"
begin

text \<open>
  The Python generator (\<^verbatim>\<open>smfc/python_generator.cc\<close>, \<^verbatim>\<open>python_generator.h\<close>): every function is the list of
  calls it makes on its printer.
\<close>

section \<open>Clients\<close>

definition python_public_name :: "string \<Rightarrow> string" where
  "python_public_name s = (case s of [] \<Rightarrow> [] | c # cs \<Rightarrow> to_upper c # cs)"

definition python_print_client_method :: "smf_method \<Rightarrow> printer_call list" where
  "python_print_client_method m =
     (let vars = [''MethodName'' \<mapsto> python_public_name (m_name m), ''MethodID'' \<mapsto> to_string (m_id m),
            ''ServiceID'' \<mapsto> to_string (m_service_id m), ''OutType'' \<mapsto> python_output_type_name m,
            ''RequestID'' \<mapsto> to_string (xor (m_service_id m) (m_id m))] in
      [Print_vars vars (lns [''async def $MethodName$(self, x):'']),
       Indent,
       Print_vars vars (lns [''# request id = $ServiceID$ ^ $MethodID$'']),
       Print_vars vars (lns [''buf, status = await self._conn.call(x, $RequestID$)'']),
       Print_vars vars (lns [''return $OutType$.GetRootAsPutResponse(buf, 0), status'']),
       Outdent])"

definition python_client_method :: "smf_service \<Rightarrow> nat \<Rightarrow> printer_call list" where
  "python_client_method s i =
     [Indent] @ python_print_client_method (s_methods s ! i) @ [Outdent] @
     (if i + 1 < length (s_methods s) then [Print (lns [''''])] else [])"

definition python_print_client :: "smf_service \<Rightarrow> printer_call list" where
  "python_print_client s =
     (let vars = [''InterfaceName'' \<mapsto> python_public_name (s_name s),
            ''ClientName'' \<mapsto> python_public_name (s_name s) @ ''Client'', ''ServiceID'' \<mapsto> to_string (s_id s)] in
      [Print_vars vars (lns [''class $ClientName$:'']),
       Indent,
       Print (lns [''def __init__(self, conn):'']),
       Indent,
       Print (lns [''self._conn = conn'', '''']),
       Outdent,
       Outdent] @
      concat (map (python_client_method s) [0..<length (s_methods s)]))"

section \<open>The file\<close>

definition python_generate_header_prologue :: "generator \<Rightarrow> printer_call list" where
  "python_generate_header_prologue g =
     [Print (lns [''# Generated by smfc.'']),
      Print (lns [''# Any local changes WILL BE LOST.'']),
      Print_vars [''filename'' \<mapsto> g_input_filename g] (lns [''# source: $filename$'', ''''])]"

definition rfind :: "char \<Rightarrow> string \<Rightarrow> nat option" where
  "rfind c s = (case dropWhile (\<lambda>d. d \<noteq> c) (rev s) of [] \<Rightarrow> None | _ # r \<Rightarrow> Some (length r))"

definition python_module :: "string \<Rightarrow> string gen" where
  "python_module type =
     (case rfind (CHR ''.'') type of
        None \<Rightarrow> Inl (Abort ''Invalid type'')
      | Some point \<Rightarrow> Inr (take point type))"

text \<open>\<^verbatim>\<open>std::set::insert\<close> on the sorted list of the elements.\<close>

fun set_insert :: "string \<Rightarrow> string list \<Rightarrow> string list" where
  "set_insert x [] = [x]"
| "set_insert x (y # ys) = (if x < y then x # y # ys else if x = y then y # ys else y # set_insert x ys)"

fun python_imports :: "smf_method list \<Rightarrow> string list \<Rightarrow> string list gen" where
  "python_imports [] imps = Inr imps"
| "python_imports (m # ms) imps =
     (case python_module (python_output_type_name m) of
        Inl e \<Rightarrow> Inl e
      | Inr md \<Rightarrow> python_imports ms (set_insert md imps))"

definition python_generate_header_includes :: "generator \<Rightarrow> printer_call list gen" where
  "python_generate_header_includes g =
     (case python_imports (concat (map s_methods (g_services g))) [] of
        Inl e \<Rightarrow> Inl e
      | Inr imps \<Rightarrow>
          Inr (concat (map (\<lambda>imp. [Print ''import '', Print (c_str imp), Print (lns [''''])]) imps) @
            [Print (lns [''''])]))"

definition python_generate_header_services :: "generator \<Rightarrow> printer_call list" where
  "python_generate_header_services g = concat (map python_print_client (g_services g))"

definition python_calls :: "generator \<Rightarrow> printer_call list gen" where
  "python_calls g =
     (case python_generate_header_includes g of
        Inl e \<Rightarrow> Inl e
      | Inr cs \<Rightarrow> Inr (python_generate_header_prologue g @ cs @ python_generate_header_services g))"

definition python_printer :: smf_printer where
  "python_printer = set_indent_step 4 (set_indent_char (CHR '' '') smf_printer_new)"

definition python_output_filename :: "fb_lib \<Rightarrow> generator \<Rightarrow> string" where
  "python_output_filename F g =
     g_output_dir g @ ''/'' @ concat (map (\<lambda>p. p @ ''/'') (package_parts g)) @
     input_filename_without_ext F g @ ''_smf_client.py''"

definition python_gen :: "fb_lib \<Rightarrow> 'f file_ops \<Rightarrow> generator \<Rightarrow> 'f \<Rightarrow> ('f \<times> string option) gen" where
  "python_gen F X g fs =
     (case printed (python_calls g) python_printer of
        Inl e \<Rightarrow> Inl e
      | Inr t \<Rightarrow> (case mkdirs_op X (join ''/'' (package_parts g)) fs of
           None \<Rightarrow> Inl (Abort ''filesystem_error'')
         | Some fs1 \<Rightarrow> Inr (save_contents_to_file X (python_output_filename F g) t fs1)))"

section \<open>What the generator prints\<close>

lemma plain_python_public_name [simp]: "plain s \<Longrightarrow> plain (python_public_name s)"
  by (cases s) (simp_all add: python_public_name_def plain_to_upper)

lemma python_print_client_method_printed:
  "wf_method m \<Longrightarrow> well_printed (python_print_client_method m)"
  by (simp add: python_print_client_method_def call_simps)

lemma python_client_method_printed:
  assumes "wf_service s" "i < length (s_methods s)"
  shows "well_printed (python_client_method s i)"
  using python_print_client_method_printed [of "s_methods s ! i"] assms
  by (simp add: python_client_method_def call_simps depth_append)

lemma python_print_client_printed:
  assumes "wf_service s"
  shows "well_printed (python_print_client s)"
proof -
  have "well_printed (concat (map (python_client_method s) [0..<length (s_methods s)]))"
    using assms by (auto intro!: well_printed_concat python_client_method_printed)
  then show ?thesis using assms by (simp add: python_print_client_def call_simps depth_append)
qed

text \<open>Every type has a module: what comes before the last dot.\<close>

lemma rfind_None: "rfind c s = None \<longleftrightarrow> c \<notin> set s"
proof -
  have "rfind c s = None \<longleftrightarrow> dropWhile (\<lambda>d. d \<noteq> c) (rev s) = []"
    by (cases "dropWhile (\<lambda>d. d \<noteq> c) (rev s)") (simp_all add: rfind_def del: dropWhile_eq_Nil_conv)
  then show ?thesis by auto
qed

lemma python_module_ok:
  assumes "wf_method m"
  shows "\<exists>md. python_module (python_output_type_name m) = Inr md \<and> plain md"
proof -
  have "CHR ''.'' \<in> set (join ''.'' (ns @ [a, b]))" for ns a b
  proof (induction ns)
    case (Cons n ns)
    then show ?case by (cases ns) simp_all
  qed simp
  then obtain point where "rfind (CHR ''.'') (python_output_type_name m) = Some point"
    using rfind_None [of "CHR ''.''" "python_output_type_name m"]
    by (auto simp: python_output_type_name_def python_type_def)
  moreover have "plain (take point (python_output_type_name m))"
    using wf_method_plain(7) [OF assms] by (auto simp: plain_def list_all_iff dest: in_set_takeD)
  ultimately show ?thesis by (simp add: python_module_def)
qed

lemma set_insert_set [simp]: "set (set_insert x xs) = insert x (set xs)"
  by (induction xs) auto

lemma set_insert_sorted: "sorted_wrt (<) xs \<Longrightarrow> sorted_wrt (<) (set_insert x xs)"
  by (induction xs) (auto simp: not_less intro: order.strict_trans)

lemma python_imports_ok:
  assumes "list_all wf_method ms" "list_all plain imps" "sorted_wrt (<) imps"
  shows "\<exists>is. python_imports ms imps = Inr is \<and> list_all plain is \<and> sorted_wrt (<) is \<and>
    set imps \<subseteq> set is"
  using assms
proof (induction ms arbitrary: imps)
  case (Cons m ms)
  obtain md where md: "python_module (python_output_type_name m) = Inr md" "plain md"
    using python_module_ok [of m] Cons.prems(1) by auto
  have "list_all plain (set_insert md imps)" using Cons.prems(2) md(2) by (auto simp: list_all_iff)
  then have "\<exists>is. python_imports ms (set_insert md imps) = Inr is \<and> list_all plain is \<and>
      sorted_wrt (<) is \<and> set (set_insert md imps) \<subseteq> set is"
    using Cons.prems by (intro Cons.IH) (simp_all add: set_insert_sorted)
  then show ?case using md(1) by auto
qed simp

lemma python_generate_header_includes_printed:
  assumes "wf_generator F g"
  shows "\<exists>cs. python_generate_header_includes g = Inr cs \<and> well_printed cs"
proof -
  have "list_all wf_method (concat (map s_methods (g_services g)))"
    using wf_generator_simps(5) [OF assms] by (fastforce simp: list_all_iff intro: wf_service_simps(3))
  then obtain "is" where "python_imports (concat (map s_methods (g_services g))) [] = Inr is" "list_all plain is"
    using python_imports_ok [of "concat (map s_methods (g_services g))" "[]"] by auto
  moreover have "well_printed [Print ''import '', Print (c_str i), Print (lns [''''])]" if "plain i" for i
    using that plain_not_in [of i]
    by (simp add: call_simps c_str_id)
  moreover have "well_printed [Print (lns [''''])]" by (simp add: call_simps)
  ultimately show ?thesis
    by (auto simp: python_generate_header_includes_def list_all_iff
        intro!: well_printed_append well_printed_concat)
qed

lemma python_calls_printed:
  assumes "wf_generator F g"
  shows "\<exists>cs. python_calls g = Inr cs \<and> well_printed cs"
proof -
  have "well_printed (python_generate_header_services g)"
    unfolding python_generate_header_services_def using assms
    by (auto intro!: well_printed_concat python_print_client_printed)
  moreover have "well_printed (python_generate_header_prologue g)"
    using assms by (simp add: python_generate_header_prologue_def call_simps)
  ultimately show ?thesis
    using python_generate_header_includes_printed [OF assms] by (auto simp: python_calls_def)
qed

interpretation py: printing_generator python_calls "wf_generator F" python_printer for F
proof
  fix g assume "wf_generator F g"
  then show "\<exists>cs. python_calls g = Inr cs \<and> well_printed cs" by (rule python_calls_printed)
qed (simp_all add: python_printer_def set_indent_char_def set_indent_step_def smf_printer_new_def)

end
