(* ===== verification/Smfc_Codegen.thy ===== *)
theory Smfc_Codegen
  imports Smfc_Cpp_Properties Smfc_Go Smfc_Python
begin

text \<open>
  The code generator's driver (\<^verbatim>\<open>smfc/codegen.cc\<close>, \<^verbatim>\<open>codegen.h\<close>) and its command line (\<^verbatim>\<open>main.cc\<close>). The
  flatbuffers parser (\<open>parse_op\<close>) is a parameter: what it knows and whether it accepted the text.
\<close>

section \<open>The driver\<close>

record codegen =
  cg_input_filename :: string
  cg_output_dir :: string
  cg_languages :: "language list"
  cg_include_dirs :: "string list"
  cg_parser :: fbs_parser
  cg_parsed :: bool

definition fresh_parser :: fbs_parser where
  "fresh_parser = \<lparr>ps_services = [], ps_package = '''', ps_components = [], ps_included = [], ps_error = ''''\<rparr>"


definition service_count :: "codegen \<Rightarrow> nat" where
  "service_count cg = (if \<not> cg_parsed cg then 0 else length (ps_services (cg_parser cg)))"

type_synonym parse_op = "string \<Rightarrow> string list \<Rightarrow> string \<Rightarrow> fbs_parser \<times> bool"

definition parse :: "parse_op \<Rightarrow> 'f file_ops \<Rightarrow> 'f \<Rightarrow> codegen \<Rightarrow> codegen \<times> string option" where
  "parse P X fs cg =
     (if cg_parsed cg then
        (cg, if ps_error (cg_parser cg) \<noteq> [] then Some (''Parser in error state: '' @ ps_error (cg_parser cg))
           else None)
      else
        (let cg1 = cg\<lparr>cg_parsed := True\<rparr> in
         case load_op X (cg_input_filename cg) fs of
           None \<Rightarrow> (cg1, Some (''Could not load file: '' @ cg_input_filename cg))
         | Some text \<Rightarrow>
            (let (p, ok) = P (c_str text) (cg_include_dirs cg) (cg_input_filename cg);
                 cg2 = cg1\<lparr>cg_parser := p\<rparr> in
             (cg2, if ok then None else Some (''Could not PARSE file: '' @ ps_error p)))))"




section \<open>The command line\<close>

fun boost_split :: "char \<Rightarrow> string \<Rightarrow> string list" where
  "boost_split c [] = [[]]"
| "boost_split c (d # s) =
     (if d = c then [] # boost_split c s
      else (case boost_split c s of [] \<Rightarrow> [[d]] | t # ts \<Rightarrow> (d # t) # ts))"








section \<open>Properties\<close>

text \<open>Splitting is the inverse of joining, and no part has a separator left.\<close>

lemma boost_split_ne [simp]: "boost_split c s \<noteq> []"
  by (induction s) (auto split: list.splits)

lemma boost_split_join: "join [c] (boost_split c s) = s"
proof (induction s)
  case (Cons d s)
  obtain t ts where ts: "boost_split c s = t # ts" by (cases "boost_split c s") auto
  then show ?case using Cons by (cases ts) auto
qed simp

lemma boost_split_parts: "t \<in> set (boost_split c s) \<Longrightarrow> c \<notin> set t"
  by (induction s arbitrary: t) (auto split: if_splits list.splits)







text \<open>A file system that is a map from names to texts, with the schema of the demo in it.\<close>

definition map_files :: "(string \<Rightarrow> string option) file_ops" where
  "map_files = \<lparr>exists_op = (\<lambda>n fs. fs n \<noteq> None), remove_op = (\<lambda>n fs. fs(n := None)),
     save_op = (\<lambda>n t fs. (fs(n \<mapsto> t), True)), load_op = (\<lambda>n fs. fs n), mkdirs_op = (\<lambda>_ fs. Some fs),
     canonical_op = (\<lambda>p _. Some p), dir_exists_op = (\<lambda>_ _. True)\<rparr>"

definition sample_codegen :: codegen where
  "sample_codegen = \<lparr>cg_input_filename = ''demo.fbs'', cg_output_dir = ''out'',
     cg_languages = [L_cpp, L_go, L_python], cg_include_dirs = [''''], cg_parser = fresh_parser,
     cg_parsed = False\<rparr>"

definition sample_parse :: parse_op where
  "sample_parse text includes name = (g_parser sample_generator, True)"








text \<open>
  A file that could not be loaded is reported once: \<^verbatim>\<open>parse\<close> has already marked the schema as parsed,
  so calling it again reports success, with no service.
\<close>

theorem load_failure_forgotten:
  assumes "load_op X (cg_input_filename cg) fs = None" "\<not> cg_parsed cg" "cg_parser cg = fresh_parser"
  shows "let (cg1, x) = parse P X fs cg; (cg2, y) = parse P X fs' cg1 in
    x = Some (''Could not load file: '' @ cg_input_filename cg) \<and> y = None \<and> service_count cg2 = 0"
  using assms by (simp add: parse_def fresh_parser_def service_count_def)

theorem load_failure_forgotten_witness:
  "let (cg1, x) = parse sample_parse map_files Map.empty sample_codegen;
       (cg2, y) = parse sample_parse map_files [''demo.fbs'' \<mapsto> ''''] cg1 in
    x = Some (''Could not load file: demo.fbs'') \<and> y = None \<and> service_count cg2 = 0"
  using load_failure_forgotten [of map_files sample_codegen Map.empty sample_parse "[''demo.fbs'' \<mapsto> '''']"]
  by (simp add: map_files_def sample_codegen_def)

end
