(* ===== verification/Smf_Utils.thy ===== *)
theory Smf_Utils
  imports Complex_Main Rpc_Header
begin

text \<open>
  The small helpers of the library: log prefixes (\<^verbatim>\<open>log.h\<close>), random strings (\<^verbatim>\<open>random.cc\<close>), times
  (\<^verbatim>\<open>time_utils.h\<close>), byte counts (\<^verbatim>\<open>human_bytes.h\<close>), the printed header (\<^verbatim>\<open>rpc_header_ostream.h\<close>) and
  buffers of one flatbuffers type (\<^verbatim>\<open>fbs_typed_buf.h\<close>).
\<close>

section \<open>Log prefixes\<close>

text \<open>The character at an index of a C string; the terminating NUL is the last one.\<close>

definition c_char :: "string \<Rightarrow> nat \<Rightarrow> char" where
  "c_char s i = (if i < length s then s ! i else CHR 0x00)"

text \<open>The offset of the pointer that is returned.\<close>

fun find_last_slash :: "string \<Rightarrow> nat \<Rightarrow> char \<Rightarrow> nat" where
  "find_last_slash file 0 x = 0"
| "find_last_slash file (Suc n) x =
     (if c_char file (Suc n) = x then Suc n + 1 else find_last_slash file n x)"

definition FILENAME :: "string \<Rightarrow> string" where
  "FILENAME file = drop (find_last_slash file (length file) (CHR ''/'')) file"

text \<open>\<^verbatim>\<open>fmt::sprintf\<close> has no placeholders of the form \<^verbatim>\<open>{}\<close>, so the message is the format.\<close>

definition throw_if_null :: "string \<Rightarrow> nat \<Rightarrow> string \<Rightarrow> 'a option \<Rightarrow> 'a fut" where
  "throw_if_null file line names t =
     (case t of None \<Rightarrow> Inl (Runtime_error ''{}:{}] check_not_null({})'') | Some x \<Rightarrow> Inr x)"

section \<open>Random strings\<close>

text \<open>\<open>draws i\<close> is what the distribution returns for the \<open>i\<close>-th character.\<close>

definition dict_char :: "string \<Rightarrow> nat \<Rightarrow> char" where
  "dict_char dict d = dict ! (d mod length dict)"

definition randstr :: "string \<Rightarrow> (nat \<Rightarrow> nat) \<Rightarrow> nat \<Rightarrow> string" where
  "randstr dict draws n = map (\<lambda>i. dict_char dict (draws i)) [0..<n]"

definition alphanum_dict :: string where
  "alphanum_dict = ''abcdefghijklmnopqrstuvwxyzABCDEFGHIJKLMNOPQRSTUVWXYZ1234567890''"

definition str_dict :: string where
  \<open>str_dict = alphanum_dict @ ''!@#$%^&*()'' @ ''`~-_=+[{]}|;:'' @ [CHR 0x27] @ ''",<.>/?''\<close>

definition next_str :: "(nat \<Rightarrow> nat) \<Rightarrow> nat \<Rightarrow> string" where
  "next_str draws n = randstr str_dict draws n"

definition next_alphanum :: "(nat \<Rightarrow> nat) \<Rightarrow> nat \<Rightarrow> string" where
  "next_alphanum draws n = randstr alphanum_dict draws n"

text \<open>The distribution draws from the closed range up to the size of the dictionary.\<close>

definition dict_draws :: "string \<Rightarrow> nat list" where
  "dict_draws dict = [0..<Suc (length dict)]"

section \<open>Times and sizes\<close>

text \<open>\<^verbatim>\<open>localtime\<close> is a parameter, \<open>None\<close> for a time it cannot represent.\<close>

record tm =
  tm_year :: int
  tm_mon :: int
  tm_mday :: int
  tm_hour :: int
  tm_min :: int
  tm_sec :: int

definition time_as_iso_8601 :: "(int \<Rightarrow> tm option) \<Rightarrow> u64 \<Rightarrow> string" where
  "time_as_iso_8601 localtime millisecs =
     (case localtime (sint (millisecs div 1000)) of
        None \<Rightarrow> ''''
      | Some t \<Rightarrow> dec_int (tm_year t + 1900) @ ''-'' @ dec_int (tm_mon t + 1) @ ''-'' @ dec_int (tm_mday t) @
          ''T'' @ dec_int (tm_hour t) @ '':'' @ dec_int (tm_min t) @ '':'' @ dec_int (tm_sec t))"

text \<open>The number and the unit that are printed, with three digits after the point.\<close>

definition human_bytes :: "rat \<Rightarrow> rat \<times> string" where
  "human_bytes d =
     (if d < 1024 then (if d < 1 then 0 else d, '' bytes'')
      else (let kb = d / 1024 in
        if kb < 1000 then (kb, '' KB'')
        else (let mb = kb / 1024 in
          if mb < 1000 then (mb, '' MB'')
          else (let gb = mb / 1024 in
            if gb < 1000 then (gb, '' GB'') else (gb, '' TB'')))))"

section \<open>The printed header\<close>

definition bitset8 :: "u8 \<Rightarrow> string" where
  "bitset8 w = map (\<lambda>i. if bit w i then CHR ''1'' else CHR ''0'') (rev [0..<8])"

definition header_ostream :: "(u8 \<Rightarrow> string) \<Rightarrow> header \<Rightarrow> string" where
  "header_ostream EnumName h =
     ''rpc::header={compression:'' @ EnumName (hdr_compression h) @
     '', header_bit_flags:'' @ bitset8 (hdr_bitflags h) @
     '', session:'' @ dec_nat (unat (hdr_session h)) @ '', size:'' @ dec_nat (unat (hdr_size h)) @
     '', checksum:'' @ dec_nat (unat (hdr_checksum h)) @ '', meta:'' @ dec_nat (unat (hdr_meta h)) @ ''}''"

section \<open>Typed buffers\<close>

text \<open>The root of a buffer (\<open>GetRoot\<close>) is flatbuffers' business.\<close>

record 'a fbs_typed_buf =
  tb_buf :: bytes
  tb_cache :: "'a option"

definition fbs_typed_buf_new :: "bool \<Rightarrow> (bytes \<Rightarrow> 'a) \<Rightarrow> bytes \<Rightarrow> 'a fbs_typed_buf fut" where
  "fbs_typed_buf_new dbg GetRoot body =
     dlog_throw_if dbg (length body = 0) ''Empty flatbuffers buffer''
       (Inr \<lparr>tb_buf = body, tb_cache = Some (GetRoot body)\<rparr>)"

definition typed_buf_get :: "'a fbs_typed_buf \<Rightarrow> 'a option" where
  "typed_buf_get b = tb_cache b"

text \<open>The buffer, and what is left after the caller has moved it out.\<close>

definition move_buf :: "'a fbs_typed_buf \<Rightarrow> bytes \<times> 'a fbs_typed_buf" where
  "move_buf b = (tb_buf b, b\<lparr>tb_cache := None, tb_buf := []\<rparr>)"

section \<open>Properties\<close>

lemma find_last_slash_take:
  "n < length file \<Longrightarrow>
     find_last_slash file n x = (if x \<in> set (take n (tl file)) then Suc n - length (takeWhile (\<lambda>c. c \<noteq> x) (rev (take n (tl file)))) else 0)"
proof (induction n)
  case (Suc n)
  have t: "take (Suc n) (tl file) = take n (tl file) @ [file ! Suc n]"
    using Suc.prems by (simp add: take_Suc_conv_app_nth nth_tl)
  show ?case using Suc by (auto simp: t c_char_def)
qed simp

text \<open>
  The name in a log line is the last component of the path, as long as the path has a slash after its
  first character; a slash in the first place is not looked at.
\<close>

theorem FILENAME_is_basename:
  "FILENAME (d # f) =
     (if CHR ''/'' \<in> set f then rev (takeWhile (\<lambda>c. c \<noteq> CHR ''/'') (rev f)) else d # f)"
proof -
  let ?k = "length (takeWhile (\<lambda>c. c \<noteq> CHR ''/'') (rev f))"
  have "find_last_slash (d # f) (length (d # f)) (CHR ''/'') = find_last_slash (d # f) (length f) (CHR ''/'')"
    by (simp add: c_char_def)
  also have "\<dots> = (if CHR ''/'' \<in> set f then Suc (length f) - ?k else 0)"
    using find_last_slash_take [of "length f" "d # f"] by simp
  finally have "FILENAME (d # f) = (if CHR ''/'' \<in> set f then drop (Suc (length f) - ?k) (d # f) else d # f)"
    by (simp add: FILENAME_def)
  moreover have "?k \<le> length f" using length_takeWhile_le [of _ "rev f"] by simp
  then have "drop (Suc (length f) - ?k) (d # f) = drop (length f - ?k) f" by (simp add: Suc_diff_le)
  moreover have "drop (length f - ?k) f = rev (takeWhile (\<lambda>c. c \<noteq> CHR ''/'') (rev f))"
    using rev_take [of ?k "rev f"] by (simp add: takeWhile_eq_take [symmetric])
  ultimately show ?thesis by simp
qed

text \<open>
  From a thousand gigabytes on, byte counts are printed in gigabytes but called terabytes: the last branch
  does not divide again.
\<close>

theorem human_bytes_terabytes:
  assumes "1000 * 1024 ^ 3 \<le> d"
  shows "human_bytes d = (d / 1024 ^ 3, '' TB'')"
  using assms by (simp add: human_bytes_def Let_def)

theorem human_bytes_terabytes_witness:
  "human_bytes (1024 ^ 4) = (1024, '' TB'')"
  using human_bytes_terabytes [of "1024 ^ 4"] by simp

text \<open>
  A random string has the length that was asked for, and all its characters are in the dictionary,
  whatever is drawn.
\<close>

theorem random_strings:
  "length (next_alphanum draws n) = n \<and> set (next_alphanum draws n) \<subseteq> set alphanum_dict \<and>
   length (next_str draws n) = n \<and> set (next_str draws n) \<subseteq> set str_dict"
proof -
  have "dict_char dict d \<in> set dict" if "dict \<noteq> []" for dict d
    using that by (simp add: dict_char_def)
  moreover have "alphanum_dict \<noteq> []" "str_dict \<noteq> []" by (simp_all add: alphanum_dict_def str_dict_def)
  ultimately show ?thesis by (auto simp: next_alphanum_def next_str_def randstr_def)
qed

text \<open>
  The first character of the dictionary is drawn twice as often as every other one: the range of the
  distribution includes the size of the dictionary.
\<close>

theorem random_strings_biased:
  assumes "c \<in> set alphanum_dict"
  shows "length (filter (\<lambda>d. dict_char alphanum_dict d = c) (dict_draws alphanum_dict)) =
    (if c = CHR ''a'' then 2 else 1)"
proof -
  have "list_all (\<lambda>c. length (filter (\<lambda>d. dict_char alphanum_dict d = c) (dict_draws alphanum_dict)) =
      (if c = CHR ''a'' then 2 else 1)) alphanum_dict"
    by code_simp
  then show ?thesis using assms by (simp add: list_all_iff)
qed

theorem random_strings_biased_witness:
  "length (filter (\<lambda>d. dict_char alphanum_dict d = CHR ''a'') (dict_draws alphanum_dict)) = 2"
  using random_strings_biased [of "CHR ''a''"] by (simp add: alphanum_dict_def)

end
