(* ===== verification/Spec2Isabelle.thy ===== *)
theory Spec2Isabelle
  imports Demo_Apps Rpc_Client_Progress Rpc_Reconnect Smfc_Codegen Smf_Utils
begin

text \<open>
  A verification library for smf, an RPC framework in C++ on seastar, and its code generator smfc.
  Paths below are relative to \<^verbatim>\<open>src/src\<close>.

  \<^bold>\<open>The program.\<close> A client stub that smfc generated packs a flatbuffers table into an envelope with a
  16-byte header; the client gives it a session, runs the outgoing filters and writes it. The server
  reads header and payload within a memory limit, checks them, runs the incoming filters, asks its router
  for the handle of the request id, runs the handle on a fiber of its own, and writes the reply through
  its outgoing filters. The client's reader gives each response to the call with its session. Beside
  this stand the reconnecting client, the latency histograms, a load generator and small helpers.

  \<^bold>\<open>How the code is modelled.\<close> A completed \<^verbatim>\<open>seastar::future\<close> is a value of \<open>'a fut\<close>, an exception or a
  result. Code that waits is cut at its waits: server, client, reconnecting client and benchmark are machines
  (\<^verbatim>\<open>Transition\<close>) whose state has the members of the class and, for each fiber, the place where it waits,
  and whose events say which fiber goes on and what its environment answered. A step is \<open>None\<close> when
  the event is not enabled, so schedules, timeouts, failed reads and writes and interleavings are event
  sequences. Machine integers are words, or \<open>int\<close> where a semaphore counts. Undefined behaviour and
  failed assertions are values (an exception, an aborted state). A generator function of smfc is the list of
  calls it makes on its printer, and \<open>emit\<close> runs them.

  \<^bold>\<open>Theories.\<close>
  \<^item> \<^verbatim>\<open>Smf_Prelude\<close>: word and byte types, little-endian integers, exceptions, futures, \<^verbatim>\<open>std::to_string\<close>,
    and the logging macros that throw (\<^verbatim>\<open>include/smf/log.h\<close>).
  \<^item> \<^verbatim>\<open>Rpc_Header\<close>, \<^verbatim>\<open>Rpc_Letter\<close>, \<^verbatim>\<open>Rpc_Connection\<close>, \<^verbatim>\<open>Rpc_Recv\<close>: the wire header (\<^verbatim>\<open>core/rpc.fbs\<close>),
    letters and envelopes, connections and their limits, and the two parsing functions of
    \<^verbatim>\<open>core/rpc_recv_context.cc\<close>. What was sent is received, exactly the streams that satisfy the guards are
    accepted, and pipelined messages are delivered in order.
  \<^item> \<^verbatim>\<open>Codec\<close>, \<^verbatim>\<open>Rpc_Filter\<close>, \<^verbatim>\<open>Compression_Filters\<close>: \<^verbatim>\<open>core/compression.cc\<close>, filter chains and the four
    compression filters. The locale \<open>lossless_codec\<close>, extended by \<open>compression_scheme\<close>, is interpreted
    for zstd and lz4; compression is invisible to the receiver.
  \<^item> \<^verbatim>\<open>Rpc_Router\<close>, \<^verbatim>\<open>Generated_Code\<close>: services, the router, and what the emitted C++ does. A stub reaches its
    method, and replies carry the session of their request (locale \<open>session_echo\<close>).
  \<^item> \<^verbatim>\<open>Rpc_Server\<close>: \<^verbatim>\<open>core/rpc_server.cc\<close> with its connections and statistics. \<^verbatim>\<open>Rpc_Server_Frame\<close> says
    what each operation leaves alone; \<^verbatim>\<open>Rpc_Server_Invariants\<close> and \<^verbatim>\<open>Rpc_Server_Replies\<close> interpret
    \<open>machine_invariant\<close> for well-formedness, memory, replies and counters; \<^verbatim>\<open>Rpc_Server_Properties\<close>
    has the properties: replies never mix, memory is never overcommitted, handlers see only valid requests,
    and where memory is lost. \<^verbatim>\<open>Rpc_Server_Progress\<close> shows that requests are answered in order from
    every reachable state and that they all end. \<^verbatim>\<open>Rpc_Server_Start\<close> has the arguments of a server and
    the sockets it listens on.
  \<^item> \<^verbatim>\<open>Rpc_Client\<close>, \<^verbatim>\<open>Rpc_Client_Invariants\<close>, \<^verbatim>\<open>Rpc_Client_Writes\<close>, \<^verbatim>\<open>Rpc_Client_Properties\<close>,
    \<^verbatim>\<open>Rpc_Client_Sessions\<close>: \<^verbatim>\<open>core/rpc_client.cc\<close> in the same way: calls are answered by the message with
    their session, requests never mix, failures wake every call, and what happens when sessions wrap
    around, when a client connects again, and when an abandoned reader ends.
    \<^verbatim>\<open>Rpc_Client_Progress\<close> shows that stopping ends, and that a message larger than the memory keeps
    it from ending.
  \<^item> \<^verbatim>\<open>Transition\<close>, \<^verbatim>\<open>Draining\<close>: machines, their runs and the locales \<open>machine_invariant\<close> and
    \<open>draining_machine\<close> (a machine some of whose events use up work and can not all be blocked), which the
    server and the client interpret.
  \<^item> \<^verbatim>\<open>Rpc_Reconnect\<close>: \<^verbatim>\<open>include/smf/reconnect_client.h\<close> over the client machine: the backoff schedule, what
    fibers sleep for, and what stopping waits for.
  \<^item> \<^verbatim>\<open>Histogram\<close>: \<^verbatim>\<open>core/histogram.cc\<close>, the adder and the writer. Sample counts and sums refine the list of
    recorded values, and the metrics buckets are characterised for every library iterator.
  \<^item> \<^verbatim>\<open>Load_Generator\<close>: \<^verbatim>\<open>include/smf/load_generator.h\<close> and its channels; how many requests a benchmark sends.
  \<^item> \<^verbatim>\<open>Smf_Utils\<close>: log prefixes, random strings, dates, byte counts, typed buffers.
  \<^item> \<^verbatim>\<open>Smfc_Printer\<close>, \<^verbatim>\<open>Smfc_Service\<close>, \<^verbatim>\<open>Smfc_Cpp\<close>, \<^verbatim>\<open>Smfc_Cpp_Properties\<close>, \<^verbatim>\<open>Smfc_Go\<close>, \<^verbatim>\<open>Smfc_Python\<close>,
    \<^verbatim>\<open>Smfc_Codegen\<close>: the directory \<^verbatim>\<open>smfc\<close>: printer, schema, the three generators, the driver and
    the command line. The locale \<open>printing_generator\<close> is interpreted for each generator: it returns for
    every well-formed schema and saves a complete text (no placeholder left, braces and parentheses
    balanced, indentation given back).
  \<^item> \<^verbatim>\<open>Demo_Apps\<close>: the demo server and client (\<^verbatim>\<open>src/demo_apps\<close>), from the schema that smfc compiles to the reply of the
    service.
  \<^item> This theory: a call from the stub on the client to the method on the server and back.

  \<^bold>\<open>Parameters.\<close> Code outside the repository is an argument: XXH64, the zstd, lz4 and HdrHistogram
  libraries, flatbuffers (packing, roots, verifiers, the schema parser, file names), boost's CRC-32 and file
  system, the clock and random numbers. What a theorem needs of them is a hypothesis that states their documented
  behaviour (\<open>zstd_ok\<close>, \<open>lz4_ok\<close>, \<open>keeps_files\<close>, \<open>log_iteration\<close>), and its witness has an instance.

  \<^bold>\<open>Termination.\<close> No function has fuel. Loops over data are total functions; the message loop of the
  receiver ends because a message consumes its header. The one loop that need not end, substitution in
  the printer, is a \<^theory_text>\<open>partial_function\<close> with \<open>None\<close> for no result, and both when it returns and when it does
  not is proved. Fibers are cut into steps, so their loops are runs of the machine.

  \<^bold>\<open>Not modelled.\<close> TLS and keep-alive set-up, registration of metrics and what the HTTP server serves
  (calls into seastar without effect on the modelled state); copy and move constructors that only
  move their members; log output; clocks
  (\<^verbatim>\<open>time_utils.h\<close> beyond formatting); the durations that latency histograms of client and server record
  (the server counts the samples); seeding of random numbers; packing of native tables
  (\<^verbatim>\<open>native_type_utils.h\<close>, flatbuffers code); the option parsing and logging of the demo programs; the programs under
  \<^verbatim>\<open>integration_tests\<close>, \<^verbatim>\<open>tests\<close> and \<^verbatim>\<open>benchmarks\<close>, which start the library and print what they observe.
\<close>

section \<open>A call, end to end\<close>

lemma accept_session [simp]:
  "envelope_wf xxh (mutate_session k e) = envelope_wf xxh e"
  "env_body (mutate_session k e) = env_body e"
  "hdr_compression (env_header (mutate_session k e)) = hdr_compression (env_header e)"
  "hdr_meta (env_header (mutate_session k e)) = hdr_meta (env_header e)"
  "hdr_session (env_header (mutate_session k e)) = k"
  by (simp_all add: mutate_session_def envelope_wf_def header_describes_def)

lemma session_arrives [simp]: "recv_session (arrives a e) = hdr_session (env_header e)"
  by (simp add: recv_session_def arrives_def received_ctx_def)

text \<open>
  The filters of the two sides of a connection: one of the compression filters on the way out, at any
  threshold, and both decompression filters on the way in.
\<close>

definition compressing :: "xxh64 \<Rightarrow> zstd_lib \<Rightarrow> lz4_lib \<Rightarrow> rpc_envelope rpc_filter list \<Rightarrow> bool" where
  "compressing xxh Z L outs \<longleftrightarrow>
     (\<exists>m. outs = [zstd_compression_filter xxh Z m] \<or> outs = [lz4_compression_filter xxh L m])"

definition decompressing :: "xxh64 \<Rightarrow> zstd_lib \<Rightarrow> lz4_lib \<Rightarrow> rpc_recv_context rpc_filter list \<Rightarrow> bool" where
  "decompressing xxh Z L inc \<longleftrightarrow>
     inc = [zstd_decompression_filter xxh Z, lz4_decompression_filter xxh L] \<or>
     inc = [lz4_decompression_filter xxh L, zstd_decompression_filter xxh Z]"

lemma filtered_transparent:
  assumes "zstd_ok Z" "lz4_ok L" "compressing xxh Z L outs" "decompressing xxh Z L inc"
    and "envelope_wf xxh e" "hdr_compression (env_header e) = compression_flags_none"
    and "length (env_body e) \<le> LZ4_MAX_INPUT_SIZE" and "rpc_filter_apply outs e = Inr e'"
  shows "rpc_filter_apply inc (arrives a e') = Inr (arrives a e)"
    and "hdr_session (env_header e') = hdr_session (env_header e)"
    and "hdr_meta (env_header e') = hdr_meta (env_header e)"
proof -
  obtain m f where f: "outs = [f]" "f \<in> {zstd_compression_filter xxh Z m, lz4_compression_filter xxh L m}"
    using assms(3) by (auto simp: compressing_def)
  have inc: "inc \<in> {[zstd_decompression_filter xxh Z, lz4_decompression_filter xxh L],
      [lz4_decompression_filter xxh L, zstd_decompression_filter xxh Z]}"
    using assms(4) by (simp add: decompressing_def)
  have e': "f e = Inr e'" using assms(8) f(1) by (simp add: fut_then_eq_Inr)
  show "rpc_filter_apply inc (arrives a e') = Inr (arrives a e)"
    using either_filter_transparent [OF assms(1,2,5-7) f(2) inc, of a] e' by auto
  show "hdr_session (env_header e') = hdr_session (env_header e)"
    "hdr_meta (env_header e') = hdr_meta (env_header e)"
    using f(2) e' zstd_filters.filter_keeps lz4_filters.filter_keeps by blast+
qed

lemma acceptable_nonzero:
  assumes "acceptable_envelope xxh e"
  shows "hdr_size (env_header e) \<noteq> 0" "hdr_checksum (env_header e) \<noteq> 0"
  using assms by (auto simp: acceptable_def header_describes_def)

lemma arrives_none:
  "hdr_compression (env_header e) = compression_flags_none \<Longrightarrow>
     hdr_compression (ctx_header (arrives a e)) = compression_flags_none"
  by (simp add: arrives_def received_ctx_def received_header_def)

text \<open>
  C1. A call returns the reply of the method it names. A client and a server, each with either of the
  compression filters on the way out and both decompression filters on the way in, the server with
  generated services whose request ids differ: the request that the stub of a method makes goes out
  compressed, is read, decompressed and routed to that method; the method's reply goes back
  compressed with the session of the call; and the call returns exactly the context that this reply
  would have had on an uncompressed connection. The two sides exchange nothing but the bytes one
  wrote and the other read.
\<close>

theorem rpc_end_to_end:
  assumes "zstd_ok Z" and "lz4_ok L"
    and "compressing xxh Z L (c_out_filters cc)" and "decompressing xxh Z L (c_in_filters cc)"
    and "c_xxh cc = xxh"
    and "compressing xxh Z L (out_filters sc)" and "decompressing xxh Z L (in_filters sc)"
    and "checksum_fn sc = xxh" and "routes sc = generated_routes gs"
    and "distinct (request_ids gs)" and "g \<in> set gs" and "m \<in> set (gs_methods g)"
    and "e = generated_client_call (gs_id g) (gm_id m) e0" and "envelope_wf xxh e0"
    and "hdr_compression (env_header e0) = compression_flags_none"
    and "length (env_body e0) \<le> LZ4_MAX_INPUT_SIZE"
    and "rpc_filter_apply (c_out_filters cc) (mutate_session 1 e) = Inr e1"
    and "acceptable_envelope xxh e1"
    and "int (envelope_size e1) \<le> uint (opt_memory_avail_for_client opts)"
    and "int (length (env_body e1)) \<le> uint mem"
    and "gm_raw m (arrives ''peer'' (mutate_session 1 e)) = Inr r" and "envelope_wf xxh r"
    and "hdr_compression (env_header r) = compression_flags_none"
    and "length (env_body r) \<le> LZ4_MAX_INPUT_SIZE"
    and "rpc_filter_apply (out_filters sc) (mutate_session 1 r) = Inr r1"
    and "acceptable_envelope xxh r1"
  shows "\<exists>c s c'.
    run (client_step cc) (connect_events @ send_events e) (rpc_client_new opts) = Some c \<and>
    cc_out (c_conns c ! 0) = envelope_wire e1 \<and>
    run (server_step sc) (request_events (env_header e1) @ reply_events (env_body e1))
      (rpc_server_new mem d) = Some s \<and>
    sent_of s 1 = Some (envelope_wire r1) \<and>
    run (client_step cc) (receive_events (env_header r1) (env_body r1)) c = Some c' \<and>
    call_pc (calls c' ! 0) = C_Done (Inr (Some (arrives ''0.0.0.0'' (mutate_session 1 r))))"
proof -
  have e: "env_body e = env_body e0" "envelope_wf xxh e"
    "hdr_compression (env_header e) = compression_flags_none" "hdr_meta (env_header e) = gs_id g XOR gm_id m"
    using assms(13-15) by (simp_all add: generated_client_call_def set_request_id_def envelope_wf_def
        header_describes_def)
  note req = filtered_transparent [OF assms(1,2,3,7) _ _ _ assms(17)]
  note rep = filtered_transparent [OF assms(1,2,6,4) _ _ _ assms(25)]
  have e1: "rpc_filter_apply (in_filters sc) (arrives ''peer'' e1) = Inr (arrives ''peer'' (mutate_session 1 e))"
    "hdr_meta (env_header e1) = gs_id g XOR gm_id m"
    using req e assms(16) by simp_all
  have r1: "rpc_filter_apply (c_in_filters cc) (arrives ''0.0.0.0'' r1) = Inr (arrives ''0.0.0.0'' (mutate_session 1 r))"
    "hdr_session (env_header r1) = 1"
    using rep assms(22-24) by simp_all
  have handle: "get_handle_for_request (routes sc) (gs_id g XOR gm_id m) = Some (generated_handle m)"
    using find_generated [OF assms(11,12,10)]
    by (simp add: assms(9) get_handle_for_request_def services_generated_routes)
  have reply: "generated_handle m (arrives ''peer'' (mutate_session 1 e)) = Inr (mutate_session 1 r)"
    using assms(21) by (simp add: generated_handle_def)
  obtain s where s: "run (server_step sc) (request_events (env_header e1) @ reply_events (env_body e1))
      (rpc_server_new mem d) = Some s" "sent_of s 1 = Some (envelope_wire r1)"
    using request_run [of sc "env_header e1" "env_body e1" mem "generated_handle m"
        "arrives ''peer'' (mutate_session 1 e)" "mutate_session 1 r" r1 d]
      assms(8,18,20,25,26) e(3) e1 handle reply acceptable_nonzero [OF assms(26)]
      arrives_none [of "mutate_session 1 e" "''peer''"]
    by (auto simp: apply_incoming_filters_def apply_outgoing_filters_def arrives_def)
  obtain c c' where "run (client_step cc) (connect_events @ send_events e) (rpc_client_new opts) = Some c"
    "cc_out (c_conns c ! 0) = envelope_wire e1"
    "run (client_step cc) (receive_events (env_header r1) (env_body r1)) c = Some c'"
    "call_pc (calls c' ! 0) = C_Done (Inr (Some (arrives ''0.0.0.0'' (mutate_session 1 r))))"
    using call_run [of cc e e1 opts "env_header r1" "env_body r1"
        "arrives ''0.0.0.0'' (mutate_session 1 r)"]
      assms(5,17,19,23,26) r1 acceptable_nonzero [OF assms(18)]
      arrives_none [of "mutate_session 1 r" "''0.0.0.0''"]
    by (auto simp: client_apply_outgoing_filters_def client_apply_incoming_filters_def arrives_def)
  with s show ?thesis by blast
qed

definition compressing_client :: client_cfg where
  "compressing_client = (sample_client True)\<lparr>c_out_filters := [zstd_compression_filter sample_xxh stored_zstd 1],
     c_in_filters := [zstd_decompression_filter sample_xxh stored_zstd,
       lz4_decompression_filter sample_xxh stored_lz4]\<rparr>"

definition compressing_server :: server_cfg where
  "compressing_server = sample_cfg\<lparr>out_filters := [lz4_compression_filter sample_xxh stored_lz4 1],
     in_filters := [lz4_decompression_filter sample_xxh stored_lz4,
       zstd_decompression_filter sample_xxh stored_zstd]\<rparr>"

lemmas deployment_defs = decompressing_def compressing_client_def
  compressing_server_def sample_client_defs sample_cfg_def sample_service_def request_ids_def
  zstd_compression_filter_def lz4_compression_filter_def zstd_compress_def lz4_compress_def
  stored_zstd_def stored_lz4_def with_body_def generated_client_call_def set_request_id_def
  mutate_session_def env_with_def log_throw_if_def envelope_wf_def header_describes_def
  acceptable_def compression_flags_defs LZ4_MAX_INPUT_SIZE_def envelope_size_def
  rpc_letter_size_def kHeaderSize_def arrives_def received_ctx_def received_header_def
  header_bit_flags_has_payload_headers_def int_of_size_def

lemma two_to_le: "word_to_le 4 (2 :: u32) = [2, 0, 0, 0]"
proof -
  have "nat_to_le (Suc (Suc (Suc (Suc 0)))) 2 = [2, 0, 0, 0]" by simp
  moreover have "Suc (Suc (Suc (Suc 0))) = 4" by simp
  ultimately show ?thesis by (simp add: word_to_le_def)
qed

theorem rpc_end_to_end_witness:
  "\<exists>c s c'.
    run (client_step compressing_client) (connect_events @ send_events
      (generated_client_call 1 2 (sample_envelope 0 0 [5, 6]))) (rpc_client_new sample_opts) = Some c \<and>
    cc_out (c_conns c ! 0) =
      envelope_wire (with_body sample_xxh compression_flags_zstd [5, 6] (sample_envelope 1 3 [5, 6])) \<and>
    run (server_step compressing_server)
      (request_events (env_header (with_body sample_xxh compression_flags_zstd [5, 6] (sample_envelope 1 3 [5, 6]))) @
       reply_events (env_body (with_body sample_xxh compression_flags_zstd [5, 6] (sample_envelope 1 3 [5, 6]))))
      (rpc_server_new 1000 5) = Some s \<and>
    sent_of s 1 = Some (envelope_wire
      (with_body sample_xxh compression_flags_lz4 [2, 0, 0, 0, 5, 6] (sample_envelope 1 200 [5, 6]))) \<and>
    run (client_step compressing_client) (receive_events
      (env_header (with_body sample_xxh compression_flags_lz4 [2, 0, 0, 0, 5, 6] (sample_envelope 1 200 [5, 6])))
      (env_body (with_body sample_xxh compression_flags_lz4 [2, 0, 0, 0, 5, 6] (sample_envelope 1 200 [5, 6])))) c =
      Some c' \<and>
    call_pc (calls c' ! 0) = C_Done (Inr (Some (arrives ''0.0.0.0'' (mutate_session 1 (sample_envelope 0 200 [5, 6])))))"
proof (rule rpc_end_to_end [where gs = "[sample_service 1 [2]]" and g = "sample_service 1 [2]"
      and m = "hd (gs_methods (sample_service 1 [2]))" and Z = stored_zstd and L = stored_lz4
      and xxh = sample_xxh and ?e0.0 = "sample_envelope 0 0 [5, 6]" and r = "sample_envelope 0 200 [5, 6]"])
  show "zstd_ok stored_zstd" "lz4_ok stored_lz4" by (rule stored_zstd_ok stored_lz4_ok)+
  show "compressing sample_xxh stored_zstd stored_lz4 (c_out_filters compressing_client)"
    by (auto simp: compressing_def compressing_client_def)
  show "compressing sample_xxh stored_zstd stored_lz4 (out_filters compressing_server)"
    by (auto simp: compressing_def compressing_server_def)
qed (simp_all add: deployment_defs two_to_le)

end
